(* ===== verification/Prelude.thy ===== *)
theory Prelude
  imports Main "HOL-Library.Word" "HOL-Library.Monad_Syntax"
begin

text \<open>
  What every component shares: Python's byte strings and text strings, its exceptions
  as values of a sum type, and the interfaces (locales) for encoders and parsers.

  A \<open>bytes\<close> value is a list of 8-bit words.  A \<open>str\<close> value is the list of its code
  points, as Python's \<open>str\<close> is (so it may hold lone surrogates, which no UTF-8 encoder
  accepts); \<open>lit\<close> writes an ASCII literal of the source.
\<close>

section \<open>Strings and bytes\<close>

type_synonym byte = "8 word"
type_synonym bytes = "byte list"
type_synonym pystr = "nat list"

definition lit :: "string \<Rightarrow> pystr" where
  "lit s = map of_char s"

named_theorems py_simps \<open>unfolding of the Python-level primitives\<close>
named_theorems roundtrip \<open>decoding what was encoded\<close>
named_theorems inv_simps \<open>what the state invariants say of an update\<close>

lemma inj_of_char_nat: "inj (of_char :: char \<Rightarrow> nat)"
  by (rule injI) simp

lemma lit_eq_iff [simp]: "lit s = lit t \<longleftrightarrow> s = t"
  unfolding lit_def using inj_of_char_nat by (simp add: inj_map_eq_map)

lemma lit_Nil [simp]: "lit [] = []"
  by (simp add: lit_def)

lemma lit_eq_Nil_iff [simp]: "lit s = [] \<longleftrightarrow> s = []" "[] = lit s \<longleftrightarrow> s = []"
  by (auto simp: lit_def)

lemma lit_append: "lit (s @ t) = lit s @ lit t"
  by (simp add: lit_def)

lemma length_lit [simp]: "length (lit s) = length s"
  by (simp add: lit_def)

lemma lit_lt_256: "c \<in> set (lit s) \<Longrightarrow> c < 256"
  by (auto simp: lit_def)

section \<open>Exceptions\<close>

text \<open>
  The exception classes the code raises or catches.  Python's \<open>except\<close> catches
  subclasses, so the catching clauses are predicates: \<open>UnicodeEncodeError\<close>,
  \<open>UnicodeDecodeError\<close> and \<open>JSONDecodeError\<close> are \<open>ValueError\<close>s, a
  \<open>FileNotFoundError\<close> is an \<open>OSError\<close>, and the three database errors are
  \<open>sqlite3.Error\<close>s.
\<close>

datatype exc = ProtocolError | AuthError | CryptoError | ValueError | KeyError | TypeError
  | AttributeError | UnicodeEncodeError | UnicodeDecodeError | JSONDecodeError | OSError
  | FileNotFoundError | IntegrityError | OperationalError | ProgrammingError | OverflowError
  | UnsupportedAlgorithm

type_synonym 'a res = "exc + 'a"

definition is_ValueError :: "exc \<Rightarrow> bool" where
  "is_ValueError e \<longleftrightarrow>
     e \<in> {ValueError, UnicodeEncodeError, UnicodeDecodeError, JSONDecodeError}"

definition is_OSError :: "exc \<Rightarrow> bool" where
  "is_OSError e \<longleftrightarrow> e \<in> {OSError, FileNotFoundError}"

definition is_sqlite_Error :: "exc \<Rightarrow> bool" where
  "is_sqlite_Error e \<longleftrightarrow> e \<in> {IntegrityError, OperationalError, ProgrammingError}"

text \<open>The name \<open>type(exc).__name__\<close>, which the audit events carry.\<close>

primrec exc_name :: "exc \<Rightarrow> pystr" where
  "exc_name ProtocolError = lit ''ProtocolError''"
| "exc_name AuthError = lit ''AuthError''"
| "exc_name CryptoError = lit ''CryptoError''"
| "exc_name ValueError = lit ''ValueError''"
| "exc_name KeyError = lit ''KeyError''"
| "exc_name TypeError = lit ''TypeError''"
| "exc_name AttributeError = lit ''AttributeError''"
| "exc_name UnicodeEncodeError = lit ''UnicodeEncodeError''"
| "exc_name UnicodeDecodeError = lit ''UnicodeDecodeError''"
| "exc_name JSONDecodeError = lit ''JSONDecodeError''"
| "exc_name OSError = lit ''OSError''"
| "exc_name FileNotFoundError = lit ''FileNotFoundError''"
| "exc_name IntegrityError = lit ''IntegrityError''"
| "exc_name OperationalError = lit ''OperationalError''"
| "exc_name ProgrammingError = lit ''ProgrammingError''"
| "exc_name OverflowError = lit ''OverflowError''"
| "exc_name UnsupportedAlgorithm = lit ''UnsupportedAlgorithm''"

lemmas exc_class_simps [simp] = is_ValueError_def is_OSError_def is_sqlite_Error_def

section \<open>Sequencing of computations that may raise\<close>

definition rbind :: "'e + 'a \<Rightarrow> ('a \<Rightarrow> 'e + 'b) \<Rightarrow> 'e + 'b" where
  "rbind r f = (case r of Inl e \<Rightarrow> Inl e | Inr x \<Rightarrow> f x)"

text \<open>\<open>raise e unless b\<close>, and an option read as a computation that raises \<open>e\<close>.\<close>

definition ensure :: "'e \<Rightarrow> bool \<Rightarrow> 'e + unit" where
  "ensure e b = (if b then Inr () else Inl e)"

definition some_or :: "'e \<Rightarrow> 'a option \<Rightarrow> 'e + 'a" where
  "some_or e v = (case v of None \<Rightarrow> Inl e | Some x \<Rightarrow> Inr x)"

lemma rbind_simps [simp]: "rbind (Inl e) f = Inl e" "rbind (Inr x) f = f x"
  by (simp_all add: rbind_def)

lemma rbind_Inr_iff: "rbind r f = Inr y \<longleftrightarrow> (\<exists>x. r = Inr x \<and> f x = Inr y)"
  by (cases r) simp_all

lemma rbind_Inl_iff: "rbind r f = Inl e \<longleftrightarrow> r = Inl e \<or> (\<exists>x. r = Inr x \<and> f x = Inl e)"
  by (cases r) simp_all

lemma ensure_simps [simp]: "ensure e True = Inr ()" "ensure e False = Inl e"
  by (simp_all add: ensure_def)

lemma ensure_Inr_iff [simp]: "ensure e b = Inr x \<longleftrightarrow> b"
  by (simp add: ensure_def)

lemma some_or_simps [simp]: "some_or e None = Inl e" "some_or e (Some x) = Inr x"
  by (simp_all add: some_or_def)

lemma some_or_Inr_iff [simp]: "some_or e v = Inr x \<longleftrightarrow> v = Some x"
  by (cases v) simp_all

lemma rbind_check_Inr: "rbind r (\<lambda>b. rbind (ensure e b) f) = Inr x \<longleftrightarrow> r = Inr True \<and> f () = Inr x"
  by (cases r) (auto simp: ensure_def)

lemmas res_iffs = rbind_Inr_iff ensure_Inr_iff some_or_Inr_iff

section \<open>Interfaces: codecs and printers with parsers\<close>

text \<open>
  A codec: decoding gives back what was encoded.  Whoever signs, hashes or keys
  something by its encoding relies on the consequence that the encoding is injective.
\<close>

locale codec =
  fixes enc :: "'a \<Rightarrow> 'b" and dec :: "'b \<Rightarrow> 'a option" and valid :: "'a \<Rightarrow> bool"
  assumes dec_enc: "valid x \<Longrightarrow> dec (enc x) = Some x"
begin

lemma enc_inject: "valid x \<Longrightarrow> valid y \<Longrightarrow> enc x = enc y \<Longrightarrow> x = y"
  using dec_enc by (metis option.inject)

lemma enc_eq_iff: "valid x \<Longrightarrow> valid y \<Longrightarrow> enc x = enc y \<longleftrightarrow> x = y"
  using enc_inject by blast

end

text \<open>
  A printer and a parser that stops at the end of what was printed, whenever what
  follows cannot extend it (\<open>follow\<close>).  Such a printer is uniquely decodable: two
  concatenations agree only if their parts do.
\<close>

locale printer_parser =
  fixes pr :: "'a \<Rightarrow> 'c list" and ps :: "'c list \<Rightarrow> ('a \<times> 'c list) option"
    and valid :: "'a \<Rightarrow> bool" and follow :: "'c list \<Rightarrow> bool"
  assumes ps_pr: "valid x \<Longrightarrow> follow s \<Longrightarrow> ps (pr x @ s) = Some (x, s)"
begin

lemma pr_append_inject:
  assumes "valid x" "valid y" "follow s" "follow t" "pr x @ s = pr y @ t"
  shows "x = y \<and> s = t"
proof -
  have "ps (pr x @ s) = Some (x, s)" using assms(1,3) by (rule ps_pr)
  moreover have "ps (pr y @ t) = Some (y, t)" using assms(2,4) by (rule ps_pr)
  ultimately have "Some (x, s) = Some (y, t)" by (simp only: assms(5))
  then show ?thesis by simp
qed

end

text \<open>A call to the outside that may hit a fault before it takes effect.\<close>

definition with_fault :: "exc option \<Rightarrow> 'a res \<Rightarrow> 'a res" where
  "with_fault fault r = (case fault of Some e \<Rightarrow> Inl e | None \<Rightarrow> r)"

lemma with_fault_Inr [simp]: "with_fault fault r = Inr x \<longleftrightarrow> fault = None \<and> r = Inr x"
  by (cases fault) (simp_all add: with_fault_def)

lemma with_fault_None [simp]: "with_fault None r = r"
  by (simp add: with_fault_def)

section \<open>Lists and association lists\<close>

text \<open>Python's \<open>sep.join(parts)\<close>.\<close>

fun join :: "'a list \<Rightarrow> 'a list list \<Rightarrow> 'a list" where
  "join sep [] = []"
| "join sep [x] = x"
| "join sep (x # y # xs) = x @ sep @ join sep (y # xs)"

lemma map_of_filter_key:
  "map_of (filter (\<lambda>(k, v). k \<noteq> a) xs) = (map_of xs)(a := None)"
proof (induction xs)
  case Nil
  then show ?case by simp
next
  case (Cons p xs)
  then show ?case by (cases p) (auto simp: fun_eq_iff)
qed

lemma list_all_set: "list_all P xs \<longleftrightarrow> (\<forall>x \<in> set xs. P x)"
  by (induction xs) simp_all

end
