(* ===== verification/Unicode.thy ===== *)
theory Unicode
  imports Prelude
begin

text \<open>
  \<open>str.encode("ascii")\<close>, \<open>str.encode("utf-8")\<close>, \<open>bytes.decode("utf-8")\<close>,
  \<open>bytes.hex()\<close> and the decimal and hexadecimal numerals Python prints, over the code
  points of a \<open>str\<close>.  The UTF-8 codec is Python's strict one: lone surrogates are
  refused by the encoder, overlong forms, surrogates and values above 10FFFF by the
  decoder.
\<close>

section \<open>Bytes and numbers\<close>

definition b8 :: "nat \<Rightarrow> byte" where
  "b8 n = word_of_nat n"

lemma unat_b8: "unat (b8 n) = n mod 256"
  by (simp add: b8_def unat_of_nat)

lemma unat_b8_id [simp]: "n < 256 \<Longrightarrow> unat (b8 n) = n"
  by (simp add: unat_b8)

lemma unat_byte_lt [simp]: "unat (b :: byte) < 256"
  using unsigned_less [of b] by simp

lemma b8_unat [simp]: "b8 (unat b) = b"
  by (simp add: b8_def)

lemma b8_inject: "m < 256 \<Longrightarrow> n < 256 \<Longrightarrow> b8 m = b8 n \<longleftrightarrow> m = n"
  using unat_b8_id by metis

section \<open>ASCII\<close>

definition ascii_encode :: "pystr \<Rightarrow> bytes res" where
  "ascii_encode s = (if list_all (\<lambda>c. c < 128) s then Inr (map b8 s) else Inl UnicodeEncodeError)"

definition ascii_decode :: "bytes \<Rightarrow> pystr res" where
  "ascii_decode bs =
     (if list_all (\<lambda>b. unat b < 128) bs then Inr (map unat bs) else Inl UnicodeDecodeError)"

lemma ascii_encode_Inr_iff:
  "ascii_encode s = Inr bs \<longleftrightarrow> (\<forall>c \<in> set s. c < 128) \<and> bs = map b8 s"
  by (auto simp: ascii_encode_def list_all_set)

lemma ascii_decode_encode: "ascii_encode s = Inr bs \<Longrightarrow> ascii_decode bs = Inr s"
  by (auto simp: ascii_encode_Inr_iff ascii_decode_def list_all_set intro!: map_idI)

lemma ascii_encode_decode: "ascii_decode bs = Inr s \<Longrightarrow> ascii_encode s = Inr bs \<and> list_all (\<lambda>c. c < 128) s"
  by (auto simp: ascii_encode_def ascii_decode_def list_all_set comp_def split: if_splits intro!: map_idI)


section \<open>UTF-8\<close>

definition utf8_char :: "nat \<Rightarrow> bytes option" where
  "utf8_char c =
     (if c < 128 then Some [b8 c]
      else if c < 2048 then Some [b8 (192 + c div 64), b8 (128 + c mod 64)]
      else if c < 65536 then
        (if 55296 \<le> c \<and> c < 57344 then None
         else Some [b8 (224 + c div 4096), b8 (128 + c div 64 mod 64), b8 (128 + c mod 64)])
      else if c < 1114112 then
        Some [b8 (240 + c div 262144), b8 (128 + c div 4096 mod 64),
              b8 (128 + c div 64 mod 64), b8 (128 + c mod 64)]
      else None)"

fun utf8_chars :: "pystr \<Rightarrow> bytes option" where
  "utf8_chars [] = Some []"
| "utf8_chars (c # s) =
     (case utf8_char c of None \<Rightarrow> None | Some b \<Rightarrow> map_option (append b) (utf8_chars s))"

definition utf8_encode :: "pystr \<Rightarrow> bytes res" where
  "utf8_encode s = some_or UnicodeEncodeError (utf8_chars s)"

text \<open>A continuation byte carries six bits.\<close>

definition cont :: "byte \<Rightarrow> nat option" where
  "cont b = (if 128 \<le> unat b \<and> unat b < 192 then Some (unat b - 128) else None)"

definition cont3 :: "byte \<Rightarrow> byte \<Rightarrow> nat option" where
  "cont3 b1 b2 = (case (cont b1, cont b2) of (Some x, Some y) \<Rightarrow> Some (64 * x + y) | _ \<Rightarrow> None)"

fun utf8_points :: "bytes \<Rightarrow> pystr option" where
  "utf8_points [] = Some []"
| "utf8_points (b # bs) =
     (let n = unat b in
      if n < 128 then map_option (Cons n) (utf8_points bs)
      else if 194 \<le> n \<and> n < 224 then
        (case bs of
           b1 # r \<Rightarrow> (case cont b1 of
              None \<Rightarrow> None
            | Some x \<Rightarrow> map_option (Cons (64 * (n - 192) + x)) (utf8_points r))
         | _ \<Rightarrow> None)
      else if 224 \<le> n \<and> n < 240 then
        (case bs of
           b1 # b2 # r \<Rightarrow> (case cont3 b1 b2 of
              None \<Rightarrow> None
            | Some x \<Rightarrow> (let c = 4096 * (n - 224) + x in
                 if c < 2048 \<or> 55296 \<le> c \<and> c < 57344 then None
                 else map_option (Cons c) (utf8_points r)))
         | _ \<Rightarrow> None)
      else if 240 \<le> n \<and> n < 245 then
        (case bs of
           b1 # b2 # b3 # r \<Rightarrow> (case (cont b1, cont3 b2 b3) of
              (Some y, Some x) \<Rightarrow> (let c = 262144 * (n - 240) + 4096 * y + x in
                 if c < 65536 \<or> 1114112 \<le> c then None
                 else map_option (Cons c) (utf8_points r))
            | _ \<Rightarrow> None)
         | _ \<Rightarrow> None)
      else None)"

definition utf8_decode :: "bytes \<Rightarrow> pystr res" where
  "utf8_decode bs = some_or UnicodeDecodeError (utf8_points bs)"

text \<open>The code points UTF-8 can carry.\<close>

definition scalar :: "nat \<Rightarrow> bool" where
  "scalar c \<longleftrightarrow> c < 1114112 \<and> \<not> (55296 \<le> c \<and> c < 57344)"

lemma utf8_char_Some_iff: "(\<exists>b. utf8_char c = Some b) \<longleftrightarrow> scalar c"
  by (auto simp: utf8_char_def scalar_def)

lemma utf8_chars_Some_iff: "(\<exists>b. utf8_chars s = Some b) \<longleftrightarrow> (\<forall>c \<in> set s. scalar c)"
proof (induction s)
  case Nil
  then show ?case by simp
next
  case (Cons c s)
  then show ?case using utf8_char_Some_iff [of c] by (auto split: option.splits)
qed

lemma utf8_encode_Inr_iff: "(\<exists>b. utf8_encode s = Inr b) \<longleftrightarrow> (\<forall>c \<in> set s. scalar c)"
  using utf8_chars_Some_iff by (auto simp: utf8_encode_def)

lemma cont_b8 [simp]: "x < 64 \<Longrightarrow> cont (b8 (128 + x)) = Some x"
  by (simp add: cont_def)

lemma cont3_b8 [simp]: "x < 64 \<Longrightarrow> y < 64 \<Longrightarrow> cont3 (b8 (128 + x)) (b8 (128 + y)) = Some (64 * x + y)"
  by (simp add: cont3_def)

lemma sextets:
  fixes c :: nat
  shows "64 * (c div 64) + c mod 64 = c"
    and "4096 * (c div 4096) + (64 * (c div 64 mod 64) + c mod 64) = c"
    and "262144 * (c div 262144) + 4096 * (c div 4096 mod 64)
      + (64 * (c div 64 mod 64) + c mod 64) = c"
proof -
  define q r t where "q = c div 64" and "r = q div 64" and "t = r div 64"
  have d: "c div 4096 = r" "c div 262144 = t"
    by (simp_all add: q_def r_def t_def div_mult2_eq [symmetric])
  have e: "64 * q + c mod 64 = c" "64 * r + q mod 64 = q" "64 * t + r mod 64 = r"
    by (simp_all add: q_def r_def t_def)
  show "64 * (c div 64) + c mod 64 = c" by simp
  show "4096 * (c div 4096) + (64 * (c div 64 mod 64) + c mod 64) = c"
    unfolding d q_def [symmetric] using e by linarith
  show "262144 * (c div 262144) + 4096 * (c div 4096 mod 64)
      + (64 * (c div 64 mod 64) + c mod 64) = c"
    unfolding d q_def [symmetric] using e by linarith
qed

lemma utf8_points_char:
  assumes "utf8_char c = Some b"
  shows "utf8_points (b @ bs) = map_option (Cons c) (utf8_points bs)"
proof -
  consider "c < 128" | "128 \<le> c" "c < 2048" | "2048 \<le> c" "c < 65536" | "65536 \<le> c" "c < 1114112"
    using assms by (auto simp: utf8_char_def split: if_splits)
  then show ?thesis
  proof cases
    case 1
    with assms show ?thesis by (auto simp: utf8_char_def)
  next
    case 2
    then have "c div 64 < 32" "2 \<le> c div 64" by auto
    moreover have "64 * (c div 64) + c mod 64 = c" by simp
    ultimately show ?thesis using assms 2 by (auto simp: utf8_char_def Let_def)
  next
    case 3
    then have "c div 4096 < 16" by auto
    then show ?thesis using assms 3
      by (auto simp: utf8_char_def Let_def sextets(2) split: if_splits)
  next
    case 4
    then have "c div 262144 < 5" by auto
    then show ?thesis using assms 4
      by (auto simp: utf8_char_def Let_def sextets(3))
  qed
qed

lemma utf8_points_chars: "utf8_chars s = Some bs \<Longrightarrow> utf8_points bs = Some s"
proof (induction s arbitrary: bs)
  case Nil
  then show ?case by simp
next
  case (Cons c s)
  then show ?case by (auto split: option.splits simp: utf8_points_char)
qed

lemma utf8_decode_encode [roundtrip]: "utf8_encode s = Inr bs \<Longrightarrow> utf8_decode bs = Inr s"
  by (auto simp: utf8_encode_def utf8_decode_def utf8_points_chars)

lemma utf8_encode_inject: "utf8_encode s = Inr bs \<Longrightarrow> utf8_encode t = Inr bs \<Longrightarrow> s = t"
  using utf8_decode_encode [of s bs] utf8_decode_encode [of t bs] by simp

text \<open>An ASCII string is encoded byte for byte.\<close>

lemma utf8_chars_ascii: "\<forall>c \<in> set s. c < 128 \<Longrightarrow> utf8_chars s = Some (map b8 s)"
  by (induction s) (auto simp: utf8_char_def)

lemma utf8_encode_ascii: "\<forall>c \<in> set s. c < 128 \<Longrightarrow> utf8_encode s = Inr (map b8 s)"
  by (simp add: utf8_encode_def utf8_chars_ascii)

lemma utf8_chars_append:
  "utf8_chars (s @ t) = (case (utf8_chars s, utf8_chars t) of
     (Some a, Some b) \<Rightarrow> Some (a @ b) | _ \<Rightarrow> None)"
  by (induction s) (auto split: option.splits)

interpretation utf8: codec "\<lambda>s. the (utf8_chars s)" utf8_points "\<lambda>s. \<forall>c \<in> set s. scalar c"
proof unfold_locales
  fix s :: pystr
  assume "\<forall>c \<in> set s. scalar c"
  then obtain bs where "utf8_chars s = Some bs" using utf8_chars_Some_iff by blast
  then show "utf8_points (the (utf8_chars s)) = Some s" by (simp add: utf8_points_chars)
qed

section \<open>Numerals\<close>

fun dec :: "nat \<Rightarrow> pystr" where
  "dec n = (if n < 10 then [48 + n] else dec (n div 10) @ [48 + n mod 10])"

declare dec.simps [simp del]

text \<open>\<open>str(n)\<close> for an int.\<close>

definition str_int :: "int \<Rightarrow> pystr" where
  "str_int i = (if i < 0 then 45 # dec (nat (- i)) else dec (nat i))"

definition is_digit :: "nat \<Rightarrow> bool" where
  "is_digit c \<longleftrightarrow> 48 \<le> c \<and> c \<le> 57"

definition undec :: "pystr \<Rightarrow> nat" where
  "undec ds = foldl (\<lambda>n c. 10 * n + (c - 48)) 0 ds"

lemma dec_digits: "c \<in> set (dec n) \<Longrightarrow> is_digit c"
proof (induction n rule: dec.induct)
  case (1 n)
  from "1.prems" have "c \<in> set (if n < 10 then [48 + n] else dec (n div 10) @ [48 + n mod 10])"
    by (subst (asm) dec.simps)
  with "1.IH" show ?case by (auto simp: is_digit_def split: if_splits)
qed

lemma dec_nonempty [simp]: "dec n \<noteq> []"
  by (subst dec.simps) simp

lemma dec_Cons: "\<exists>c r. dec n = c # r \<and> is_digit c"
  using dec_digits [of _ n] by (cases "dec n") auto

lemma undec_dec [roundtrip, simp]: "undec (dec n) = n"
proof (induction n rule: dec.induct)
  case (1 n)
  then show ?case by (subst dec.simps) (auto simp: undec_def)
qed

lemma dec_inject [simp]: "dec m = dec n \<longleftrightarrow> m = n"
  using undec_dec by metis

lemma dec_hd_nonzero: "0 < n \<Longrightarrow> hd (dec n) \<noteq> 48"
proof (induction n rule: dec.induct)
  case (1 n)
  show ?case
  proof (cases "n < 10")
    case True
    with 1 show ?thesis by (subst dec.simps) simp
  next
    case False
    with 1 have "hd (dec (n div 10)) \<noteq> 48" by (simp add: div_greater_zero_iff)
    with False show ?thesis by (subst dec.simps) simp
  qed
qed

lemma dec_zero: "dec 0 = [48]"
  by (subst dec.simps) simp

section \<open>Hexadecimal\<close>

definition hex_digit :: "nat \<Rightarrow> nat" where
  "hex_digit n = (if n < 10 then 48 + n else 87 + n)"

definition unhex_digit :: "nat \<Rightarrow> nat option" where
  "unhex_digit c =
     (if 48 \<le> c \<and> c \<le> 57 then Some (c - 48)
      else if 97 \<le> c \<and> c \<le> 102 then Some (c - 87)
      else if 65 \<le> c \<and> c \<le> 70 then Some (c - 55)
      else None)"

lemma unhex_hex_digit [simp]: "n < 16 \<Longrightarrow> unhex_digit (hex_digit n) = Some n"
  by (auto simp: hex_digit_def unhex_digit_def)

lemma hex_digit_inject: "m < 16 \<Longrightarrow> n < 16 \<Longrightarrow> hex_digit m = hex_digit n \<longleftrightarrow> m = n"
  using unhex_hex_digit by (metis option.inject)

text \<open>\<open>bytes.hex()\<close>, which \<open>hexdigest()\<close> returns.\<close>

definition hex_byte :: "byte \<Rightarrow> pystr" where
  "hex_byte b = [hex_digit (unat b div 16), hex_digit (unat b mod 16)]"

definition hex :: "bytes \<Rightarrow> pystr" where
  "hex bs = concat (map hex_byte bs)"

lemma hex_simps [simp]: "hex [] = []" "hex (b # bs) = hex_byte b @ hex bs"
  by (simp_all add: hex_def)

lemma length_hex [simp]: "length (hex bs) = 2 * length bs"
  by (induction bs) (auto simp: hex_byte_def)

lemma hex_byte_inject: "hex_byte a = hex_byte b \<longleftrightarrow> a = b"
proof
  assume "hex_byte a = hex_byte b"
  moreover have "unat x div 16 < 16" for x :: byte using unat_byte_lt [of x] by linarith
  ultimately have "unat a div 16 = unat b div 16" "unat a mod 16 = unat b mod 16"
    by (auto simp: hex_byte_def hex_digit_inject)
  then have "unat a = unat b" by (metis mult_div_mod_eq)
  then show "a = b" by (metis b8_unat)
qed simp

lemma length_hex_byte [simp]: "length (hex_byte b) = 2"
  by (simp add: hex_byte_def)

lemma hex_inject: "hex a = hex b \<longleftrightarrow> a = b"
proof (induction a arbitrary: b)
  case Nil
  then show ?case by (cases b) (auto simp: hex_byte_def)
next
  case (Cons x xs)
  show ?case
  proof (cases b)
    case Nil
    then show ?thesis by (simp add: hex_byte_def)
  next
    case (Cons y ys)
    then show ?thesis using Cons.IH by (simp add: append_eq_append_conv hex_byte_inject)
  qed
qed

lemma hex_digit_ascii:
  "n < 16 \<Longrightarrow> hex_digit n < 128 \<and> (is_digit (hex_digit n) \<or> 97 \<le> hex_digit n \<and> hex_digit n \<le> 102)"
  by (auto simp: hex_digit_def is_digit_def)

lemma hex_byte_ascii: "c \<in> set (hex_byte b) \<Longrightarrow> c < 128 \<and> (is_digit c \<or> 97 \<le> c \<and> c \<le> 102)"
proof -
  assume c: "c \<in> set (hex_byte b)"
  have "unat b div 16 < 16" using unat_byte_lt [of b] by linarith
  moreover have "unat b mod 16 < 16" by simp
  ultimately show ?thesis
    using c hex_digit_ascii [of "unat b div 16"] hex_digit_ascii [of "unat b mod 16"]
    unfolding hex_byte_def by (elim set_ConsD [THEN disjE]) simp_all
qed

lemma hex_ascii: "c \<in> set (hex bs) \<Longrightarrow> c < 128 \<and> (is_digit c \<or> 97 \<le> c \<and> c \<le> 102)"
proof (induction bs)
  case (Cons b bs)
  then show ?case using hex_byte_ascii [of c b] by (simp only: hex_simps set_append Un_iff) blast
qed simp

section \<open>Text files\<close>

text \<open>\<open>Path.read_text\<close> opens in text mode, which turns \<open>\r\n\<close> and \<open>\r\<close> into \<open>\n\<close>.\<close>

fun newlines_from :: "bool \<Rightarrow> pystr \<Rightarrow> pystr" where
  "newlines_from cr [] = []"
| "newlines_from cr (c # s) =
     (if c = 13 then 10 # newlines_from True s
      else if c = 10 \<and> cr then newlines_from False s
      else c # newlines_from False s)"

definition universal_newlines :: "pystr \<Rightarrow> pystr" where
  "universal_newlines s = newlines_from False s"

lemma universal_newlines_plain: "13 \<notin> set s \<Longrightarrow> universal_newlines s = s"
  unfolding universal_newlines_def by (induction s) auto

end
