(* ===== verification/Json.thy ===== *)
theory Json
  imports Unicode "HOL-Library.List_Lexorder" "HOL-Library.Multiset"
begin

text \<open>
  JSON values as Python has them after \<open>json.loads\<close>, Python's equality on them, and
  \<open>json.dumps\<close> with the options the code uses; \<open>canonical_json\<close> of
  \<open>common/canonical.py\<close> is at the end.

  An object is the list of its items in insertion order.  A float is kept as the shortest
  decimal that names it (sign, digits, power of ten), which is what \<open>float.__repr__\<close>
  prints.
\<close>

section \<open>Values\<close>

datatype pyfloat = FDec bool nat int | FInf bool | FNaN

datatype json = JNull | JBool bool | JInt int | JFloat pyfloat | JStr pystr
  | JArr "json list" | JObj "(pystr \<times> json) list"

type_synonym jdict = "(pystr \<times> json) list"

primrec is_JStr :: "json \<Rightarrow> bool" where
  "is_JStr JNull = False"
| "is_JStr (JBool b) = False"
| "is_JStr (JInt i) = False"
| "is_JStr (JFloat f) = False"
| "is_JStr (JStr s) = True"
| "is_JStr (JArr xs) = False"
| "is_JStr (JObj kvs) = False"

text \<open>\<open>isinstance(v, int)\<close>, with the value of \<open>int(v)\<close>: a bool is an int in Python.\<close>

primrec as_int :: "json \<Rightarrow> int option" where
  "as_int JNull = None"
| "as_int (JBool b) = Some (of_bool b)"
| "as_int (JInt i) = Some i"
| "as_int (JFloat f) = None"
| "as_int (JStr s) = None"
| "as_int (JArr xs) = None"
| "as_int (JObj kvs) = None"

primrec as_str :: "json \<Rightarrow> pystr option" where
  "as_str JNull = None"
| "as_str (JBool b) = None"
| "as_str (JInt i) = None"
| "as_str (JFloat f) = None"
| "as_str (JStr s) = Some s"
| "as_str (JArr xs) = None"
| "as_str (JObj kvs) = None"

primrec as_dict :: "json \<Rightarrow> jdict option" where
  "as_dict JNull = None"
| "as_dict (JBool b) = None"
| "as_dict (JInt i) = None"
| "as_dict (JFloat f) = None"
| "as_dict (JStr s) = None"
| "as_dict (JArr xs) = None"
| "as_dict (JObj kvs) = Some kvs"

lemma as_int_Some_iff: "as_int v = Some i \<longleftrightarrow> v = JInt i \<or> (\<exists>b. v = JBool b \<and> i = of_bool b)"
  by (cases v) auto

lemma as_str_Some_iff [simp]: "as_str v = Some s \<longleftrightarrow> v = JStr s"
  by (cases v) auto

lemma as_dict_Some_iff [simp]: "as_dict v = Some kvs \<longleftrightarrow> v = JObj kvs"
  by (cases v) auto

lemma is_JStr_iff: "is_JStr v \<longleftrightarrow> (\<exists>s. v = JStr s)"
  by (cases v) auto

text \<open>\<open>d.get(k)\<close> (None when absent) and \<open>d[k]\<close> (KeyError when absent).\<close>

definition jget :: "jdict \<Rightarrow> pystr \<Rightarrow> json" where
  "jget d k = (case map_of d k of None \<Rightarrow> JNull | Some v \<Rightarrow> v)"

definition jitem :: "jdict \<Rightarrow> pystr \<Rightarrow> json res" where
  "jitem d k = some_or KeyError (map_of d k)"

text \<open>\<open>d[k] = v\<close>: an existing key keeps its place.\<close>

fun jput :: "pystr \<Rightarrow> json \<Rightarrow> jdict \<Rightarrow> jdict" where
  "jput k v [] = [(k, v)]"
| "jput k v ((k', v') # d) = (if k = k' then (k, v) # d else (k', v') # jput k v d)"

lemma map_of_jput: "map_of (jput k v d) = (map_of d)(k \<mapsto> v)"
  by (induction d) (auto simp: fun_eq_iff)

lemma keys_jput: "set (map fst (jput k v d)) = insert k (set (map fst d))"
proof (induction d)
  case Nil
  then show ?case by simp
next
  case (Cons p d)
  then show ?case by (cases p) auto
qed

lemma distinct_jput: "distinct (map fst d) \<Longrightarrow> distinct (map fst (jput k v d))"
proof (induction d)
  case Nil
  then show ?case by simp
next
  case (Cons p d)
  then show ?case using keys_jput [of k v d] by (cases p) auto
qed

section \<open>Python's equality on JSON values\<close>

text \<open>
  \<open>True == 1 == 1.0\<close>, and objects compare without regard to the order of their items:
  two values are equal when their normal forms are.
\<close>

definition norm_float :: "pyfloat \<Rightarrow> json" where
  "norm_float f = (case f of
     FDec neg m e \<Rightarrow>
       if m = 0 then JInt 0
       else if 0 \<le> e then JInt ((if neg then - 1 else 1) * int m * 10 ^ nat e)
       else JFloat f
   | _ \<Rightarrow> JFloat f)"

primrec norm :: "json \<Rightarrow> json" where
  "norm JNull = JNull"
| "norm (JBool b) = JInt (of_bool b)"
| "norm (JInt i) = JInt i"
| "norm (JFloat f) = norm_float f"
| "norm (JStr s) = JStr s"
| "norm (JArr xs) = JArr (map norm xs)"
| "norm (JObj kvs) = JObj (sort_key fst (map (map_prod id norm) kvs))"

definition py_eq :: "json \<Rightarrow> json \<Rightarrow> bool" where
  "py_eq x y \<longleftrightarrow> norm x = norm y"

lemma py_eq_refl [simp]: "py_eq x x"
  by (simp add: py_eq_def)

lemma norm_JStr_iff [simp]: "norm v = JStr s \<longleftrightarrow> v = JStr s"
  by (cases v) (auto simp: norm_float_def split: pyfloat.splits if_splits)

lemma py_eq_JStr [simp]: "py_eq v (JStr s) \<longleftrightarrow> v = JStr s" "py_eq (JStr s) v \<longleftrightarrow> v = JStr s"
  by (auto simp: py_eq_def) (metis norm_JStr_iff)

section \<open>\<open>json.dumps\<close>\<close>

record dump_opts =
  ascii_only :: bool
  item_sep :: pystr
  key_sep :: pystr

text \<open>\<open>\u00e9\<close>-style escapes, four hexadecimal digits.\<close>

definition u_escape :: "nat \<Rightarrow> pystr" where
  "u_escape c = [92, 117, hex_digit (c div 4096), hex_digit (c div 256 mod 16),
     hex_digit (c div 16 mod 16), hex_digit (c mod 16)]"

definition short_escape :: "nat \<Rightarrow> nat option" where
  "short_escape c =
     (if c = 34 then Some 34 else if c = 92 then Some 92 else if c = 10 then Some 110
      else if c = 13 then Some 114 else if c = 9 then Some 116 else if c = 12 then Some 102
      else if c = 8 then Some 98 else None)"

definition escape_char :: "bool \<Rightarrow> nat \<Rightarrow> pystr" where
  "escape_char ascii c =
     (case short_escape c of
        Some e \<Rightarrow> [92, e]
      | None \<Rightarrow>
          if c < 32 then u_escape c
          else if ascii \<and> 126 < c then
            (if c < 65536 then u_escape c
             else u_escape (55296 + (c - 65536) div 1024) @ u_escape (56320 + (c - 65536) mod 1024))
          else [c])"

definition quote :: "bool \<Rightarrow> pystr \<Rightarrow> pystr" where
  "quote ascii s = [34] @ concat (map (escape_char ascii) s) @ [34]"

text \<open>\<open>float.__repr__\<close>: fixed notation for exponents -4 to 15, else scientific.\<close>

definition repr_exponent :: "int \<Rightarrow> pystr" where
  "repr_exponent x =
     [101, if x < 0 then 45 else 43] @
     (let ds = dec (nat \<bar>x\<bar>) in if length ds < 2 then 48 # ds else ds)"

definition repr_float :: "pyfloat \<Rightarrow> pystr" where
  "repr_float f = (case f of
     FNaN \<Rightarrow> lit ''NaN''
   | FInf neg \<Rightarrow> (if neg then lit ''-Infinity'' else lit ''Infinity'')
   | FDec neg m e \<Rightarrow>
       (let ds = dec m; n = int (length ds); p = n + e in
        (if neg then [45] else []) @
        (if m = 0 then lit ''0.0''
         else if -4 < p \<and> p \<le> 16 then
           (if p \<le> 0 then lit ''0.'' @ replicate (nat (- p)) 48 @ ds
            else if n \<le> p then ds @ replicate (nat (p - n)) 48 @ lit ''.0''
            else take (nat p) ds @ [46] @ drop (nat p) ds)
         else (if length ds = 1 then ds else [hd ds, 46] @ tl ds) @ repr_exponent (p - 1))))"

primrec dumps :: "dump_opts \<Rightarrow> json \<Rightarrow> pystr" where
  "dumps opts JNull = lit ''null''"
| "dumps opts (JBool b) = (if b then lit ''true'' else lit ''false'')"
| "dumps opts (JInt i) = str_int i"
| "dumps opts (JFloat f) = repr_float f"
| "dumps opts (JStr s) = quote (ascii_only opts) s"
| "dumps opts (JArr xs) = [91] @ join (item_sep opts) (map (dumps opts) xs) @ [93]"
| "dumps opts (JObj kvs) =
     [123] @ join (item_sep opts)
       (map (\<lambda>(k, d). quote (ascii_only opts) k @ key_sep opts @ d)
         (map (map_prod id (dumps opts)) kvs)) @ [125]"

text \<open>\<open>sort_keys=True\<close> orders the items of every object by key, code point by code point.\<close>

primrec sort_keys :: "json \<Rightarrow> json" where
  "sort_keys JNull = JNull"
| "sort_keys (JBool b) = JBool b"
| "sort_keys (JInt i) = JInt i"
| "sort_keys (JFloat f) = JFloat f"
| "sort_keys (JStr s) = JStr s"
| "sort_keys (JArr xs) = JArr (map sort_keys xs)"
| "sort_keys (JObj kvs) = JObj (sort_key fst (map (map_prod id sort_keys) kvs))"

section \<open>Canonical JSON (\<open>common/canonical.py\<close>)\<close>

definition canonical_opts :: dump_opts where
  "canonical_opts = \<lparr>ascii_only = False, item_sep = lit '','', key_sep = lit '':''\<rparr>"

definition canonical_json :: "json \<Rightarrow> bytes res" where
  "canonical_json obj = utf8_encode (dumps canonical_opts (sort_keys obj))"

section \<open>Well-formed values\<close>

text \<open>
  What \<open>json.loads\<close> yields from a text without \<open>\ud800\<close>-style lone surrogates and
  without floats: scalar strings, distinct keys, and integers of at most 4300 digits
  (Python refuses to convert longer ones between \<open>int\<close> and \<open>str\<close>).
\<close>

definition max_int_digits :: nat where
  "max_int_digits = 4300"

definition wf_int :: "int \<Rightarrow> bool" where
  "wf_int i \<longleftrightarrow> length (dec (nat \<bar>i\<bar>)) \<le> max_int_digits"

definition wf_str :: "pystr \<Rightarrow> bool" where
  "wf_str s \<longleftrightarrow> list_all scalar s"

fun wf_json :: "json \<Rightarrow> bool" where
  "wf_json JNull = True"
| "wf_json (JBool b) = True"
| "wf_json (JInt i) = wf_int i"
| "wf_json (JFloat f) = False"
| "wf_json (JStr s) = wf_str s"
| "wf_json (JArr xs) = list_all wf_json xs"
| "wf_json (JObj kvs) =
     (distinct (map fst kvs) \<and> list_all (\<lambda>kv. wf_str (fst kv) \<and> wf_json (snd kv)) kvs)"

lemma wf_str_lit [simp]: "wf_str (lit s)"
  by (auto simp: wf_str_def list_all_set scalar_def dest!: lit_lt_256)

lemma map_fst_map_prod [simp]: "map fst (map (map_prod id f) kvs) = map fst kvs"
  by simp

lemma distinct_sort_key_fst: "distinct (map fst (sort_key fst kvs)) = distinct (map fst kvs)"
  by (rule mset_eq_imp_distinct_iff) simp

lemma wf_sort_keys: "wf_json x \<Longrightarrow> wf_json (sort_keys x)"
proof (induction x)
  case (JObj kvs)
  then show ?case
    by (auto simp: list_all_set distinct_sort_key_fst snds.simps simp del: map_map)
qed (auto simp: list_all_set)

end
