(* ===== verification/Json_Parse.thy ===== *)
theory Json_Parse
  imports Json
begin

text \<open>
  \<open>json.loads\<close> on a \<open>str\<close>: the grammar of Python's decoder, which also accepts
  \<open>NaN\<close>, \<open>Infinity\<close> and lone surrogate escapes, keeps the last of two equal keys,
  and raises \<open>ValueError\<close> on an integer of more than 4300 digits.  A float literal is
  kept as its decimal.  The recursion depth of the interpreter is not modelled.

  The descent is written with fuel; \<open>fuel_for\<close> is always enough
  (\<open>parse_value_fuel\<close>), so running out is never observed.
\<close>

section \<open>Tokens\<close>

definition is_ws :: "nat \<Rightarrow> bool" where
  "is_ws c \<longleftrightarrow> c = 32 \<or> c = 9 \<or> c = 10 \<or> c = 13"

definition skip_ws :: "pystr \<Rightarrow> pystr" where
  "skip_ws s = dropWhile is_ws s"

definition hex4 :: "nat \<Rightarrow> nat \<Rightarrow> nat \<Rightarrow> nat \<Rightarrow> nat option" where
  "hex4 a b c d = (case (unhex_digit a, unhex_digit b, unhex_digit c, unhex_digit d) of
     (Some w, Some x, Some y, Some z) \<Rightarrow> Some (4096 * w + 256 * x + 16 * y + z)
   | _ \<Rightarrow> None)"

text \<open>
  What follows \<open>\u\<close>: four hexadecimal digits; a high surrogate and an escaped low
  surrogate right after it are joined.
\<close>

definition unicode_escape :: "pystr \<Rightarrow> (nat \<times> pystr) option" where
  "unicode_escape s = (case s of
     a # b # c # d # r \<Rightarrow> (case hex4 a b c d of
        None \<Rightarrow> None
      | Some u \<Rightarrow>
          if 55296 \<le> u \<and> u < 56320 then
            (case r of
               x # y # a' # b' # c' # d' # r' \<Rightarrow>
                 if x = 92 \<and> y = 117 then
                   (case hex4 a' b' c' d' of
                      Some l \<Rightarrow>
                        if 56320 \<le> l \<and> l < 57344
                        then Some (65536 + 1024 * (u - 55296) + (l - 56320), r')
                        else Some (u, r)
                    | None \<Rightarrow> Some (u, r))
                 else Some (u, r)
             | _ \<Rightarrow> Some (u, r))
          else Some (u, r))
   | _ \<Rightarrow> None)"

definition simple_escape :: "nat \<Rightarrow> nat option" where
  "simple_escape e =
     (if e = 34 \<or> e = 92 \<or> e = 47 then Some e else if e = 98 then Some 8
      else if e = 102 then Some 12 else if e = 110 then Some 10 else if e = 114 then Some 13
      else if e = 116 then Some 9 else None)"

lemma unicode_escape_shorter [termination_simp]:
  "unicode_escape s = Some (u, r) \<Longrightarrow> length r < length s"
  by (auto simp: unicode_escape_def split: list.splits option.splits if_splits)

text \<open>The characters after the opening quote, up to the closing one.\<close>

fun parse_str :: "pystr \<Rightarrow> (pystr \<times> pystr) option" where
  "parse_str [] = None"
| "parse_str (c # cs) =
     (if c = 34 then Some ([], cs)
      else if c = 92 then
        (case cs of
           [] \<Rightarrow> None
         | e # r \<Rightarrow>
             if e = 117 then
               (case unicode_escape r of
                  None \<Rightarrow> None
                | Some (u, r') \<Rightarrow> map_option (apfst (Cons u)) (parse_str r'))
             else
               (case simple_escape e of
                  None \<Rightarrow> None
                | Some u \<Rightarrow> map_option (apfst (Cons u)) (parse_str r)))
      else if c < 32 then None
      else map_option (apfst (Cons c)) (parse_str cs))"

text \<open>The fraction (its digits) and the exponent of a number, if there are any.\<close>

definition parse_frac :: "pystr \<Rightarrow> pystr \<times> pystr" where
  "parse_frac s = (case s of
     c # r \<Rightarrow> (if c = 46 \<and> takeWhile is_digit r \<noteq> []
               then (takeWhile is_digit r, dropWhile is_digit r) else ([], s))
   | [] \<Rightarrow> ([], s))"

definition parse_exp :: "pystr \<Rightarrow> int option \<times> pystr" where
  "parse_exp s = (case s of
     c # r \<Rightarrow>
       (let (neg, r') = (case r of x # t \<Rightarrow> if x = 45 then (True, t)
                                   else if x = 43 then (False, t) else (False, r)
                         | [] \<Rightarrow> (False, r)) in
        if (c = 101 \<or> c = 69) \<and> takeWhile is_digit r' \<noteq> []
        then (Some ((if neg then - 1 else 1) * int (undec (takeWhile is_digit r'))),
              dropWhile is_digit r')
        else (None, s))
   | [] \<Rightarrow> (None, s))"

text \<open>The shortest decimal of \<open>m * 10 ^ e\<close>: no trailing zeros.\<close>

function strip_zeros :: "nat \<Rightarrow> int \<Rightarrow> nat \<times> int" where
  "strip_zeros m e = (if m \<noteq> 0 \<and> m mod 10 = 0 then strip_zeros (m div 10) (e + 1)
                      else if m = 0 then (0, 0) else (m, e))"
  by pat_completeness auto
termination by (relation "measure fst") auto

declare strip_zeros.simps [simp del]

definition mk_float :: "bool \<Rightarrow> pystr \<Rightarrow> pystr \<Rightarrow> int \<Rightarrow> json" where
  "mk_float neg ip fp x =
     (let (m, e) = strip_zeros (undec (ip @ fp)) (x - int (length fp)) in JFloat (FDec neg m e))"

definition parse_number :: "pystr \<Rightarrow> (json \<times> pystr) res" where
  "parse_number s =
     (let (neg, r) = (case s of c # t \<Rightarrow> if c = 45 then (True, t) else (False, s)
                      | [] \<Rightarrow> (False, s)) in
      case r of
        [] \<Rightarrow> Inl JSONDecodeError
      | c # t \<Rightarrow>
          if \<not> is_digit c then Inl JSONDecodeError
          else
            (let (ip, r1) = (if c = 48 then ([48], t)
                             else (takeWhile is_digit r, dropWhile is_digit r));
                 (fp, r2) = parse_frac r1;
                 (x, r3) = parse_exp r2 in
             if fp = [] \<and> x = None then
               (if max_int_digits < length ip then Inl ValueError
                else Inr (JInt ((if neg then - 1 else 1) * int (undec ip)), r3))
             else Inr (mk_float neg ip fp (case x of None \<Rightarrow> 0 | Some e \<Rightarrow> e), r3)))"

text \<open>A literal word, or the rest of the number grammar.\<close>

definition keyword :: "string \<Rightarrow> json \<Rightarrow> pystr \<Rightarrow> (json \<times> pystr) option" where
  "keyword w v s = (if take (length w) s = lit w then Some (v, drop (length w) s) else None)"

definition parse_atom :: "pystr \<Rightarrow> (json \<times> pystr) res" where
  "parse_atom s =
     (case keyword ''null'' JNull s of Some p \<Rightarrow> Inr p | None \<Rightarrow>
      case keyword ''true'' (JBool True) s of Some p \<Rightarrow> Inr p | None \<Rightarrow>
      case keyword ''false'' (JBool False) s of Some p \<Rightarrow> Inr p | None \<Rightarrow>
      case keyword ''NaN'' (JFloat FNaN) s of Some p \<Rightarrow> Inr p | None \<Rightarrow>
      case keyword ''Infinity'' (JFloat (FInf False)) s of Some p \<Rightarrow> Inr p | None \<Rightarrow>
      case keyword ''-Infinity'' (JFloat (FInf True)) s of Some p \<Rightarrow> Inr p | None \<Rightarrow>
      parse_number s)"

section \<open>Values, arrays and objects\<close>

text \<open>The items of an object as a dict: the last of two equal keys wins.\<close>

definition dict_of :: "(pystr \<times> json) list \<Rightarrow> jdict" where
  "dict_of kvs = foldl (\<lambda>d (k, v). jput k v d) [] kvs"

fun parse_value :: "nat \<Rightarrow> pystr \<Rightarrow> (json \<times> pystr) res"
  and parse_elems :: "nat \<Rightarrow> pystr \<Rightarrow> (json list \<times> pystr) res"
  and parse_members :: "nat \<Rightarrow> pystr \<Rightarrow> ((pystr \<times> json) list \<times> pystr) res"
where
  "parse_value 0 s = Inl JSONDecodeError"
| "parse_value (Suc f) s =
     (case s of
        [] \<Rightarrow> Inl JSONDecodeError
      | c # cs \<Rightarrow>
          if c = 34 then rbind (some_or JSONDecodeError (parse_str cs)) (\<lambda>(t, r). Inr (JStr t, r))
          else if c = 123 then
            (case skip_ws cs of
               [] \<Rightarrow> Inl JSONDecodeError
             | x # r \<Rightarrow> if x = 125 then Inr (JObj [], r)
                 else rbind (parse_members f (x # r)) (\<lambda>(kvs, r'). Inr (JObj (dict_of kvs), r')))
          else if c = 91 then
            (case skip_ws cs of
               [] \<Rightarrow> Inl JSONDecodeError
             | x # r \<Rightarrow> if x = 93 then Inr (JArr [], r)
                 else rbind (parse_elems f (x # r)) (\<lambda>(vs, r'). Inr (JArr vs, r')))
          else parse_atom s)"
| "parse_elems 0 s = Inl JSONDecodeError"
| "parse_elems (Suc f) s =
     rbind (parse_value f s) (\<lambda>(v, r).
       case skip_ws r of
         [] \<Rightarrow> Inl JSONDecodeError
       | c # r' \<Rightarrow>
           if c = 93 then Inr ([v], r')
           else if c = 44 then rbind (parse_elems f (skip_ws r')) (\<lambda>(vs, r''). Inr (v # vs, r''))
           else Inl JSONDecodeError)"
| "parse_members 0 s = Inl JSONDecodeError"
| "parse_members (Suc f) s =
     (case s of
        [] \<Rightarrow> Inl JSONDecodeError
      | q # cs \<Rightarrow>
          if q \<noteq> 34 then Inl JSONDecodeError
          else
            rbind (some_or JSONDecodeError (parse_str cs)) (\<lambda>(k, r).
              case skip_ws r of
                [] \<Rightarrow> Inl JSONDecodeError
              | c # r1 \<Rightarrow>
                  if c \<noteq> 58 then Inl JSONDecodeError
                  else
                    rbind (parse_value f (skip_ws r1)) (\<lambda>(v, r2).
                      case skip_ws r2 of
                        [] \<Rightarrow> Inl JSONDecodeError
                      | d # r3 \<Rightarrow>
                          if d = 125 then Inr ([(k, v)], r3)
                          else if d = 44 then
                            rbind (parse_members f (skip_ws r3))
                              (\<lambda>(kvs, r4). Inr ((k, v) # kvs, r4))
                          else Inl JSONDecodeError)))"

definition fuel_for :: "pystr \<Rightarrow> nat" where
  "fuel_for s = 2 * length s + 1"

definition json_loads :: "pystr \<Rightarrow> json res" where
  "json_loads s =
     (if take 1 s = [65279] then Inl JSONDecodeError
      else rbind (parse_value (fuel_for s) (skip_ws s)) (\<lambda>(v, r).
        if skip_ws r = [] then Inr v else Inl JSONDecodeError))"

section \<open>Every parser consumes its input, and the fuel is enough\<close>

lemma length_skip_ws: "length (skip_ws s) \<le> length s"
  by (simp add: skip_ws_def length_dropWhile_le)

lemma skip_ws_Cons: "skip_ws s = c # r \<Longrightarrow> length r < length s"
  using length_skip_ws [of s] by simp

lemma parse_str_shorter: "parse_str s = Some (t, r) \<Longrightarrow> length r < length s"
proof (induction s arbitrary: t r rule: parse_str.induct)
  case 1
  then show ?case by simp
next
  case (2 c cs)
  then show ?case
    by (fastforce split: if_splits list.splits option.splits dest: unicode_escape_shorter)
qed

lemma parse_frac_le: "parse_frac s = (d, r) \<Longrightarrow> length r \<le> length s"
  by (auto simp: parse_frac_def le_SucI length_dropWhile_le split: list.splits if_splits)

lemma parse_exp_le: "parse_exp s = (d, r) \<Longrightarrow> length r \<le> length s"
  by (auto simp: parse_exp_def Let_def le_SucI length_dropWhile_le
      split: list.splits if_splits prod.splits)

lemma parse_number_shorter: "parse_number s = Inr (v, r) \<Longrightarrow> length r < length s"
proof -
  assume a: "parse_number s = Inr (v, r)"
  obtain neg t where nt: "(case s of c # t \<Rightarrow> if c = 45 then (True, t) else (False, s)
                      | [] \<Rightarrow> (False, s)) = (neg, t)" by (meson surj_pair)
  then have ts: "length t \<le> length s" by (auto split: list.splits if_splits)
  from a nt obtain c t' where t: "t = c # t'" "is_digit c"
    by (auto simp: parse_number_def split: list.splits if_splits)
  obtain ip r1 where ip: "(if c = 48 then ([48], t')
      else (takeWhile is_digit t, dropWhile is_digit t)) = (ip, r1)" by (meson surj_pair)
  then have r1: "length r1 < length t"
    using t by (auto simp: less_Suc_eq_le length_dropWhile_le split: if_splits)
  obtain fp r2 where fp: "parse_frac r1 = (fp, r2)" by (meson surj_pair)
  obtain x r3 where x: "parse_exp r2 = (x, r3)" by (meson surj_pair)
  have "r = r3" using a nt t ip fp x
    by (auto simp: parse_number_def Let_def split: if_splits)
  then show ?thesis
    using ts r1 parse_frac_le [OF fp] parse_exp_le [OF x] by simp
qed

lemma keyword_shorter: "keyword w v s = Some (v', r) \<Longrightarrow> w \<noteq> [] \<Longrightarrow> length r < length s"
  by (cases s) (auto simp: keyword_def split: if_splits)

lemma parse_atom_shorter: "parse_atom s = Inr (v, r) \<Longrightarrow> length r < length s"
  by (auto simp: parse_atom_def split: option.splits
      dest: parse_number_shorter keyword_shorter)

lemma parse_shorter_step:
  assumes V: "\<And>s v r. parse_value f s = Inr (v, r) \<Longrightarrow> length r < length s"
    and E: "\<And>s vs r. parse_elems f s = Inr (vs, r) \<Longrightarrow> length r < length s"
    and M: "\<And>s kvs r. parse_members f s = Inr (kvs, r) \<Longrightarrow> length r < length s"
  shows "parse_value (Suc f) s = Inr (v, r) \<Longrightarrow> length r < length s"
    and "parse_elems (Suc f) s = Inr (vs, r) \<Longrightarrow> length r < length s"
    and "parse_members (Suc f) s = Inr (kvs, r) \<Longrightarrow> length r < length s"
proof -
  have V': "parse_value f (skip_ws s) = Inr (v, r) \<Longrightarrow> length r < length s" for s v r
    using V [of "skip_ws s"] length_skip_ws [of s] by (meson less_le_trans)
  have E': "parse_elems f (skip_ws s) = Inr (vs, r) \<Longrightarrow> length r < length s" for s vs r
    using E [of "skip_ws s"] length_skip_ws [of s] by (meson less_le_trans)
  have M': "parse_members f (skip_ws s) = Inr (kvs, r) \<Longrightarrow> length r < length s" for s kvs r
    using M [of "skip_ws s"] length_skip_ws [of s] by (meson less_le_trans)
  show "parse_value (Suc f) s = Inr (v, r) \<Longrightarrow> length r < length s"
    by (fastforce split: list.splits if_splits simp: rbind_Inr_iff
        dest!: skip_ws_Cons parse_str_shorter parse_atom_shorter E M)
  show "length r < length s" if a: "parse_elems (Suc f) s = Inr (vs, r)"
  proof -
    from a obtain v r1 where v: "parse_value f s = Inr (v, r1)"
      by (auto simp: rbind_Inr_iff)
    with a show ?thesis
      using V [OF v]
      by (auto split: list.split_asm if_split_asm simp: rbind_Inr_iff dest!: skip_ws_Cons E')
  qed
  show "length r < length s" if a: "parse_members (Suc f) s = Inr (kvs, r)"
  proof -
    from a obtain cs where s: "s = 34 # cs"
      by (auto split: list.split_asm if_split_asm)
    with a obtain k r0 where k: "parse_str cs = Some (k, r0)"
      by (cases "parse_str cs") auto
    with a s obtain r1 where r1: "skip_ws r0 = 58 # r1"
      by (auto split: list.split_asm if_split_asm)
    with a s k obtain v r2 where v: "parse_value f (skip_ws r1) = Inr (v, r2)"
      by (auto simp: rbind_Inr_iff)
    with a s k r1 show ?thesis
      using V' [OF v] skip_ws_Cons [OF r1] parse_str_shorter [OF k]
      by (auto split: list.split_asm if_split_asm simp: rbind_Inr_iff dest!: skip_ws_Cons M')
  qed
qed

lemma parse_shorter:
  "(\<forall>s v r. parse_value f s = Inr (v, r) \<longrightarrow> length r < length s) \<and>
   (\<forall>s vs r. parse_elems f s = Inr (vs, r) \<longrightarrow> length r < length s) \<and>
   (\<forall>s kvs r. parse_members f s = Inr (kvs, r) \<longrightarrow> length r < length s)"
proof (induction f)
  case 0
  then show ?case by simp
next
  case (Suc f)
  then show ?case by (blast intro: parse_shorter_step)
qed

lemmas parse_value_shorter = parse_shorter [THEN conjunct1, rule_format]
lemmas parse_elems_shorter = parse_shorter [THEN conjunct2, THEN conjunct1, rule_format]
lemmas parse_members_shorter = parse_shorter [THEN conjunct2, THEN conjunct2, rule_format]

declare parse_value.simps(2) [simp del] parse_elems.simps(2) [simp del]
  parse_members.simps(2) [simp del]

lemma rbind_cong: "(\<And>x. r = Inr x \<Longrightarrow> f x = g x) \<Longrightarrow> rbind r f = rbind r g"
  by (cases r) auto

lemma parse_fuel_step:
  assumes V: "\<And>s. 2 * length s < f \<Longrightarrow> parse_value (Suc f) s = parse_value f s"
    and E: "\<And>s. 2 * length s + 1 < f \<Longrightarrow> parse_elems (Suc f) s = parse_elems f s"
    and M: "\<And>s. 2 * length s + 1 < f \<Longrightarrow> parse_members (Suc f) s = parse_members f s"
  shows "2 * length s < Suc f \<Longrightarrow> parse_value (Suc (Suc f)) s = parse_value (Suc f) s"
    and "2 * length s + 1 < Suc f \<Longrightarrow> parse_elems (Suc (Suc f)) s = parse_elems (Suc f) s"
    and "2 * length s + 1 < Suc f \<Longrightarrow> parse_members (Suc (Suc f)) s = parse_members (Suc f) s"
proof -
  have E': "parse_elems (Suc f) (x # r) = parse_elems f (x # r)"
      and M': "parse_members (Suc f) (x # r) = parse_members f (x # r)"
    if "skip_ws cs = x # r" "2 * length (c # cs) < Suc f" for x r cs c
    using that skip_ws_Cons [OF that(1)] length_skip_ws [of cs] by (auto intro!: E M)
  show "parse_value (Suc (Suc f)) s = parse_value (Suc f) s" if l: "2 * length s < Suc f"
  proof (cases s)
    case (Cons c cs)
    with l have "2 * length (c # cs) < Suc f" by simp
    with E' M' show ?thesis
      unfolding parse_value.simps Cons by (auto split: list.split)
  qed (simp add: parse_value.simps)
  show "parse_elems (Suc (Suc f)) s = parse_elems (Suc f) s" if l: "2 * length s + 1 < Suc f"
  proof -
    have "parse_elems (Suc f) (skip_ws r') = parse_elems f (skip_ws r')"
      if "parse_value f s = Inr (v, r)" "skip_ws r = c # r'" for v r c r'
      using l parse_value_shorter [OF that(1)] skip_ws_Cons [OF that(2)] length_skip_ws [of r']
      by (auto intro!: E)
    then show ?thesis
      unfolding parse_elems.simps using V [of s] l
      by (auto split: list.split intro!: rbind_cong)
  qed
  show "parse_members (Suc (Suc f)) s = parse_members (Suc f) s" if l: "2 * length s + 1 < Suc f"
  proof -
    have v: "parse_value (Suc f) (skip_ws r1) = parse_value f (skip_ws r1)"
      if "s = q # cs" "parse_str cs = Some (k, r)" "skip_ws r = c # r1" for q cs k r c r1
      using l that parse_str_shorter [OF that(2)] skip_ws_Cons [OF that(3)] length_skip_ws [of r1]
      by (auto intro!: V)
    have "parse_members (Suc f) (skip_ws r3) = parse_members f (skip_ws r3)"
      if "s = q # cs" "parse_str cs = Some (k, r)" "skip_ws r = c # r1"
        "parse_value f (skip_ws r1) = Inr (v, r2)" "skip_ws r2 = d # r3" for q cs k r c r1 v r2 d r3
      using l that parse_str_shorter [OF that(2)] skip_ws_Cons [OF that(3)] length_skip_ws [of r1]
        parse_value_shorter [OF that(4)] skip_ws_Cons [OF that(5)] length_skip_ws [of r3]
      by (auto intro!: M)
    with v show ?thesis
      unfolding parse_members.simps
      by (auto split: list.split intro!: rbind_cong)
  qed
qed

lemma parse_fuel_Suc:
  "(\<forall>s. 2 * length s < f \<longrightarrow> parse_value (Suc f) s = parse_value f s) \<and>
   (\<forall>s. 2 * length s + 1 < f \<longrightarrow> parse_elems (Suc f) s = parse_elems f s) \<and>
   (\<forall>s. 2 * length s + 1 < f \<longrightarrow> parse_members (Suc f) s = parse_members f s)"
proof (induction f)
  case 0
  then show ?case by simp
next
  case (Suc f)
  then show ?case using parse_fuel_step [of f] by blast
qed

text \<open>More fuel than \<open>fuel_for\<close> never changes a result.\<close>

lemma parse_value_fuel: "fuel_for s \<le> f \<Longrightarrow> parse_value f s = parse_value (fuel_for s) s"
proof (induction f rule: dec_induct)
  case base
  then show ?case by simp
next
  case (step n)
  then have "2 * length s < n" by (simp add: fuel_for_def)
  then show ?case using parse_fuel_Suc [of n] step.IH by simp
qed

end
