(* ===== verification/Json_Roundtrip.thy ===== *)
theory Json_Roundtrip
  imports Json_Parse
begin

text \<open>
  \<open>json.loads (json.dumps x) = x\<close> for the well-formed values, for every separator style
  and both settings of \<open>ensure_ascii\<close>; so the texts the code signs, stores and sends
  determine the values they came from.
\<close>

section \<open>Strings\<close>

lemma hex4_u_escape:
  assumes "c < 65536"
  shows "hex4 (hex_digit (c div 4096)) (hex_digit (c div 256 mod 16))
    (hex_digit (c div 16 mod 16)) (hex_digit (c mod 16)) = Some c"
proof -
  define q r t where "q = c div 16" and "r = q div 16" and "t = r div 16"
  have d: "c div 256 = r" "c div 4096 = t"
    by (simp_all add: q_def r_def t_def div_mult2_eq [symmetric])
  have e: "16 * q + c mod 16 = c" "16 * r + q mod 16 = q" "16 * t + r mod 16 = r"
    by (simp_all add: q_def r_def t_def)
  have "t < 16" using assms d by auto
  then show ?thesis unfolding d q_def [symmetric] using e by (simp add: hex4_def)
qed

lemma unicode_escape_u:
  assumes "c < 65536" "\<not> (55296 \<le> c \<and> c < 56320)"
  shows "unicode_escape (drop 2 (u_escape c) @ r) = Some (c, r)"
  using assms hex4_u_escape [of c] by (auto simp: unicode_escape_def u_escape_def)

lemma unicode_escape_pair:
  assumes "65536 \<le> c" "c < 1114112"
  shows "unicode_escape (drop 2 (u_escape (55296 + (c - 65536) div 1024))
      @ u_escape (56320 + (c - 65536) mod 1024) @ r) = Some (c, r)"
proof -
  define h l where "h = 55296 + (c - 65536) div 1024" and "l = 56320 + (c - 65536) mod 1024"
  have h: "55296 \<le> h" "h < 56320" and l: "56320 \<le> l" "l < 57344"
    using assms by (auto simp: h_def l_def)
  have c: "65536 + 1024 * (h - 55296) + (l - 56320) = c"
    using assms by (simp add: h_def l_def)
  show ?thesis
    unfolding h_def [symmetric] l_def [symmetric]
    using h l c hex4_u_escape [of h] hex4_u_escape [of l]
    by (simp add: unicode_escape_def u_escape_def)
qed

lemma parse_str_u_escape:
  "unicode_escape (drop 2 (u_escape c) @ r) = Some (u, r') \<Longrightarrow>
     parse_str (u_escape c @ r) = map_option (apfst (Cons u)) (parse_str r')"
  by (simp add: u_escape_def)

lemma parse_str_escape_char:
  assumes "scalar c"
  shows "parse_str (escape_char a c @ r) = map_option (apfst (Cons c)) (parse_str r)"
proof (cases "short_escape c")
  case (Some e)
  then show ?thesis
    by (auto simp: escape_char_def short_escape_def simple_escape_def split: if_splits)
next
  case None
  then have n: "c \<noteq> 34" "c \<noteq> 92" by (auto simp: short_escape_def)
  consider "c < 32" | "32 \<le> c" "\<not> (a \<and> 126 < c)" | "a" "126 < c" "c < 65536"
    | "a" "65536 \<le> c" by linarith
  then show ?thesis
  proof cases
    case 1
    then show ?thesis using None parse_str_u_escape [OF unicode_escape_u, of c r]
      by (simp add: escape_char_def)
  next
    case 2
    then show ?thesis using None n by (auto simp: escape_char_def)
  next
    case 3
    then show ?thesis using None assms parse_str_u_escape [OF unicode_escape_u, of c r]
      by (auto simp: escape_char_def scalar_def)
  next
    case 4
    then show ?thesis using None assms parse_str_u_escape [OF unicode_escape_pair, of c r]
      by (simp add: escape_char_def scalar_def)
  qed
qed

lemma parse_str_quoted:
  "wf_str t \<Longrightarrow> parse_str (concat (map (escape_char a) t) @ 34 # r) = Some (t, r)"
  by (induction t) (auto simp: wf_str_def parse_str_escape_char)

section \<open>Integers\<close>

text \<open>What may follow a number without extending it.\<close>

definition follow :: "pystr \<Rightarrow> bool" where
  "follow s = (case s of [] \<Rightarrow> True | c # _ \<Rightarrow> \<not> is_digit c \<and> c \<noteq> 46 \<and> c \<noteq> 101 \<and> c \<noteq> 69)"

lemma takeWhile_digits:
  "\<forall>c \<in> set ds. is_digit c \<Longrightarrow> follow s \<Longrightarrow>
     takeWhile is_digit (ds @ s) = ds \<and> dropWhile is_digit (ds @ s) = s"
  by (cases s) (auto simp: follow_def)

lemma parse_tail: "follow s \<Longrightarrow> parse_frac s = ([], s) \<and> parse_exp s = (None, s)"
  by (auto simp: follow_def parse_frac_def parse_exp_def split: list.splits prod.splits)

lemma parse_number_dec:
  assumes "follow s" "length (dec n) \<le> max_int_digits"
  shows "parse_number (dec n @ s) = Inr (JInt (int n), s)"
    and "parse_number (45 # dec n @ s) = Inr (JInt (- int n), s)"
proof -
  obtain c t where ct: "dec n = c # t" by (cases "dec n") auto
  have digs: "\<forall>x \<in> set (dec n). is_digit x" using dec_digits by blast
  then have c: "is_digit c" "c \<noteq> 45" using ct by (auto simp: is_digit_def)
  have z: "t = []" if "c = 48"
    using that ct dec_hd_nonzero [of n] dec_zero by (cases "n = 0") auto
  have tw: "takeWhile is_digit (c # t @ s) = c # t" "dropWhile is_digit (c # t @ s) = s"
    using takeWhile_digits [OF digs assms(1)] ct by auto
  have "undec (c # t) = n" using ct undec_dec by metis
  then show "parse_number (dec n @ s) = Inr (JInt (int n), s)"
      "parse_number (45 # dec n @ s) = Inr (JInt (- int n), s)"
    using assms ct c z tw parse_tail [OF assms(1)]
    by (auto simp: parse_number_def Let_def simp del: takeWhile.simps dropWhile.simps)
qed

lemma parse_atom_number:
  assumes "c = 45 \<or> is_digit c" "c = 45 \<longrightarrow> (\<exists>d r. s = d # r \<and> is_digit d)"
  shows "parse_atom (c # s) = parse_number (c # s)"
  using assms by (auto simp: parse_atom_def keyword_def lit_def is_digit_def)

lemma parse_atom_digit: "is_digit c \<Longrightarrow> parse_atom (c # s) = parse_number (c # s)"
  by (rule parse_atom_number) (auto simp: is_digit_def)

lemma parse_atom_str_int:
  assumes "follow s" "wf_int i"
  shows "parse_atom (str_int i @ s) = Inr (JInt i, s)"
proof -
  have d: "\<exists>d r. dec m @ s = d # r \<and> is_digit d" for m
    using dec_Cons [of m] by auto
  show ?thesis
  proof (cases "i < 0")
    case True
    then show ?thesis
      using assms d [of "nat (- i)"] parse_number_dec(2) [of s "nat (- i)"]
      by (simp add: str_int_def wf_int_def parse_atom_number)
  next
    case False
    then show ?thesis
      using assms d [of "nat i"] parse_number_dec(1) [of s "nat i"]
      by (auto simp: str_int_def wf_int_def parse_atom_digit)
  qed
qed

section \<open>Values\<close>

text \<open>Separators \<open>json.dumps\<close> may use: a comma or colon, then white space.\<close>

definition ok_opts :: "dump_opts \<Rightarrow> bool" where
  "ok_opts opts \<longleftrightarrow>
     (\<exists>w. item_sep opts = 44 # w \<and> list_all is_ws w) \<and>
     (\<exists>w. key_sep opts = 58 # w \<and> list_all is_ws w)"

lemma skip_ws_append: "list_all is_ws w \<Longrightarrow> skip_ws (w @ s) = skip_ws s"
  by (induction w) (auto simp: skip_ws_def)

lemma skip_ws_simps [simp]: "skip_ws [] = []" "\<not> is_ws c \<Longrightarrow> skip_ws (c # s) = c # s"
  by (simp_all add: skip_ws_def)

text \<open>The head of a value: neither white space nor a separator nor a closer.\<close>

definition solid :: "pystr \<Rightarrow> bool" where
  "solid p \<longleftrightarrow> (\<exists>c r. p = c # r \<and> \<not> is_ws c \<and> c \<notin> {93, 125, 44, 58, 65279})"

lemma solid_dumps:
  "wf_json x \<Longrightarrow> solid (dumps opts x)"
proof (cases x)
  case (JInt i)
  have "\<exists>c r. dec n = c # r \<and> is_digit c" for n
    using dec_digits [of _ n] by (cases "dec n") auto
  then show ?thesis using JInt
    by (fastforce simp: solid_def str_int_def is_ws_def is_digit_def)
qed (auto simp: solid_def lit_def is_ws_def quote_def)

lemma follow_simps [simp]: "follow []" "follow (93 # s)" "follow (125 # s)" "follow (44 # s)"
  by (simp_all add: follow_def is_digit_def)

text \<open>What the induction says of one printed value: enough fuel parses it back.\<close>

definition parses :: "pystr \<Rightarrow> json \<Rightarrow> bool" where
  "parses p x \<longleftrightarrow> (\<forall>f s. follow s \<longrightarrow> 2 * length (p @ s) < f \<longrightarrow> parse_value f (p @ s) = Inr (x, s))"

lemma parsesD:
  "parses p x \<Longrightarrow> follow s \<Longrightarrow> 2 * length (p @ s) < f \<Longrightarrow> parse_value f (p @ s) = Inr (x, s)"
  by (simp add: parses_def)

lemma skip_ws_solid: "solid p \<Longrightarrow> skip_ws (p @ s) = p @ s"
  by (auto simp: solid_def)

lemma join_Cons: "ps \<noteq> [] \<Longrightarrow> join sep (p # ps) = p @ sep @ join sep ps"
  by (cases ps) simp_all

lemma join_solid: "solid p \<Longrightarrow> \<exists>d. join sep (p # ps) @ t = p @ d"
  by (cases ps) simp_all

text \<open>The elements of an array, and what closes it after white space.\<close>

lemma parse_elems_join:
  assumes "list_all is_ws w" "list_all2 (\<lambda>p x. solid p \<and> parses p x) ps xs" "ps \<noteq> []"
    and "follow t" "skip_ws t = 93 # s" "2 * length (join (44 # w) ps @ t) + 1 < f"
  shows "parse_elems f (join (44 # w) ps @ t) = Inr (xs, s)"
  using assms(2,3,6)
proof (induction ps xs arbitrary: f)
  case (Cons p ps x xs)
  obtain g where f: "f = Suc g" using Cons.prems(2) by (cases f) auto
  show ?case
  proof (cases ps)
    case Nil
    then have xs: "xs = []" using Cons.hyps(2) by simp
    have "parse_value g (p @ t) = Inr (x, t)"
      using Cons.hyps(1) assms(4) by (intro parsesD) (use Cons.prems(2) f Nil in auto)
    then show ?thesis using f Nil xs assms(5) by (simp add: parse_elems.simps)
  next
    case (Cons q qs)
    define rest where "rest = join (44 # w) ps @ t"
    have j: "join (44 # w) (p # ps) @ t = p @ 44 # w @ rest" by (simp add: rest_def Cons)
    have len: "2 * length (p @ 44 # w @ rest) + 1 < f" using Cons.prems(2) unfolding j .
    have v: "parse_value g (p @ 44 # w @ rest) = Inr (x, 44 # w @ rest)"
      using Cons.hyps(1) by (intro parsesD) (use len f in auto)
    have "solid q" using Cons.hyps(2) Cons by (cases xs) auto
    then have "skip_ws (w @ rest) = rest"
      using join_solid [of q "44 # w" qs t] Cons skip_ws_solid by (auto simp: rest_def skip_ws_append [OF assms(1)])
    moreover have "parse_elems g rest = Inr (xs, s)"
      unfolding rest_def by (rule Cons.IH) (use Cons len f in \<open>simp_all add: rest_def\<close>)
    ultimately show ?thesis
      unfolding j using v f by (simp add: parse_elems.simps is_ws_def)
  qed
qed simp

abbreviation (input) "member_text a w \<equiv> (\<lambda>(k, p). quote a k @ 58 # w @ p)"

text \<open>One member: its key, the colon and its value, up to what follows the value.\<close>

lemma parse_member:
  assumes w: "list_all is_ws w" and k: "wf_str k" and x: "solid p" "parses p x"
    and r: "follow r" and f: "2 * length (member_text a w (k, p) @ r) < Suc g"
  obtains cs r0 r1 where "member_text a w (k, p) @ r = 34 # cs" "parse_str cs = Some (k, r0)"
    "skip_ws r0 = 58 # r1" "parse_value g (skip_ws r1) = Inr (x, r)"
proof -
  define cs where "cs = concat (map (escape_char a) k) @ 34 # 58 # w @ p @ r"
  have "member_text a w (k, p) @ r = 34 # cs"
    by (simp add: cs_def quote_def)
  moreover have "parse_str cs = Some (k, 58 # w @ p @ r)"
    unfolding cs_def using k by (rule parse_str_quoted)
  moreover have "skip_ws (58 # w @ p @ r) = 58 # w @ p @ r"
    by (simp add: is_ws_def)
  moreover have "parse_value g (skip_ws (w @ p @ r)) = Inr (x, r)"
  proof -
    have "parse_value g (p @ r) = Inr (x, r)"
      using x(2) r by (rule parsesD) (use f in simp)
    then show ?thesis using skip_ws_append [OF w] skip_ws_solid [OF x(1)] by simp
  qed
  ultimately show ?thesis using that by blast
qed

lemma parse_members_join:
  assumes "list_all is_ws v" "list_all is_ws w"
    and "list_all2 (\<lambda>(k, p) (k', x). k = k' \<and> wf_str k \<and> solid p \<and> parses p x) kps kvs" "kps \<noteq> []"
    and "follow t" "skip_ws t = 125 # s" "2 * length (join (44 # v) (map (member_text a w) kps) @ t) + 1 < f"
  shows "parse_members f (join (44 # v) (map (member_text a w) kps) @ t) = Inr (kvs, s)"
  using assms(3,4,7)
proof (induction kps kvs arbitrary: f)
  case (Cons kp kps kv kvs)
  obtain k p where kp: "kp = (k, p)" by (cases kp)
  obtain x where kv: "kv = (k, x)" and m: "wf_str k" "solid p" "parses p x"
    using Cons.hyps(1) kp by (cases kv) auto
  obtain g where f: "f = Suc g" using Cons.prems(2) by (cases f) auto
  show ?case
  proof (cases kps)
    case Nil
    then have kvs: "kvs = []" using Cons.hyps(2) by simp
    have "2 * length (member_text a w (k, p) @ t) < Suc g"
      using Cons.prems(2) f kp Nil by simp
    then obtain cs r0 r1 where "member_text a w (k, p) @ t = 34 # cs"
        "parse_str cs = Some (k, r0)" "skip_ws r0 = 58 # r1" "parse_value g (skip_ws r1) = Inr (x, t)"
      by (rule parse_member [OF assms(2) m assms(5)])
    then show ?thesis using f Nil kp kv kvs assms(6) by (simp add: parse_members.simps)
  next
    case (Cons kp' kps')
    define rest where "rest = join (44 # v) (map (member_text a w) kps) @ t"
    have j: "join (44 # v) (map (member_text a w) (kp # kps)) @ t = member_text a w (k, p) @ 44 # v @ rest"
      by (simp add: rest_def kp Cons)
    have len: "2 * length (member_text a w (k, p) @ 44 # v @ rest) + 1 < f"
      using Cons.prems(2) unfolding j .
    then have "2 * length (member_text a w (k, p) @ 44 # v @ rest) < Suc g"
      using f by simp
    then obtain cs r0 r1 where c: "member_text a w (k, p) @ 44 # v @ rest = 34 # cs"
        "parse_str cs = Some (k, r0)" "skip_ws r0 = 58 # r1" "parse_value g (skip_ws r1) = Inr (x, 44 # v @ rest)"
      by (rule parse_member [OF assms(2) m follow_simps(4)])
    have "\<exists>d. rest = 34 # d"
      using Cons by (cases kp'; cases kps') (auto simp: rest_def quote_def)
    then have "skip_ws (v @ rest) = rest"
      using skip_ws_append [OF assms(1)] by (auto simp: is_ws_def)
    moreover have "parse_members g rest = Inr (kvs, s)"
      unfolding rest_def by (rule Cons.IH) (use Cons len f in \<open>simp_all add: rest_def\<close>)
    ultimately show ?thesis
      unfolding j c(1) using c f kv by (simp add: parse_members.simps is_ws_def)
  qed
qed simp

lemma dict_of_distinct: "distinct (map fst kvs) \<Longrightarrow> dict_of kvs = kvs"
proof -
  have app: "k \<notin> set (map fst d) \<Longrightarrow> jput k v d = d @ [(k, v)]" for k v d
    by (induction d) auto
  have "distinct (map fst (d @ kvs)) \<Longrightarrow> foldl (\<lambda>d (k, v). jput k v d) d kvs = d @ kvs" for d
    by (induction kvs arbitrary: d) (auto simp: app)
  from this [of "[]"] show "distinct (map fst kvs) \<Longrightarrow> dict_of kvs = kvs"
    by (simp add: dict_of_def)
qed

lemma follow_ws: "list_all is_ws u \<Longrightarrow> c \<in> {93, 125} \<Longrightarrow> follow (u @ c # s)"
  by (cases u) (auto simp: follow_def is_ws_def is_digit_def)

lemma skip_ws_closer: "list_all is_ws u \<Longrightarrow> c \<in> {93, 125} \<Longrightarrow> skip_ws (u @ c # s) = c # s"
  by (auto simp: skip_ws_append is_ws_def)

lemma parses_empty: "parses [91, 93] (JArr [])" "parses [123, 125] (JObj [])"
  by (auto simp: parses_def parse_value.simps is_ws_def dest!: less_imp_Suc_add)

text \<open>An array or an object of printed values, with the white space a printer may put after
  the opening bracket, after the commas and before the closing one.\<close>

lemma parses_array:
  assumes "list_all is_ws u" "list_all is_ws w" "list_all is_ws v"
    and e: "list_all2 (\<lambda>p x. solid p \<and> parses p x) ps xs" "ps \<noteq> []"
  shows "parses (91 # u @ join (44 # w) ps @ v @ [93]) (JArr xs)"
  unfolding parses_def
proof (intro allI impI)
  fix f s
  define b where "b = join (44 # w) ps @ v @ 93 # s"
  assume "2 * length ((91 # u @ join (44 # w) ps @ v @ [93]) @ s) < f"
  then obtain g where f: "f = Suc g" and l: "2 * length b + 1 < g"
    by (cases f) (auto simp: b_def)
  have "parse_elems g b = Inr (xs, s)"
    unfolding b_def using assms(2) e follow_ws skip_ws_closer
    by (rule parse_elems_join) (use l assms(3) in \<open>simp_all add: b_def\<close>)
  moreover obtain p ps' where "ps = p # ps'" "solid p"
    using e by (cases ps) (auto simp: list_all2_Cons1)
  then obtain c r where "b = c # r" "\<not> is_ws c" "c \<noteq> 93"
    using join_solid [of p "44 # w" ps' "v @ 93 # s"] by (auto simp: solid_def b_def)
  ultimately show "parse_value f ((91 # u @ join (44 # w) ps @ v @ [93]) @ s) = Inr (JArr xs, s)"
    using f by (simp add: parse_value.simps b_def [symmetric] skip_ws_append [OF assms(1)])
qed

lemma parses_object:
  assumes "list_all is_ws u" "list_all is_ws w" "list_all is_ws v" "list_all is_ws z"
    and e: "list_all2 (\<lambda>(k, p) (k', x). k = k' \<and> wf_str k \<and> solid p \<and> parses p x) kps kvs" "kps \<noteq> []"
    and d: "distinct (map fst kvs)"
  shows "parses (123 # u @ join (44 # w) (map (member_text a z) kps) @ v @ [125]) (JObj kvs)"
  unfolding parses_def
proof (intro allI impI)
  fix f s
  define b where "b = join (44 # w) (map (member_text a z) kps) @ v @ 125 # s"
  let ?p = "123 # u @ join (44 # w) (map (member_text a z) kps) @ v @ [125]"
  assume "2 * length (?p @ s) < f"
  then obtain g where f: "f = Suc g" and l: "2 * length b + 1 < g"
    by (cases f) (auto simp: b_def)
  have "parse_members g b = Inr (kvs, s)"
    unfolding b_def using assms(2,4) e follow_ws skip_ws_closer
    by (rule parse_members_join) (use l assms(3) in \<open>simp_all add: b_def\<close>)
  moreover obtain r where "b = 34 # r"
    using e(2) by (cases kps; cases "tl kps") (auto simp: b_def quote_def)
  ultimately show "parse_value f (?p @ s) = Inr (JObj kvs, s)"
    using f dict_of_distinct [OF d]
    by (simp add: parse_value.simps b_def [symmetric] skip_ws_append [OF assms(1)] is_ws_def)
qed

lemma dumps_JObj:
  "dumps opts (JObj kvs) = [123] @ join (item_sep opts)
     (map (\<lambda>(k, p). quote (ascii_only opts) k @ key_sep opts @ p) (map (map_prod id (dumps opts)) kvs)) @ [125]"
  by (simp add: split_def comp_def)

lemma parse_value_atom:
  "0 < f \<Longrightarrow> c \<noteq> 34 \<Longrightarrow> c \<noteq> 123 \<Longrightarrow> c \<noteq> 91 \<Longrightarrow>
     parse_value f (c # s) = parse_atom (c # s)"
  by (cases f) (simp_all add: parse_value.simps)

text \<open>Scalars print the same with every option but \<open>ensure_ascii\<close>.\<close>

lemma parses_scalars:
  "parses (lit ''null'') JNull" "parses (if b then lit ''true'' else lit ''false'') (JBool b)"
  "wf_str t \<Longrightarrow> parses (quote a t) (JStr t)" "wf_int i \<Longrightarrow> parses (str_int i) (JInt i)"
proof -
  show "parses (lit ''null'') JNull" "parses (if b then lit ''true'' else lit ''false'') (JBool b)"
    by (auto simp: parses_def lit_def parse_value_atom parse_atom_def keyword_def)
  show "wf_str t \<Longrightarrow> parses (quote a t) (JStr t)"
    by (auto simp: parses_def quote_def parse_str_quoted gr0_conv_Suc parse_value.simps
        dest!: less_imp_Suc_add)
  obtain c r where c: "str_int i = c # r" "c \<noteq> 34" "c \<noteq> 123" "c \<noteq> 91"
    using dec_Cons [of "nat i"] by (cases "i < 0") (auto simp: str_int_def is_digit_def)
  have "parse_atom (c # r @ s) = Inr (JInt i, s)" if "follow s" "wf_int i" for s
    using parse_atom_str_int [OF that] c(1) by simp
  then show "wf_int i \<Longrightarrow> parses (str_int i) (JInt i)"
    using c by (simp add: parses_def parse_value_atom)
qed

lemma parses_wf:
  assumes "ok_opts opts"
  shows "wf_json x \<Longrightarrow> parses (dumps opts x) x"
proof (induction x)
  case (JArr xs)
  obtain w where w: "item_sep opts = 44 # w" "list_all is_ws w"
    using assms by (auto simp: ok_opts_def)
  show ?case
  proof (cases "xs = []")
    case False
    have "list_all2 (\<lambda>p x. solid p \<and> parses p x) (map (dumps opts) xs) xs"
      using JArr solid_dumps by (auto simp: list_all2_conv_all_nth list_all_length)
    then show ?thesis
      using parses_array [of "[]" w "[]" "map (dumps opts) xs" xs] w False by simp
  qed (simp add: parses_empty)
next
  case (JObj kvs)
  obtain w z where w: "item_sep opts = 44 # w" "list_all is_ws w" "key_sep opts = 58 # z" "list_all is_ws z"
    using assms by (auto simp: ok_opts_def)
  show ?case
  proof (cases "kvs = []")
    case False
    have "wf_str (fst kv) \<and> solid (dumps opts (snd kv)) \<and> parses (dumps opts (snd kv)) (snd kv)"
      if "kv \<in> set kvs" for kv
      using that JObj solid_dumps by (auto simp: list_all_set snds.simps)
    then have "list_all2 (\<lambda>(k, p) (k', x). k = k' \<and> wf_str k \<and> solid p \<and> parses p x)
        (map (map_prod id (dumps opts)) kvs) kvs"
      by (auto simp: list_all2_conv_all_nth split_def)
    then have "parses (123 # [] @ join (44 # w) (map (member_text (ascii_only opts) z)
        (map (map_prod id (dumps opts)) kvs)) @ [] @ [125]) (JObj kvs)"
      using w JObj.prems False by (intro parses_object) auto
    then show ?thesis
      unfolding dumps_JObj using w by (simp add: split_def)
  qed (simp add: parses_empty)
qed (simp_all add: parses_scalars del: lit_def)

text \<open>What parses as a whole text is what was printed.\<close>

lemma json_loads_parses:
  assumes "parses p x" "solid p"
  shows "json_loads p = Inr x"
proof -
  have "parse_value (fuel_for p) (p @ []) = Inr (x, [])"
    using assms(1) by (rule parsesD) (simp_all add: fuel_for_def)
  moreover have "skip_ws p = p" "take 1 p \<noteq> [65279]"
    using assms(2) skip_ws_solid [of p "[]"] by (auto simp: solid_def)
  ultimately show ?thesis by (simp add: json_loads_def)
qed

theorem json_loads_dumps [roundtrip]:
  assumes "ok_opts opts" "wf_json x"
  shows "json_loads (dumps opts x) = Inr x"
  using parses_wf [OF assms] solid_dumps [OF assms(2)] by (rule json_loads_parses)

text \<open>So a printed value determines the value, also inside a longer text.\<close>

definition compact_opts :: dump_opts where
  "compact_opts = \<lparr>ascii_only = True, item_sep = lit '','', key_sep = lit '':''\<rparr>"

definition default_opts :: dump_opts where
  "default_opts = \<lparr>ascii_only = True, item_sep = lit '', '', key_sep = lit '': ''\<rparr>"

lemma ok_opts_simps [simp]: "ok_opts canonical_opts" "ok_opts compact_opts" "ok_opts default_opts"
  by (auto simp: ok_opts_def canonical_opts_def compact_opts_def default_opts_def lit_def is_ws_def)

interpretation compact: codec "dumps compact_opts" "\<lambda>s. case json_loads s of Inl _ \<Rightarrow> None | Inr v \<Rightarrow> Some v" wf_json
  by unfold_locales (simp add: json_loads_dumps)

interpretation dflt: codec "dumps default_opts" "\<lambda>s. case json_loads s of Inl _ \<Rightarrow> None | Inr v \<Rightarrow> Some v" wf_json
  by unfold_locales (simp add: json_loads_dumps)

interpretation canon: codec "dumps canonical_opts" "\<lambda>s. case json_loads s of Inl _ \<Rightarrow> None | Inr v \<Rightarrow> Some v" wf_json
  by unfold_locales (simp add: json_loads_dumps)

interpretation quoted: printer_parser "quote a" "\<lambda>s. case s of [] \<Rightarrow> None | c # r \<Rightarrow> if c = 34 then parse_str r else None"
  wf_str "\<lambda>_. True" for a
  by unfold_locales (simp add: quote_def parse_str_quoted)

lemma canonical_json_inject:
  assumes "canonical_json x = Inr bs" "canonical_json y = Inr bs" "wf_json x" "wf_json y"
  shows "sort_keys x = sort_keys y"
proof -
  have "dumps canonical_opts (sort_keys x) = dumps canonical_opts (sort_keys y)"
    using assms(1,2) unfolding canonical_json_def by (rule utf8_encode_inject)
  then show ?thesis using assms(3,4) canon.enc_eq_iff wf_sort_keys by blast
qed

section \<open>What is printed is plain text\<close>

definition text_char :: "nat \<Rightarrow> bool" where
  "text_char c \<longleftrightarrow> scalar c \<and> 32 \<le> c"

lemma text_char_small: "32 \<le> c \<Longrightarrow> c < 256 \<Longrightarrow> text_char c"
  by (simp add: text_char_def scalar_def)

lemma hex_digit_text: "n < 16 \<Longrightarrow> text_char (hex_digit n)"
  by (rule text_char_small) (auto simp: hex_digit_def)

lemma u_escape_text: "c < 65536 \<Longrightarrow> d \<in> set (u_escape c) \<Longrightarrow> text_char d"
proof -
  assume a: "c < 65536" "d \<in> set (u_escape c)"
  have "c div 4096 < 16" using a(1) by auto
  with a(2) show "text_char d" using hex_digit_text
    by (auto simp: u_escape_def intro: text_char_small)
qed

lemma escape_char_text: "scalar c \<Longrightarrow> d \<in> set (escape_char a c) \<Longrightarrow> text_char d"
proof -
  assume c: "scalar c" and d: "d \<in> set (escape_char a c)"
  consider (short) e where "short_escape c = Some e" | (low) "short_escape c = None" "c < 32"
    | (plain) "short_escape c = None" "\<not> c < 32" "\<not> (a \<and> 126 < c)"
    | (bmp) "short_escape c = None" "\<not> c < 32" "a \<and> 126 < c" "c < 65536"
    | (pair) "short_escape c = None" "\<not> c < 32" "a \<and> 126 < c" "\<not> c < 65536"
    by (cases "short_escape c") auto
  then show ?thesis
  proof cases
    case short
    then have "32 \<le> e \<and> e < 256" by (auto simp: short_escape_def split: if_splits)
    with short d show ?thesis by (auto simp: escape_char_def intro: text_char_small)
  next
    case low
    with d show ?thesis using u_escape_text [of c d] by (simp add: escape_char_def)
  next
    case plain
    with d c show ?thesis by (auto simp: escape_char_def text_char_def)
  next
    case bmp
    with d show ?thesis using u_escape_text [of c d] by (simp add: escape_char_def)
  next
    case pair
    have "55296 + (c - 65536) div 1024 < 65536" "56320 + (c - 65536) mod 1024 < 65536"
      using c by (auto simp: scalar_def)
    from u_escape_text [OF this(1)] u_escape_text [OF this(2)] show ?thesis
      using d pair by (auto simp: escape_char_def)
  qed
qed

lemma quote_text: "wf_str s \<Longrightarrow> c \<in> set (quote a s) \<Longrightarrow> text_char c"
  by (auto simp: quote_def wf_str_def list_all_set intro: escape_char_text text_char_small)

lemma set_join: "c \<in> set (join sep xs) \<Longrightarrow> c \<in> set sep \<or> (\<exists>x \<in> set xs. c \<in> set x)"
  by (induction sep xs rule: join.induct) auto

lemma dec_text: "c \<in> set (dec n) \<Longrightarrow> text_char c"
  using dec_digits [of c n] by (simp add: is_digit_def text_char_small)

lemma lit_text: "(\<And>c. c \<in> set (lit s) \<Longrightarrow> 32 \<le> c) \<Longrightarrow> d \<in> set (lit s) \<Longrightarrow> text_char d"
  by (auto intro: text_char_small dest: lit_lt_256)

definition text_opts :: "dump_opts \<Rightarrow> bool" where
  "text_opts opts \<longleftrightarrow> (\<forall>c \<in> set (item_sep opts) \<union> set (key_sep opts). text_char c)"

lemma text_opts_simps [simp]: "text_opts canonical_opts" "text_opts compact_opts" "text_opts default_opts"
  by (auto simp: text_opts_def canonical_opts_def compact_opts_def default_opts_def lit_def
      intro: text_char_small)

text \<open>A well-formed value is printed in Unicode scalar values without control characters.\<close>

lemma dumps_text:
  assumes "text_opts opts"
  shows "wf_json x \<Longrightarrow> c \<in> set (dumps opts x) \<Longrightarrow> text_char c"
proof (induction x arbitrary: c)
  case (JInt i)
  then show ?case by (auto simp: str_int_def split: if_split_asm intro: dec_text text_char_small)
next
  case (JFloat f)
  then show ?case by simp
next
  case (JStr s)
  then show ?case by (auto intro: quote_text)
next
  case (JArr xs)
  then show ?case using assms
    by (auto simp: list_all_set text_opts_def dest!: set_join intro: text_char_small)
next
  case (JObj kvs)
  from JObj.prems(2) consider "c = 123" | "c = 125" | "c \<in> set (item_sep opts)"
    | (kv) k x where "(k, x) \<in> set kvs" "c \<in> set (quote (ascii_only opts) k @ key_sep opts @ dumps opts x)"
    by (auto dest!: set_join)
  then show ?case
  proof cases
    case kv
    have w: "wf_str k" "wf_json x" using JObj.prems(1) kv(1) by (auto simp: list_all_set)
    have "c \<in> set (dumps opts x) \<Longrightarrow> text_char c"
      using JObj.IH [of "(k, x)" x c] kv(1) w by (simp add: snds.simps)
    then show ?thesis using kv(2) w assms by (auto simp: text_opts_def intro: quote_text)
  qed (use assms in \<open>auto simp: text_opts_def intro: text_char_small\<close>)
qed (auto simp: lit_def intro: text_char_small split: if_split_asm)

lemma wf_str_dumps: "text_opts opts \<Longrightarrow> wf_json x \<Longrightarrow> wf_str (dumps opts x)"
  using dumps_text by (auto simp: wf_str_def list_all_set text_char_def)

lemma utf8_encode_wf: "wf_str s \<Longrightarrow> \<exists>bs. utf8_encode s = Inr bs"
  by (simp add: utf8_encode_Inr_iff wf_str_def list_all_set)

lemma canonical_json_wf:
  assumes "wf_json x"
  obtains bs where "canonical_json x = Inr bs"
    "rbind (utf8_decode bs) json_loads = Inr (sort_keys x)"
proof -
  have w: "wf_json (sort_keys x)" using assms by (rule wf_sort_keys)
  obtain bs where "utf8_encode (dumps canonical_opts (sort_keys x)) = Inr bs"
    using utf8_encode_wf [OF wf_str_dumps [OF text_opts_simps(1) w]] by blast
  then show thesis
    using that utf8_decode_encode w by (simp add: canonical_json_def json_loads_dumps)
qed

end
