(* ===== verification/Base64.thy ===== *)
theory Base64
  imports Unicode
begin

text \<open>
  \<open>base64.b64encode\<close> and \<open>base64.b64decode(s, validate=True)\<close>, which every binary
  field of the protocol goes through.  The decoder is CPython's \<open>binascii.a2b_base64\<close>
  in strict mode (3.11 and 3.12), character by character: the position in the group of
  four, the bits left over from the last character, the pads seen, and whether padding
  has started.
\<close>

definition b64_char :: "nat \<Rightarrow> nat" where
  "b64_char n =
     (if n < 26 then 65 + n else if n < 52 then 71 + n else if n < 62 then n - 4
      else if n = 62 then 43 else 47)"

definition b64_value :: "nat \<Rightarrow> nat option" where
  "b64_value c =
     (if 65 \<le> c \<and> c \<le> 90 then Some (c - 65)
      else if 97 \<le> c \<and> c \<le> 122 then Some (c - 71)
      else if 48 \<le> c \<and> c \<le> 57 then Some (c + 4)
      else if c = 43 then Some 62
      else if c = 47 then Some 63
      else None)"

fun b64encode :: "bytes \<Rightarrow> pystr" where
  "b64encode [] = []"
| "b64encode [a] = [b64_char (unat a div 4), b64_char (16 * (unat a mod 4)), 61, 61]"
| "b64encode [a, b] =
     [b64_char (unat a div 4), b64_char (16 * (unat a mod 4) + unat b div 16),
      b64_char (4 * (unat b mod 16)), 61]"
| "b64encode (a # b # c # bs) =
     [b64_char (unat a div 4), b64_char (16 * (unat a mod 4) + unat b div 16),
      b64_char (4 * (unat b mod 16) + unat c div 64), b64_char (unat c mod 64)] @ b64encode bs"

fun a2b_strict :: "nat \<Rightarrow> nat \<Rightarrow> nat \<Rightarrow> bool \<Rightarrow> pystr \<Rightarrow> bytes option" where
  "a2b_strict q l p started [] = (if q = 0 then Some [] else None)"
| "a2b_strict q l p started (c # cs) =
     (if c = 61 then
        (if 2 \<le> q \<and> 4 \<le> q + (p + 1) then (if cs = [] then Some [] else None)
         else a2b_strict q l (if 2 \<le> q then p + 1 else p) True cs)
      else
        (case b64_value c of
           None \<Rightarrow> None
         | Some v \<Rightarrow>
             (if started then None
              else if q = 0 then a2b_strict 1 v 0 started cs
              else if q = 1 then
                map_option (Cons (b8 (4 * l + v div 16))) (a2b_strict 2 (v mod 16) 0 started cs)
              else if q = 2 then
                map_option (Cons (b8 (16 * l + v div 4))) (a2b_strict 3 (v mod 4) 0 started cs)
              else map_option (Cons (b8 (64 * l + v))) (a2b_strict 0 0 0 started cs))))"

text \<open>A non-ASCII string and leading padding are refused before anything is decoded.\<close>

definition b64decode :: "pystr \<Rightarrow> bytes option" where
  "b64decode s =
     (if \<not> list_all (\<lambda>c. c < 128) s then None
      else case s of [] \<Rightarrow> Some [] | c # _ \<Rightarrow> if c = 61 then None else a2b_strict 0 0 0 False s)"

lemma b64_value_char [simp]: "n < 64 \<Longrightarrow> b64_value (b64_char n) = Some n"
  by (auto simp: b64_char_def b64_value_def)

lemma b64_char_not_pad [simp]: "n < 64 \<Longrightarrow> b64_char n \<noteq> 61"
  by (auto simp: b64_char_def)

lemma b64_char_safe: "n < 64 \<Longrightarrow> 43 \<le> b64_char n \<and> b64_char n < 123 \<and> b64_char n \<noteq> 92"
  by (auto simp: b64_char_def)

lemma byte_parts [simp]:
  fixes a b :: byte
  shows "unat a div 4 < 64" "unat a div 16 < 16" "unat a div 64 < 4"
    "16 * (unat a mod 4) + unat b div 16 < 64" "4 * (unat a mod 16) + unat b div 64 < 64"
  using unat_byte_lt [of a] unat_byte_lt [of b] by linarith+

lemma six_bits [simp]: "16 * (m mod 4) < (64 :: nat)" "4 * (m mod 16) < (64 :: nat)"
  by linarith+

lemma pack [simp]:
  fixes a b :: byte
  shows "(16 * m + unat b div 16) div 16 = m" "(16 * m + unat b div 16) mod 16 = unat b div 16"
    "(4 * m + unat b div 64) div 4 = m" "(4 * m + unat b div 64) mod 4 = unat b div 64"
    "4 * (unat a div 4) + unat a mod 4 = unat a"
    "16 * (unat a div 16) + unat a mod 16 = unat a"
    "64 * (unat a div 64) + unat a mod 64 = unat a"
  using unat_byte_lt [of b] by auto

lemma a2b_strict_b64encode: "a2b_strict 0 0 0 False (b64encode bs) = Some bs"
proof (induction bs rule: b64encode.induct)
  case 1
  then show ?case by simp
next
  case (2 a)
  then show ?case by simp
next
  case (3 a b)
  then show ?case by simp
next
  case (4 a b c bs)
  then show ?case by simp
qed

lemma b64encode_chars: "c \<in> set (b64encode bs) \<Longrightarrow> 43 \<le> c \<and> c < 123 \<and> c \<noteq> 92"
proof (induction bs rule: b64encode.induct)
  case (4 a b c bs)
  then show ?case using b64_char_safe by auto
qed (use b64_char_safe in auto)

lemma b64encode_head: "b64encode bs = c # s \<Longrightarrow> c \<noteq> 61"
  by (cases bs rule: b64encode.cases) auto

lemma b64encode_ascii: "list_all (\<lambda>c. c < 128) (b64encode bs)"
  unfolding list_all_set by (auto dest!: b64encode_chars)

lemma b64decode_encode [roundtrip, simp]: "b64decode (b64encode bs) = Some bs"
proof (cases "b64encode bs")
  case Nil
  then show ?thesis using a2b_strict_b64encode [of bs] by (simp add: b64decode_def)
next
  case (Cons c s)
  then have "c \<noteq> 61" by (rule b64encode_head)
  with Cons show ?thesis
    using a2b_strict_b64encode [of bs] b64encode_ascii [of bs]
    by (simp add: b64decode_def del: a2b_strict.simps)
qed

interpretation b64: codec b64encode b64decode "\<lambda>_. True"
  by unfold_locales simp

lemma length_b64encode: "length (b64encode bs) = 4 * ((length bs + 2) div 3)"
proof (induction bs rule: b64encode.induct)
  case (4 a b c bs)
  have "(length (a # b # c # bs) + 2) div 3 = Suc ((length bs + 2) div 3)" by simp
  with 4 show ?case by simp
qed simp_all

end
