(* ===== verification/Protocol.thy ===== *)
theory Protocol
  imports Json_Roundtrip Base64
begin

text \<open>
  \<open>common/protocol.py\<close>: length-prefixed JSON framing over a byte stream and the message
  envelope.  A socket is the list of what its next \<open>recv\<close> calls find: segments of bytes,
  in the sizes TCP happens to deliver them, or a fault (reset, time-out); the empty list
  is a closed connection.
\<close>

section \<open>Receiving\<close>

datatype segment = Data bytes | Fault

type_synonym sock = "segment list"

text \<open>\<open>sock.recv(k)\<close>: at most \<open>k\<close> bytes of the next segment, \<open>b""\<close> at the end.\<close>

fun sock_recv :: "nat \<Rightarrow> sock \<Rightarrow> (bytes \<times> sock) res" where
  "sock_recv k [] = Inr ([], [])"
| "sock_recv k (Fault # s) = Inl OSError"
| "sock_recv k (Data d # s) =
     Inr (take k d, if length d \<le> k then s else Data (drop k d) # s)"

function recvall_loop :: "nat \<Rightarrow> bytes \<Rightarrow> sock \<Rightarrow> (bytes \<times> sock) res" where
  "recvall_loop n buf s =
     (if length buf < n then
        (case sock_recv (n - length buf) s of
           Inl e \<Rightarrow> Inl e
         | Inr (chunk, s') \<Rightarrow>
             if chunk = [] then Inl ProtocolError else recvall_loop n (buf @ chunk) s')
      else Inr (buf, s))"
  by pat_completeness auto
termination
  by (relation "measure (\<lambda>(n, buf, s). n - length buf)") (auto intro!: diff_less_mono2)

declare recvall_loop.simps [simp del]

definition recvall :: "sock \<Rightarrow> int \<Rightarrow> (bytes \<times> sock) res" where
  "recvall s n = (if n < 0 then Inl ValueError else recvall_loop (nat n) [] s)"

section \<open>Framing\<close>

definition MAX_MESSAGE_BYTES :: nat where
  "MAX_MESSAGE_BYTES = 64 * 1024 * 1024"

definition PROTOCOL_VERSION :: int where
  "PROTOCOL_VERSION = 1"

text \<open>\<open>struct.Struct(">I")\<close>: four bytes, most significant first.\<close>

definition pack_length :: "nat \<Rightarrow> bytes" where
  "pack_length n =
     [b8 (n div 16777216), b8 (n div 65536 mod 256), b8 (n div 256 mod 256), b8 (n mod 256)]"

definition unpack_length :: "bytes \<Rightarrow> nat" where
  "unpack_length h = foldl (\<lambda>n b. 256 * n + unat b) 0 h"

definition pack_message :: "json \<Rightarrow> bytes res" where
  "pack_message msg =
     (case as_dict msg of
        None \<Rightarrow> Inl TypeError
      | Some _ \<Rightarrow>
          rbind (utf8_encode (dumps compact_opts msg)) (\<lambda>body.
            if MAX_MESSAGE_BYTES < length body then Inl ProtocolError
            else Inr (pack_length (length body) @ body)))"

text \<open>A decoding or syntax error is a \<open>ProtocolError\<close>; the digit-limit \<open>ValueError\<close> of
  \<open>json.loads\<close> is not one of the two that are caught.\<close>

definition loads_body :: "bytes \<Rightarrow> json res" where
  "loads_body body =
     (case rbind (utf8_decode body) json_loads of
        Inr v \<Rightarrow> Inr v
      | Inl e \<Rightarrow> if e \<in> {UnicodeDecodeError, JSONDecodeError} then Inl ProtocolError else Inl e)"

definition recv_message :: "sock \<Rightarrow> (jdict \<times> sock) res" where
  "recv_message s =
     rbind (recvall s 4) (\<lambda>(header, s1).
       let len = unpack_length header in
       if MAX_MESSAGE_BYTES < len then Inl ProtocolError
       else rbind (recvall s1 (int len)) (\<lambda>(body, s2).
         rbind (loads_body body) (\<lambda>obj.
           rbind (some_or ProtocolError (as_dict obj)) (\<lambda>d. Inr (d, s2)))))"

section \<open>Envelopes\<close>

definition MESSAGE_TYPES :: "pystr list" where
  "MESSAGE_TYPES = map lit
     [''HELLO'', ''KEY_EXCHANGE'', ''AUTH_CHALLENGE'', ''AUTH_RESPONSE'', ''SESSION_OK'',
      ''GET_PUBKEY'', ''PUBKEY_RESPONSE'', ''UPLOAD_REQUEST'', ''UPLOAD_ACK'', ''LIST_PENDING'',
      ''PENDING_LIST'', ''DOWNLOAD_REQUEST'', ''DOWNLOAD_RESPONSE'', ''DOWNLOAD_ACK'', ''ACK_OK'',
      ''REVOKE_REQUEST'', ''REVOKE_ACK'', ''ERROR'']"

text \<open>What \<open>os.urandom(16)\<close>, \<open>time.time()\<close> and \<open>uuid.uuid4()\<close> gave for one envelope.\<close>

record stamp =
  st_nonce :: bytes
  st_time :: int
  st_uuid :: pystr

definition make_envelope :: "stamp \<Rightarrow> pystr \<Rightarrow> jdict \<Rightarrow> jdict res" where
  "make_envelope st msg_type payload =
     (if msg_type \<notin> set MESSAGE_TYPES then Inl ProtocolError
      else Inr
        [(lit ''type'', JStr msg_type),
         (lit ''version'', JInt PROTOCOL_VERSION),
         (lit ''nonce'', JStr (b64encode (st_nonce st))),
         (lit ''timestamp'', JInt (st_time st)),
         (lit ''request_id'', JStr (st_uuid st)),
         (lit ''payload'', JObj payload)])"

text \<open>The fields of a validated envelope, as its readers use them.\<close>

record envelope =
  e_type :: pystr
  e_nonce :: json
  e_timestamp :: json
  e_request_id :: json
  e_payload :: jdict

definition required_fields :: "pystr list" where
  "required_fields = map lit
     [''type'', ''version'', ''nonce'', ''timestamp'', ''request_id'', ''payload'']"

text \<open>A list or a dict is not hashable, so \<open>in MESSAGE_TYPES\<close> raises on it.\<close>

primrec hashable :: "json \<Rightarrow> bool" where
  "hashable JNull = True"
| "hashable (JBool b) = True"
| "hashable (JInt i) = True"
| "hashable (JFloat f) = True"
| "hashable (JStr s) = True"
| "hashable (JArr xs) = False"
| "hashable (JObj kvs) = False"

text \<open>\<open>base64.b64decode(v, validate=True)\<close>; every failure is \<open>None\<close>.\<close>

definition b64_field :: "json \<Rightarrow> bytes option" where
  "b64_field v = Option.bind (as_str v) b64decode"

definition validate_envelope :: "json \<Rightarrow> envelope res" where
  "validate_envelope msg =
     rbind (some_or ProtocolError (as_dict msg)) (\<lambda>d.
     rbind (ensure ProtocolError (list_all (\<lambda>k. map_of d k \<noteq> None) required_fields)) (\<lambda>_.
     rbind (ensure ProtocolError (py_eq (jget d (lit ''version'')) (JInt PROTOCOL_VERSION))) (\<lambda>_.
     rbind (ensure TypeError (hashable (jget d (lit ''type'')))) (\<lambda>_.
     rbind (some_or ProtocolError (as_str (jget d (lit ''type'')))) (\<lambda>t.
     rbind (ensure ProtocolError (t \<in> set MESSAGE_TYPES)) (\<lambda>_.
     rbind (some_or ProtocolError (as_dict (jget d (lit ''payload'')))) (\<lambda>p.
     rbind (some_or ProtocolError (b64_field (jget d (lit ''nonce'')))) (\<lambda>nonce.
     rbind (ensure ProtocolError (length nonce = 16)) (\<lambda>_.
     rbind (ensure ProtocolError (as_int (jget d (lit ''timestamp'')) \<noteq> None)) (\<lambda>_.
       Inr \<lparr>e_type = t, e_nonce = jget d (lit ''nonce''),
            e_timestamp = jget d (lit ''timestamp''),
            e_request_id = jget d (lit ''request_id''), e_payload = p\<rparr>))))))))))"

section \<open>\<open>recvall\<close> returns the next bytes of the stream, however TCP cut them\<close>

text \<open>Segments without a fault and without an empty segment, and the bytes they hold.\<close>

definition clean :: "sock \<Rightarrow> bool" where
  "clean s \<longleftrightarrow> (\<forall>g \<in> set s. \<exists>d. g = Data d \<and> d \<noteq> [])"

primrec seg_data :: "segment \<Rightarrow> bytes" where
  "seg_data (Data d) = d"
| "seg_data Fault = []"

definition stream :: "sock \<Rightarrow> bytes" where
  "stream s = concat (map seg_data s)"

lemma stream_simps [simp]: "stream [] = []" "stream (Data d # s) = d @ stream s"
  by (simp_all add: stream_def)

lemma sock_recv_clean:
  assumes "clean s" "0 < k" "sock_recv k s = Inr (chunk, s')"
  shows "clean s' \<and> stream s = chunk @ stream s' \<and> length chunk \<le> k
    \<and> (chunk = [] \<longleftrightarrow> stream s = [])"
  using assms by (cases "(k, s)" rule: sock_recv.cases) (auto simp: clean_def split: if_splits)

lemma sock_recv_total: "clean s \<Longrightarrow> \<exists>chunk s'. sock_recv k s = Inr (chunk, s')"
  by (cases "(k, s)" rule: sock_recv.cases) (auto simp: clean_def)

lemma recvall_loop_clean:
  assumes "clean s" "length buf \<le> n"
  shows "(n - length buf \<le> length (stream s) \<longrightarrow>
      (\<exists>s'. recvall_loop n buf s = Inr (buf @ take (n - length buf) (stream s), s')
        \<and> clean s' \<and> stream s' = drop (n - length buf) (stream s))) \<and>
    (length (stream s) < n - length buf \<longrightarrow> recvall_loop n buf s = Inl ProtocolError)"
  using assms
proof (induction n buf s rule: recvall_loop.induct)
  case (1 n buf s)
  show ?case
  proof (cases "length buf < n")
    case False
    then have "recvall_loop n buf s = Inr (buf, s)" by (subst recvall_loop.simps) simp
    with "1.prems" False show ?thesis by simp
  next
    case True
    obtain chunk s' where c: "sock_recv (n - length buf) s = Inr (chunk, s')"
      using sock_recv_total [OF "1.prems"(1)] by blast
    have "0 < n - length buf" using True by simp
    note r = sock_recv_clean [OF "1.prems"(1) this c]
    have s': "clean s'" "stream s = chunk @ stream s'" "length chunk \<le> n - length buf"
        "chunk = [] \<longleftrightarrow> stream s = []"
      using r by blast+
    show ?thesis
    proof (cases "chunk = []")
      case True
      with \<open>length buf < n\<close> c have "recvall_loop n buf s = Inl ProtocolError"
        by (subst recvall_loop.simps) simp
      with True s'(4) \<open>length buf < n\<close> show ?thesis by simp
    next
      case False
      have unf: "recvall_loop n buf s = recvall_loop n (buf @ chunk) s'"
        using True False c by (subst recvall_loop.simps) simp
      have "length (buf @ chunk) \<le> n" using s'(3) "1.prems"(2) by simp
      from "1.IH" [OF True c refl False s'(1) this] show ?thesis
        unfolding unf s'(2) using s'(3) by (auto simp: less_diff_conv le_diff_conv add.commute)
    qed
  qed
qed

lemma recvall_clean:
  assumes "clean s" "n \<le> length (stream s)"
  shows "\<exists>s'. recvall s (int n) = Inr (take n (stream s), s') \<and> clean s'
    \<and> stream s' = drop n (stream s)"
  using recvall_loop_clean [OF assms(1), of "[]" n] assms(2) by (simp add: recvall_def)

lemma recvall_short:
  assumes "clean s" "length (stream s) < n"
  shows "recvall s (int n) = Inl ProtocolError"
  using recvall_loop_clean [OF assms(1), of "[]" n] assms(2) by (simp add: recvall_def)

section \<open>A packed message is received as it was sent\<close>

lemma length_pack_length [simp]: "length (pack_length n) = 4"
  by (simp add: pack_length_def)

lemma unpack_pack_length:
  assumes "n < 4294967296" shows "unpack_length (pack_length n) = n"
proof -
  define q r t where "q = n div 256" and "r = q div 256" and "t = r div 256"
  have d: "n div 65536 = r" "n div 16777216 = t"
    by (simp_all add: q_def r_def t_def div_mult2_eq [symmetric])
  have e: "256 * q + n mod 256 = n" "256 * r + q mod 256 = q" "256 * t + r mod 256 = r"
    by (simp_all add: q_def r_def t_def)
  have "t < 256" using assms d by auto
  then show ?thesis
    unfolding unpack_length_def pack_length_def d q_def [symmetric] using e by simp
qed

interpretation frame_length: codec pack_length "\<lambda>h. Some (unpack_length h)" "\<lambda>n. n < 4294967296"
  by unfold_locales (simp add: unpack_pack_length)

lemma pack_message_Inr:
  assumes "pack_message msg = Inr bs"
  obtains d body where "msg = JObj d" "utf8_encode (dumps compact_opts msg) = Inr body"
    "length body \<le> MAX_MESSAGE_BYTES" "bs = pack_length (length body) @ body"
  using assms by (auto simp: pack_message_def rbind_Inr_iff split: option.splits if_splits)

lemma loads_body_encoded:
  assumes "utf8_encode (dumps compact_opts msg) = Inr body" "wf_json msg"
  shows "loads_body body = Inr msg"
  using utf8_decode_encode [OF assms(1)] assms(2)
  by (simp add: loads_body_def json_loads_dumps)

lemma recv_packed:
  assumes s: "clean s" and st: "stream s = bs @ rest"
    and p: "pack_message (JObj d) = Inr bs" and wf: "wf_json (JObj d)"
  shows "\<exists>s'. recv_message s = Inr (d, s') \<and> clean s' \<and> stream s' = rest"
proof -
  obtain body where b: "utf8_encode (dumps compact_opts (JObj d)) = Inr body"
      "length body \<le> MAX_MESSAGE_BYTES" "bs = pack_length (length body) @ body"
    using p by (rule pack_message_Inr) blast
  obtain s1 where s1: "recvall s (int 4) = Inr (pack_length (length body), s1)" "clean s1"
      "stream s1 = body @ rest"
    using recvall_clean [OF s, of 4] st b(3) by auto
  obtain s2 where s2: "recvall s1 (int (length body)) = Inr (body, s2)" "clean s2" "stream s2 = rest"
    using recvall_clean [OF s1(2), of "length body"] s1(3) by auto
  have "unpack_length (pack_length (length body)) = length body"
    using b(2) by (intro unpack_pack_length) (simp add: MAX_MESSAGE_BYTES_def)
  then show ?thesis
    using s1(1) s2 b(2) loads_body_encoded [OF b(1) wf] by (simp add: recv_message_def)
qed

section \<open>Envelopes made are envelopes accepted\<close>

lemma validate_made:
  assumes "make_envelope st t p = Inr d" "length (st_nonce st) = 16"
  shows "validate_envelope (JObj d) = Inr
    \<lparr>e_type = t, e_nonce = JStr (b64encode (st_nonce st)), e_timestamp = JInt (st_time st),
     e_request_id = JStr (st_uuid st), e_payload = p\<rparr>"
  using assms
  by (auto simp: make_envelope_def validate_envelope_def required_fields_def jget_def
      b64_field_def split: if_splits)

lemma validate_envelope_Inr:
  assumes "validate_envelope msg = Inr e"
  obtains d n ts where "msg = JObj d" "e_nonce e = JStr n" "\<exists>b. b64decode n = Some b \<and> length b = 16"
    "as_int (e_timestamp e) = Some ts" "e_type e \<in> set MESSAGE_TYPES"
  using assms
  by (auto simp: validate_envelope_def rbind_Inr_iff b64_field_def bind_eq_Some_conv)

lemma make_envelope_wf:
  assumes "make_envelope st t p = Inr d" "wf_json (JObj p)" "wf_int (st_time st)" "wf_str (st_uuid st)"
  shows "wf_json (JObj d)"
proof -
  have "wf_str (b64encode b)" for b
    by (auto simp: wf_str_def list_all_set scalar_def dest!: b64encode_chars)
  moreover have "wf_str t" if "t \<in> set MESSAGE_TYPES"
    using that by (auto simp: MESSAGE_TYPES_def)
  moreover have "wf_int 1" by (simp add: wf_int_def dec.simps max_int_digits_def)
  ultimately show ?thesis
    using assms by (auto simp: make_envelope_def PROTOCOL_VERSION_def split: if_splits)
qed

section \<open>A message cut short is refused\<close>

lemma recv_truncated:
  assumes "clean s" "pack_message (JObj d) = Inr bs" "stream s = take n bs" "n < length bs"
  shows "recv_message s = Inl ProtocolError"
proof -
  obtain body where b: "length body \<le> MAX_MESSAGE_BYTES" "bs = pack_length (length body) @ body"
    using assms(2) by (rule pack_message_Inr) blast
  show ?thesis
  proof (cases "n < 4")
    case True
    then have "recvall s (int 4) = Inl ProtocolError"
      using assms(1,3) by (intro recvall_short) simp_all
    then show ?thesis by (simp add: recv_message_def)
  next
    case False
    then have st: "stream s = pack_length (length body) @ take (n - 4) body"
      using assms(3) b(2) by simp
    then obtain s1 where s1: "recvall s (int 4) = Inr (pack_length (length body), s1)" "clean s1"
        "stream s1 = take (n - 4) body"
      using recvall_clean [OF assms(1), of 4] by auto
    have "length (stream s1) < length body" using s1(3) assms(4) b(2) False by simp
    then have "recvall s1 (int (length body)) = Inl ProtocolError" by (rule recvall_short [OF s1(2)])
    moreover have "unpack_length (pack_length (length body)) = length body"
      using b(1) by (intro unpack_pack_length) (simp add: MAX_MESSAGE_BYTES_def)
    ultimately show ?thesis using s1(1) b(1) by (simp add: recv_message_def)
  qed
qed

end
