(* ===== verification/Sha256.thy ===== *)
theory Sha256
  imports Unicode
begin

text \<open>
  \<open>hashlib.sha256\<close>, as FIPS 180-4 defines it: padding to 512-bit blocks, the message
  schedule, 64 rounds on eight 32-bit words, with addition modulo \<open>2 ^ 32\<close>.  The
  proofs use only that a digest has 32 bytes; nothing assumes that distinct inputs have
  distinct digests.
\<close>

unbundle bit_operations_syntax

type_synonym w32 = "32 word"

definition rotr :: "nat \<Rightarrow> w32 \<Rightarrow> w32" where
  "rotr k x = drop_bit k x OR push_bit (32 - k) x"

definition sha_ch :: "w32 \<Rightarrow> w32 \<Rightarrow> w32 \<Rightarrow> w32" where
  "sha_ch x y z = (x AND y) XOR (NOT x AND z)"

definition sha_maj :: "w32 \<Rightarrow> w32 \<Rightarrow> w32 \<Rightarrow> w32" where
  "sha_maj x y z = (x AND y) XOR (x AND z) XOR (y AND z)"

definition big0 :: "w32 \<Rightarrow> w32" where
  "big0 x = rotr 2 x XOR rotr 13 x XOR rotr 22 x"

definition big1 :: "w32 \<Rightarrow> w32" where
  "big1 x = rotr 6 x XOR rotr 11 x XOR rotr 25 x"

definition small0 :: "w32 \<Rightarrow> w32" where
  "small0 x = rotr 7 x XOR rotr 18 x XOR drop_bit 3 x"

definition small1 :: "w32 \<Rightarrow> w32" where
  "small1 x = rotr 17 x XOR rotr 19 x XOR drop_bit 10 x"

text \<open>
  The constants, as the standard derives them: the first 32 bits of the fractional parts
  of the cube roots of the first 64 primes, and of the square roots of the first 8.
  \<open>root_from\<close> finds an integer root bit by bit; the truncation to 32 bits drops the
  integer part.
\<close>

primrec root_from :: "nat \<Rightarrow> nat \<Rightarrow> nat \<Rightarrow> nat \<Rightarrow> nat" where
  "root_from 0 k n acc = acc"
| "root_from (Suc b) k n acc =
     root_from b k n (if (acc + 2 ^ b) ^ k \<le> n then acc + 2 ^ b else acc)"

definition frac_root :: "nat \<Rightarrow> nat \<Rightarrow> w32" where
  "frac_root k p = word_of_nat (root_from 36 k (p * 2 ^ (32 * k)) 0)"

definition small_primes :: "nat list" where
  "small_primes = filter (\<lambda>n. list_all (\<lambda>d. \<not> d dvd n) [2..<n]) [2..<312]"

definition sha_k :: "w32 list" where
  "sha_k = map (frac_root 3) small_primes"

type_synonym sha_state = "w32 \<times> w32 \<times> w32 \<times> w32 \<times> w32 \<times> w32 \<times> w32 \<times> w32"

definition sha_init :: sha_state where
  "sha_init = (frac_root 2 2, frac_root 2 3, frac_root 2 5, frac_root 2 7,
               frac_root 2 11, frac_root 2 13, frac_root 2 17, frac_root 2 19)"

text \<open>Bytes and words, most significant byte first.\<close>

fun be_word :: "bytes \<Rightarrow> w32" where
  "be_word bs = foldl (\<lambda>w b. 256 * w + ucast b) 0 bs"

definition word_be :: "w32 \<Rightarrow> bytes" where
  "word_be w = [ucast (drop_bit 24 w), ucast (drop_bit 16 w), ucast (drop_bit 8 w), ucast w]"

function groups :: "nat \<Rightarrow> 'a list \<Rightarrow> 'a list list" where
  "groups n xs = (if n = 0 \<or> xs = [] then [] else take n xs # groups n (drop n xs))"
  by pat_completeness auto
termination by (relation "measure (length \<circ> snd)") auto

declare groups.simps [simp del]

definition pad_zeros :: "nat \<Rightarrow> nat" where
  "pad_zeros len = (119 - len mod 64) mod 64"

definition sha_pad :: "bytes \<Rightarrow> bytes" where
  "sha_pad m = m @ [0x80] @ replicate (pad_zeros (length m)) 0 @
     map (\<lambda>k. ucast (drop_bit k (word_of_nat (8 * length m) :: 64 word)))
       [56, 48, 40, 32, 24, 16, 8, 0]"

text \<open>The schedule, kept as the window of its last sixteen words.\<close>

fun schedule_from :: "nat \<Rightarrow> w32 list \<Rightarrow> w32 list" where
  "schedule_from 0 win = win"
| "schedule_from (Suc n) win =
     hd win # schedule_from n (tl win @
       [small1 (win ! 14) + win ! 9 + small0 (win ! 1) + win ! 0])"

definition sha_round :: "sha_state \<Rightarrow> w32 \<times> w32 \<Rightarrow> sha_state" where
  "sha_round st kw = (case (st, kw) of ((a, b, c, d, e, f, g, h), (k, w)) \<Rightarrow>
     let t1 = h + big1 e + sha_ch e f g + k + w; t2 = big0 a + sha_maj a b c in
     (t1 + t2, a, b, c, d + t1, e, f, g))"

definition sha_block :: "sha_state \<Rightarrow> bytes \<Rightarrow> sha_state" where
  "sha_block st block =
     (case (st, foldl sha_round st (zip sha_k (schedule_from 48 (map be_word (groups 4 block)))))
      of ((a, b, c, d, e, f, g, h), (a', b', c', d', e', f', g', h')) \<Rightarrow>
        (a + a', b + b', c + c', d + d', e + e', f + f', g + g', h + h'))"

definition sha256 :: "bytes \<Rightarrow> bytes" where
  "sha256 m = (case foldl sha_block sha_init (groups 64 (sha_pad m)) of
     (a, b, c, d, e, f, g, h) \<Rightarrow> concat (map word_be [a, b, c, d, e, f, g, h]))"

text \<open>\<open>hashlib.sha256(m).hexdigest()\<close>\<close>

definition sha256_hex :: "bytes \<Rightarrow> pystr" where
  "sha256_hex m = hex (sha256 m)"

lemma length_sha256 [simp]: "length (sha256 m) = 32"
  by (simp add: sha256_def word_be_def split: prod.split)

lemma length_sha256_hex [simp]: "length (sha256_hex m) = 64"
  by (simp add: sha256_hex_def)

lemma sha256_hex_eq_iff: "sha256_hex a = sha256_hex b \<longleftrightarrow> sha256 a = sha256 b"
  by (simp add: sha256_hex_def hex_inject)

lemma wf_sha256_hex [simp]: "c \<in> set (sha256_hex m) \<Longrightarrow> c < 128"
  unfolding sha256_hex_def using hex_ascii by blast

text \<open>The padded message is a whole number of blocks.\<close>

lemma length_sha_pad: "length (sha_pad m) mod 64 = 0"
proof -
  define r q where "r = length m mod 64" and "q = length m div 64"
  have m: "length m = 64 * q + r" and r: "r < 64" by (simp_all add: r_def q_def)
  have "(119 - r) mod 64 = (if r \<le> 55 then 55 - r else 119 - r)"
    using r by (auto simp: mod_if)
  then have "r + 1 + (119 - r) mod 64 + 8 = 64 \<or> r + 1 + (119 - r) mod 64 + 8 = 128"
    using r by auto
  then have "(64 * q + (r + 1 + (119 - r) mod 64 + 8)) mod 64 = 0"
    by (elim disjE) (simp_all only: mod_mult_self4, simp_all)
  then show ?thesis
    unfolding sha_pad_def pad_zeros_def r_def [symmetric] by (simp add: m ac_simps)
qed

end
