(* ===== verification/Crypto.thy ===== *)
theory Crypto
  imports Protocol Sha256
begin

text \<open>
  \<open>common/crypto_primitives.py\<close>, \<open>common/key_wrap.py\<close>, \<open>common/file_crypto.py\<close> and
  \<open>common/transcript.py\<close>.  The \<open>cryptography\<close> package is a parameter: the record
  \<open>crypto\<close> holds the functions the code calls, and its documented laws are the
  predicates \<open>pss_correct\<close>, \<open>oaep_correct\<close> and \<open>gcm_correct\<close>.  Random bytes are
  arguments.  SHA-256 is the standard library's, and computed.
\<close>

section \<open>The library\<close>

text \<open>What loading a PEM gives: an exception, a key that is not RSA, or an RSA key
  (a number that names its key pair).\<close>

datatype pem_load = LoadFails exc | OtherKey | RsaKey nat

record crypto =
  load_pem_private_key :: "bytes \<Rightarrow> bytes \<Rightarrow> pem_load"
  load_pem_public_key :: "bytes \<Rightarrow> pem_load"
  pss_sign :: "nat \<Rightarrow> bytes \<Rightarrow> bytes \<Rightarrow> bytes option"
  pss_verify :: "nat \<Rightarrow> bytes \<Rightarrow> bytes \<Rightarrow> bool"
  oaep_encrypt :: "nat \<Rightarrow> bytes \<Rightarrow> bytes \<Rightarrow> bytes option"
  oaep_decrypt :: "nat \<Rightarrow> bytes \<Rightarrow> bytes option"
  gcm_encrypt :: "bytes \<Rightarrow> bytes \<Rightarrow> bytes \<Rightarrow> bytes \<Rightarrow> bytes"
  gcm_decrypt :: "bytes \<Rightarrow> bytes \<Rightarrow> bytes \<Rightarrow> bytes \<Rightarrow> bytes option"
  hkdf_sha256 :: "bytes \<Rightarrow> bytes \<Rightarrow> bytes \<Rightarrow> nat \<Rightarrow> bytes"
  new_rsa_key :: "bytes \<Rightarrow> bytes \<Rightarrow> bytes \<times> bytes"

definition pss_correct :: "crypto \<Rightarrow> bool" where
  "pss_correct C \<longleftrightarrow> (\<forall>k salt m s. pss_sign C k salt m = Some s \<longrightarrow> pss_verify C k s m)"

definition oaep_correct :: "crypto \<Rightarrow> bool" where
  "oaep_correct C \<longleftrightarrow>
     (\<forall>k seed m c. oaep_encrypt C k seed m = Some c \<longrightarrow> oaep_decrypt C k c = Some m)"

definition gcm_correct :: "crypto \<Rightarrow> bool" where
  "gcm_correct C \<longleftrightarrow>
     (\<forall>k n m a. length k = 32 \<longrightarrow> length n = 12 \<longrightarrow>
        gcm_decrypt C k n (gcm_encrypt C k n m a) a = Some m)"

section \<open>RSA\<close>

definition AES_KEY_BYTES :: nat where
  "AES_KEY_BYTES = 32"

definition AES_NONCE_BYTES :: nat where
  "AES_NONCE_BYTES = 12"

definition generate_rsa_keypair :: "crypto \<Rightarrow> bytes \<Rightarrow> bytes \<Rightarrow> (bytes \<times> bytes) res" where
  "generate_rsa_keypair C entropy password =
     (if password = [] then Inl ValueError else Inr (new_rsa_key C entropy password))"

text \<open>\<open>except (ValueError, TypeError)\<close>, then the check that the key is RSA.\<close>

definition rsa_key_of :: "pem_load \<Rightarrow> nat res" where
  "rsa_key_of l = (case l of
     LoadFails e \<Rightarrow> Inl (if is_ValueError e \<or> e = TypeError then CryptoError else e)
   | OtherKey \<Rightarrow> Inl CryptoError
   | RsaKey k \<Rightarrow> Inr k)"

definition load_private :: "crypto \<Rightarrow> bytes \<Rightarrow> bytes \<Rightarrow> nat res" where
  "load_private C pem password = rsa_key_of (load_pem_private_key C pem password)"

definition load_public :: "crypto \<Rightarrow> bytes \<Rightarrow> nat res" where
  "load_public C pem = rsa_key_of (load_pem_public_key C pem)"

definition rsa_sign :: "crypto \<Rightarrow> bytes \<Rightarrow> bytes \<Rightarrow> bytes \<Rightarrow> bytes \<Rightarrow> bytes res" where
  "rsa_sign C salt private_pem password data =
     rbind (load_private C private_pem password) (\<lambda>key.
       some_or ValueError (pss_sign C key salt data))"

definition rsa_verify :: "crypto \<Rightarrow> bytes \<Rightarrow> bytes \<Rightarrow> bytes \<Rightarrow> bool res" where
  "rsa_verify C public_pem data signature =
     rbind (load_public C public_pem) (\<lambda>key. Inr (pss_verify C key signature data))"

definition rsa_oaep_encrypt :: "crypto \<Rightarrow> bytes \<Rightarrow> bytes \<Rightarrow> bytes \<Rightarrow> bytes res" where
  "rsa_oaep_encrypt C seed public_pem data =
     rbind (load_public C public_pem) (\<lambda>key. some_or ValueError (oaep_encrypt C key seed data))"

definition rsa_oaep_decrypt :: "crypto \<Rightarrow> bytes \<Rightarrow> bytes \<Rightarrow> bytes \<Rightarrow> bytes res" where
  "rsa_oaep_decrypt C private_pem password data =
     rbind (load_private C private_pem password) (\<lambda>key.
       some_or CryptoError (oaep_decrypt C key data))"

section \<open>AES-GCM and HKDF\<close>

definition aes_gcm_encrypt :: "crypto \<Rightarrow> bytes \<Rightarrow> bytes \<Rightarrow> bytes \<Rightarrow> bytes \<Rightarrow> (bytes \<times> bytes) res" where
  "aes_gcm_encrypt C nonce key plaintext aad =
     (if length key \<noteq> AES_KEY_BYTES then Inl ValueError
      else Inr (nonce, gcm_encrypt C key nonce plaintext aad))"

definition aes_gcm_decrypt :: "crypto \<Rightarrow> bytes \<Rightarrow> bytes \<Rightarrow> bytes \<Rightarrow> bytes \<Rightarrow> bytes res" where
  "aes_gcm_decrypt C key nonce ciphertext aad =
     (if length key \<noteq> AES_KEY_BYTES then Inl ValueError
      else if length nonce \<noteq> AES_NONCE_BYTES then Inl ValueError
      else some_or CryptoError (gcm_decrypt C key nonce ciphertext aad))"

text \<open>\<open>HKDF\<close> itself refuses more than 255 blocks of output.\<close>

definition hkdf_derive :: "crypto \<Rightarrow> bytes \<Rightarrow> bytes \<Rightarrow> bytes \<Rightarrow> int \<Rightarrow> bytes res" where
  "hkdf_derive C ikm salt info len =
     (if len \<le> 0 then Inl ValueError
      else if 255 * 32 < len then Inl ValueError
      else Inr (hkdf_sha256 C ikm salt info (nat len)))"

section \<open>Per-file encryption (\<open>file_crypto.py\<close>, \<open>key_wrap.py\<close>)\<close>

text \<open>\<open>f"{file_id}|{sender}|{recipient}".encode()\<close>\<close>

definition file_aad :: "pystr \<Rightarrow> pystr \<Rightarrow> pystr \<Rightarrow> bytes res" where
  "file_aad file_id sender recipient =
     utf8_encode (file_id @ lit ''|'' @ sender @ lit ''|'' @ recipient)"

definition encrypt_file_blob ::
    "crypto \<Rightarrow> bytes \<Rightarrow> bytes \<Rightarrow> bytes \<Rightarrow> pystr \<Rightarrow> pystr \<Rightarrow> pystr \<Rightarrow> (bytes \<times> bytes \<times> bytes) res" where
  "encrypt_file_blob C aes_key nonce plaintext file_id sender recipient =
     rbind (file_aad file_id sender recipient) (\<lambda>aad.
     rbind (aes_gcm_encrypt C nonce aes_key plaintext aad) (\<lambda>(n, ct). Inr (n, ct, aes_key)))"

definition decrypt_file_blob ::
    "crypto \<Rightarrow> bytes \<Rightarrow> bytes \<Rightarrow> bytes \<Rightarrow> pystr \<Rightarrow> pystr \<Rightarrow> pystr \<Rightarrow> bytes res" where
  "decrypt_file_blob C aes_key nonce ciphertext file_id sender recipient =
     rbind (file_aad file_id sender recipient) (\<lambda>aad.
       aes_gcm_decrypt C aes_key nonce ciphertext aad)"

text \<open>\<open>cert["public_key_pem"].encode("ascii")\<close>\<close>

definition cert_pem :: "jdict \<Rightarrow> bytes res" where
  "cert_pem cert =
     rbind (jitem cert (lit ''public_key_pem'')) (\<lambda>v.
     rbind (some_or AttributeError (as_str v)) ascii_encode)"

definition wrap_aes_key_for :: "crypto \<Rightarrow> bytes \<Rightarrow> jdict \<Rightarrow> bytes \<Rightarrow> bytes res" where
  "wrap_aes_key_for C seed recipient_cert aes_key =
     (if length aes_key \<noteq> AES_KEY_BYTES then Inl ValueError
      else rbind (cert_pem recipient_cert) (\<lambda>pem. rsa_oaep_encrypt C seed pem aes_key))"

definition unwrap_aes_key :: "crypto \<Rightarrow> bytes \<Rightarrow> bytes \<Rightarrow> bytes \<Rightarrow> bytes res" where
  "unwrap_aes_key C my_priv_pem my_password wrapped = rsa_oaep_decrypt C my_priv_pem my_password wrapped"

section \<open>The handshake transcript (\<open>transcript.py\<close>)\<close>

definition NONCE_BYTES :: nat where
  "NONCE_BYTES = 16"

definition build_transcript_hash :: "bytes \<Rightarrow> bytes \<Rightarrow> bytes \<Rightarrow> bytes res" where
  "build_transcript_hash nonce_c nonce_s pre_master_ct =
     (if length nonce_c \<noteq> NONCE_BYTES then Inl ValueError
      else if length nonce_s \<noteq> NONCE_BYTES then Inl ValueError
      else if pre_master_ct = [] then Inl ValueError
      else Inr (sha256 (nonce_c @ nonce_s @ pre_master_ct)))"

section \<open>Lemmas\<close>

lemma rsa_key_of_Inr [simp]: "rsa_key_of l = Inr k \<longleftrightarrow> l = RsaKey k"
  by (cases l) (simp_all add: rsa_key_of_def)

lemma rsa_verify_Inr_iff:
  "rsa_verify C pem d s = Inr b \<longleftrightarrow>
     (\<exists>k. load_pem_public_key C pem = RsaKey k \<and> b = pss_verify C k s d)"
  by (auto simp: rsa_verify_def load_public_def rbind_Inr_iff)

lemma rsa_sign_Inr_iff:
  "rsa_sign C salt pem pw d = Inr s \<longleftrightarrow>
     (\<exists>k. load_pem_private_key C pem pw = RsaKey k \<and> pss_sign C k salt d = Some s)"
  by (auto simp: rsa_sign_def load_private_def rbind_Inr_iff)

lemma rsa_verify_signed:
  assumes "pss_correct C" "rsa_sign C salt priv pw d = Inr s"
    and "load_pem_private_key C priv pw = RsaKey k" "load_pem_public_key C pub = RsaKey k"
  shows "rsa_verify C pub d s = Inr True"
  using assms by (auto simp: rsa_sign_Inr_iff rsa_verify_Inr_iff pss_correct_def)

lemma cert_pem_Inr_iff:
  "cert_pem cert = Inr pem \<longleftrightarrow>
     (\<exists>s. map_of cert (lit ''public_key_pem'') = Some (JStr s) \<and> ascii_encode s = Inr pem)"
  by (auto simp: cert_pem_def jitem_def rbind_Inr_iff)

text \<open>
  A field separator that does not occur in the fields splits uniquely: the AAD of two
  routings is the same only for the same routing.
\<close>

lemma append_sep_inject:
  assumes "a @ c # b = a' @ c # b'" "c \<notin> set a" "c \<notin> set a'"
  shows "a = a' \<and> b = b'"
  using assms
proof (induction a arbitrary: a')
  case Nil
  then show ?case by (cases a') auto
next
  case (Cons x a)
  then show ?case by (cases a') auto
qed

definition bar_free :: "pystr \<Rightarrow> bool" where
  "bar_free s \<longleftrightarrow> 124 \<notin> set s"

lemma file_aad_inject:
  assumes "file_aad f s r = Inr bs" "file_aad f' s' r' = Inr bs"
    and "bar_free f" "bar_free f'" "bar_free s" "bar_free s'"
  shows "f = f' \<and> s = s' \<and> r = r'"
proof -
  have "f @ 124 # s @ 124 # r = f' @ 124 # s' @ 124 # r'"
    using utf8_encode_inject [OF assms(1,2) [unfolded file_aad_def]] by (simp add: lit_def)
  then show ?thesis
    using append_sep_inject [of f 124] append_sep_inject [of s 124] assms(3-6)
    unfolding bar_free_def by blast
qed

lemma decrypt_encrypted_blob:
  assumes "gcm_correct C" "length nonce = AES_NONCE_BYTES"
    and "encrypt_file_blob C key nonce m f s r = Inr (n, ct, key')"
  shows "decrypt_file_blob C key' n ct f s r = Inr m"
  using assms
  by (auto simp: encrypt_file_blob_def decrypt_file_blob_def aes_gcm_encrypt_def aes_gcm_decrypt_def
      gcm_correct_def rbind_Inr_iff AES_KEY_BYTES_def AES_NONCE_BYTES_def split: if_splits)

lemma unwrap_wrapped:
  assumes "oaep_correct C" "wrap_aes_key_for C seed cert key = Inr w" "cert_pem cert = Inr pem"
    and "load_pem_public_key C pem = RsaKey k" "load_pem_private_key C priv pw = RsaKey k"
  shows "unwrap_aes_key C priv pw w = Inr key"
  using assms
  by (auto simp: wrap_aes_key_for_def unwrap_aes_key_def rsa_oaep_encrypt_def rsa_oaep_decrypt_def
      load_public_def load_private_def oaep_correct_def rsa_key_of_def rbind_Inr_iff split: if_splits)

lemma transcript_inputs_unique:
  assumes "length c = 16" "length c' = 16" "length s = 16" "length s' = 16"
    and "c @ s @ ct = c' @ s' @ (ct' :: bytes)"
  shows "c = c' \<and> s = s' \<and> ct = ct'"
  using assms by (metis append_eq_append_conv)

section \<open>An instance of the library\<close>

text \<open>
  For evaluating the model on examples: the signature of \<open>m\<close> under key \<open>k\<close> is the
  message and the key, so it is correct and it binds both; a PEM is one byte (its key's
  number) and any password opens it.
\<close>

definition plain_crypto :: crypto where
  "plain_crypto = \<lparr>
     load_pem_private_key = (\<lambda>pem pw. case pem of [b] \<Rightarrow> RsaKey (unat b) | _ \<Rightarrow> LoadFails ValueError),
     load_pem_public_key = (\<lambda>pem. case pem of [b] \<Rightarrow> RsaKey (unat b) | _ \<Rightarrow> LoadFails ValueError),
     pss_sign = (\<lambda>k salt m. Some (b8 k # m)),
     pss_verify = (\<lambda>k s m. s = b8 k # m),
     oaep_encrypt = (\<lambda>k seed m. if length m \<le> 190 then Some (b8 k # m) else None),
     oaep_decrypt = (\<lambda>k c. case c of [] \<Rightarrow> None | b # m \<Rightarrow> if b = b8 k then Some m else None),
     gcm_encrypt = (\<lambda>k n m a. k @ n @ pack_length (length a) @ a @ m),
     gcm_decrypt = (\<lambda>k n c a.
       let h = k @ n @ pack_length (length a) @ a in
       if take (length h) c = h then Some (drop (length h) c) else None),
     hkdf_sha256 = (\<lambda>ikm salt info len. take len (concat (replicate len (ikm @ salt @ info @ [0])))),
     new_rsa_key = (\<lambda>e pw. (take 1 (e @ [0]), take 1 (e @ [0])))\<rparr>"

lemma plain_crypto_correct: "pss_correct plain_crypto" "oaep_correct plain_crypto" "gcm_correct plain_crypto"
  by (auto simp: plain_crypto_def pss_correct_def oaep_correct_def gcm_correct_def split: if_splits)

text \<open>The AAD as the server checks its parts: a file id and a recipient without bars.\<close>

lemma file_aad_inject_ends:
  assumes "file_aad f s r = Inr bs" "file_aad f' s' r' = Inr bs"
    and "bar_free f" "bar_free f'" "bar_free r" "bar_free r'"
  shows "f = f' \<and> s = s' \<and> r = r'"
proof -
  have "f @ 124 # s @ 124 # r = f' @ 124 # s' @ 124 # r'"
    using utf8_encode_inject [OF assms(1,2) [unfolded file_aad_def]] by (simp add: lit_def)
  then have f: "f = f'" "s @ 124 # r = s' @ 124 # r'"
    using append_sep_inject [of f 124 "s @ 124 # r" f'] assms(3,4) unfolding bar_free_def by blast+
  from f(2) have "rev r @ 124 # rev s = rev r' @ 124 # rev s'" by (metis rev_append rev.simps(2) append_assoc append_Cons append_Nil)
  then have "rev r = rev r' \<and> rev s = rev s'"
    by (rule append_sep_inject) (use assms(5,6) in \<open>simp_all add: bar_free_def\<close>)
  with f(1) show ?thesis by simp
qed

end
