(* ===== verification/Cert.thy ===== *)
theory Cert
  imports Crypto
begin

text \<open>
  \<open>ca/cert.py\<close>: certificates as JSON objects, issued and verified over their canonical
  JSON without the signature.  The clock, the serial number and the PSS salt are
  arguments.
\<close>

definition ISSUER_NAME :: pystr where
  "ISSUER_NAME = lit ''ZeroTrustCA''"

definition strip_signature :: "jdict \<Rightarrow> jdict" where
  "strip_signature cert = filter (\<lambda>(k, v). k \<noteq> lit ''signature'') cert"

definition unsigned_cert :: "pystr \<Rightarrow> pystr \<Rightarrow> int \<Rightarrow> int \<Rightarrow> pystr \<Rightarrow> jdict" where
  "unsigned_cert subject pem now validity_days serial =
     [(lit ''subject'', JStr subject),
      (lit ''public_key_pem'', JStr pem),
      (lit ''issuer'', JStr ISSUER_NAME),
      (lit ''valid_from'', JInt now),
      (lit ''valid_until'', JInt (now + validity_days * 86400)),
      (lit ''serial'', JStr serial)]"

definition issue_certificate ::
    "crypto \<Rightarrow> int \<Rightarrow> pystr \<Rightarrow> bytes \<Rightarrow> pystr \<Rightarrow> bytes \<Rightarrow> bytes \<Rightarrow> bytes \<Rightarrow> int \<Rightarrow> jdict res" where
  "issue_certificate C now serial salt subject subject_pubkey_pem ca_priv_pem ca_password validity_days =
     (if subject = [] then Inl ValueError
      else if validity_days \<le> 0 then Inl ValueError
      else
        rbind (ascii_decode subject_pubkey_pem) (\<lambda>pem.
        let cert = unsigned_cert subject pem now validity_days serial in
        rbind (canonical_json (JObj cert)) (\<lambda>body.
        rbind (rsa_sign C salt ca_priv_pem ca_password body) (\<lambda>sig.
          Inr (jput (lit ''signature'') (JStr (b64encode sig)) cert)))))"

definition cert_fields :: "pystr list" where
  "cert_fields = map lit [''subject'', ''public_key_pem'', ''issuer'', ''valid_from'',
     ''valid_until'', ''serial'', ''signature'']"

text \<open>
  \<open>a <= b\<close> of a number of the certificate and the clock.  Anything but a number raises;
  a float is its decimal value, an infinity is above or below every integer and a NaN
  compares with nothing.
\<close>

definition float_le_int :: "pyfloat \<Rightarrow> int \<Rightarrow> bool" where
  "float_le_int f n = (case f of
     FNaN \<Rightarrow> False
   | FInf neg \<Rightarrow> neg
   | FDec neg m e \<Rightarrow>
       (let v = (if neg then - int m else int m) in
        if 0 \<le> e then v * 10 ^ nat e \<le> n else v \<le> n * 10 ^ nat (- e)))"

definition int_le_float :: "int \<Rightarrow> pyfloat \<Rightarrow> bool" where
  "int_le_float n f = (case f of
     FNaN \<Rightarrow> False
   | FInf neg \<Rightarrow> \<not> neg
   | FDec neg m e \<Rightarrow>
       (let v = (if neg then - int m else int m) in
        if 0 \<le> e then n \<le> v * 10 ^ nat e else n * 10 ^ nat (- e) \<le> v))"

primrec json_le_int :: "json \<Rightarrow> int \<Rightarrow> bool res" where
  "json_le_int JNull n = Inl TypeError"
| "json_le_int (JBool b) n = Inr (of_bool b \<le> n)"
| "json_le_int (JInt i) n = Inr (i \<le> n)"
| "json_le_int (JFloat f) n = Inr (float_le_int f n)"
| "json_le_int (JStr s) n = Inl TypeError"
| "json_le_int (JArr xs) n = Inl TypeError"
| "json_le_int (JObj kvs) n = Inl TypeError"

primrec int_le_json :: "int \<Rightarrow> json \<Rightarrow> bool res" where
  "int_le_json n JNull = Inl TypeError"
| "int_le_json n (JBool b) = Inr (n \<le> of_bool b)"
| "int_le_json n (JInt i) = Inr (n \<le> i)"
| "int_le_json n (JFloat f) = Inr (int_le_float n f)"
| "int_le_json n (JStr s) = Inl TypeError"
| "int_le_json n (JArr xs) = Inl TypeError"
| "int_le_json n (JObj kvs) = Inl TypeError"

text \<open>\<open>cert["valid_from"] <= now <= cert["valid_until"]\<close>, the second half only when the
  first holds.\<close>

definition in_validity :: "jdict \<Rightarrow> int \<Rightarrow> bool res" where
  "in_validity cert now =
     rbind (json_le_int (jget cert (lit ''valid_from'')) now) (\<lambda>b.
       if b then int_le_json now (jget cert (lit ''valid_until'')) else Inr False)"

text \<open>
  \<open>expected = None\<close> is \<open>expected_subject is None\<close>; an expected subject that is itself
  JSON \<open>null\<close> is also \<open>None\<close> in Python, which \<open>expected_of\<close> says for the callers that
  pass a JSON value.
\<close>

definition expected_of :: "json \<Rightarrow> json option" where
  "expected_of v = (if v = JNull then None else Some v)"

definition verify_certificate :: "crypto \<Rightarrow> int \<Rightarrow> json \<Rightarrow> bytes \<Rightarrow> json option \<Rightarrow> bool res" where
  "verify_certificate C now cert_value ca_pubkey_pem expected =
     (case as_dict cert_value of
        None \<Rightarrow> Inr False
      | Some cert \<Rightarrow>
          if \<not> list_all (\<lambda>k. map_of cert k \<noteq> None) cert_fields then Inr False
          else
            (case b64_field (jget cert (lit ''signature'')) of
               None \<Rightarrow> Inr False
             | Some sig \<Rightarrow>
                 rbind (canonical_json (JObj (strip_signature cert))) (\<lambda>body.
                 rbind (rsa_verify C ca_pubkey_pem body sig) (\<lambda>good.
                   if \<not> good then Inr False
                   else rbind (in_validity cert now) (\<lambda>ok.
                     if \<not> ok then Inr False
                     else (case expected of
                         None \<Rightarrow> Inr True
                       | Some subject \<Rightarrow>
                           Inr (py_eq (jget cert (lit ''subject'')) subject)))))))"

section \<open>What a verified certificate is\<close>

text \<open>The certificate \<open>cert\<close> carries a signature of the CA key over its other fields.\<close>

definition ca_signed :: "crypto \<Rightarrow> bytes \<Rightarrow> jdict \<Rightarrow> bool" where
  "ca_signed C ca_pubkey_pem cert \<longleftrightarrow>
     (\<exists>sig body k. b64_field (jget cert (lit ''signature'')) = Some sig
        \<and> canonical_json (JObj (strip_signature cert)) = Inr body
        \<and> load_pem_public_key C ca_pubkey_pem = RsaKey k \<and> pss_verify C k sig body)"

lemma verify_certificate_iff:
  "verify_certificate C now v ca expected = Inr True \<longleftrightarrow>
     (\<exists>cert. v = JObj cert \<and> list_all (\<lambda>k. map_of cert k \<noteq> None) cert_fields
        \<and> ca_signed C ca cert \<and> in_validity cert now = Inr True
        \<and> (\<forall>s. expected = Some s \<longrightarrow> py_eq (jget cert (lit ''subject'')) s))"
  unfolding verify_certificate_def ca_signed_def
  by (auto simp: rbind_Inr_iff rsa_verify_Inr_iff split: option.splits if_splits)

lemma in_validity_True:
  "in_validity cert now = Inr True \<longleftrightarrow>
     json_le_int (jget cert (lit ''valid_from'')) now = Inr True
     \<and> int_le_json now (jget cert (lit ''valid_until'')) = Inr True"
  by (auto simp: in_validity_def rbind_Inr_iff split: if_splits)

lemma strip_signature_jput:
  "lit ''signature'' \<notin> set (map fst d) \<Longrightarrow>
     strip_signature (jput (lit ''signature'') v d) = d"
  by (induction d) (auto simp: strip_signature_def)

text \<open>An issued certificate verifies, for the subject it was issued to, through its last
  second.\<close>

lemma verify_issued:
  assumes i: "issue_certificate C now serial salt subject pem ca_priv pw days = Inr cert"
    and c: "pss_correct C" "load_pem_private_key C ca_priv pw = RsaKey k"
      "load_pem_public_key C ca_pub = RsaKey k"
  shows "verify_certificate C t (JObj cert) ca_pub (Some (JStr s)) =
    Inr (now \<le> t \<and> t \<le> now + days * 86400 \<and> s = subject)"
proof -
  obtain p body sig where
      d: "ascii_decode pem = Inr p"
        "canonical_json (JObj (unsigned_cert subject p now days serial)) = Inr body"
        "rsa_sign C salt ca_priv pw body = Inr sig"
      and cert: "cert = jput (lit ''signature'') (JStr (b64encode sig)) (unsigned_cert subject p now days serial)"
    using i by (auto simp: issue_certificate_def rbind_Inr_iff Let_def split: if_splits)
  have strip: "strip_signature cert = unsigned_cert subject p now days serial"
    unfolding cert by (rule strip_signature_jput) (simp add: unsigned_cert_def)
  have v: "rsa_verify C ca_pub body sig = Inr True"
    using c(1) d(3) c(2,3) by (rule rsa_verify_signed)
  have sig: "b64_field (jget cert (lit ''signature'')) = Some sig"
    by (simp add: cert jget_def map_of_jput b64_field_def)
  have fields: "list_all (\<lambda>k. map_of cert k \<noteq> None) cert_fields"
    by (simp add: cert map_of_jput cert_fields_def unsigned_cert_def)
  have get: "jget cert (lit ''valid_from'') = JInt now"
      "jget cert (lit ''valid_until'') = JInt (now + days * 86400)"
      "jget cert (lit ''subject'') = JStr subject"
    by (simp_all add: cert jget_def map_of_jput unsigned_cert_def)
  have p: "py_eq (JStr subject) (JStr s) \<longleftrightarrow> s = subject" by auto
  show ?thesis
    unfolding verify_certificate_def
    by (simp add: fields sig strip d(2) v in_validity_def get p del: not_None_eq) auto
qed

text \<open>
  The ways \<open>verify_certificate\<close> raises: the body has no UTF-8 form (a lone surrogate in
  any of its strings), the CA key does not load, or a validity bound is not a number.
\<close>

lemma verify_certificate_raises:
  assumes "verify_certificate C now v ca expected = Inl e"
  obtains cert where "v = JObj cert"
    "canonical_json (JObj (strip_signature cert)) = Inl e \<or> load_public C ca = Inl e
      \<or> e = TypeError"
proof -
  obtain cert where v: "v = JObj cert"
    using assms by (cases v) (auto simp: verify_certificate_def)
  have le: "json_le_int x n = Inl e \<Longrightarrow> e = TypeError" "int_le_json n x = Inl e \<Longrightarrow> e = TypeError" for x n
    by (cases x; simp)+
  have "canonical_json (JObj (strip_signature cert)) = Inl e \<or> load_public C ca = Inl e
      \<or> e = TypeError"
    using assms unfolding v verify_certificate_def in_validity_def rsa_verify_def
    by (auto simp: rbind_Inl_iff simp del: not_None_eq dest: le split: option.splits if_splits)
  then show thesis by (rule that [OF v])
qed

end
