(* ===== verification/Origin.thy ===== *)
theory Origin
  imports Cert
begin

text \<open>
  The three structs that are signed over their canonical JSON: the origin of a file
  (\<open>common/origin.py\<close>), a revocation (\<open>common/revoke.py\<close>) and the acknowledgement of a
  download (inline in \<open>server/handler.py\<close> and \<open>client/download.py\<close>).
\<close>

section \<open>The structs\<close>

text \<open>
  The arguments are JSON values because the server passes what the peer sent; the
  type checks are the callers'.
\<close>

definition origin_struct ::
    "json \<Rightarrow> json \<Rightarrow> json \<Rightarrow> pystr \<Rightarrow> pystr \<Rightarrow> json \<Rightarrow> json \<Rightarrow> json" where
  "origin_struct sender recipient file_id ciphertext_sha256 wrapped_key_sha256 timestamp expiration =
     JObj [(lit ''sender'', sender),
           (lit ''recipient'', recipient),
           (lit ''file_id'', file_id),
           (lit ''ciphertext_sha256'', JStr ciphertext_sha256),
           (lit ''wrapped_key_sha256'', JStr wrapped_key_sha256),
           (lit ''timestamp'', timestamp),
           (lit ''expiration'', expiration)]"

definition REVOKE_ACTION :: pystr where
  "REVOKE_ACTION = lit ''revoke''"

definition revoke_struct :: "json \<Rightarrow> json \<Rightarrow> json \<Rightarrow> json" where
  "revoke_struct sender file_id timestamp =
     JObj [(lit ''action'', JStr REVOKE_ACTION),
           (lit ''file_id'', file_id),
           (lit ''sender'', sender),
           (lit ''timestamp'', timestamp)]"

definition ack_struct :: "json \<Rightarrow> json \<Rightarrow> json" where
  "ack_struct file_id timestamp =
     JObj [(lit ''file_id'', file_id),
           (lit ''status'', JStr (lit ''received'')),
           (lit ''timestamp'', timestamp)]"

section \<open>Signing and verifying\<close>

definition sign_struct :: "crypto \<Rightarrow> bytes \<Rightarrow> bytes \<Rightarrow> bytes \<Rightarrow> json \<Rightarrow> bytes res" where
  "sign_struct C salt priv password struct =
     rbind (canonical_json struct) (\<lambda>canonical. rsa_sign C salt priv password canonical)"

definition sign_origin_struct ::
    "crypto \<Rightarrow> bytes \<Rightarrow> bytes \<Rightarrow> bytes \<Rightarrow> pystr \<Rightarrow> pystr \<Rightarrow> pystr \<Rightarrow> pystr \<Rightarrow> pystr \<Rightarrow> int \<Rightarrow> int \<Rightarrow> bytes res" where
  "sign_origin_struct C salt sender_priv password sender recipient file_id
       ciphertext_sha256 wrapped_key_sha256 timestamp expiration =
     sign_struct C salt sender_priv password
       (origin_struct (JStr sender) (JStr recipient) (JStr file_id)
         ciphertext_sha256 wrapped_key_sha256 (JInt timestamp) (JInt expiration))"

definition sign_revoke_struct ::
    "crypto \<Rightarrow> bytes \<Rightarrow> bytes \<Rightarrow> bytes \<Rightarrow> pystr \<Rightarrow> pystr \<Rightarrow> int \<Rightarrow> bytes res" where
  "sign_revoke_struct C salt sender_priv password sender file_id timestamp =
     sign_struct C salt sender_priv password
       (revoke_struct (JStr sender) (JStr file_id) (JInt timestamp))"

text \<open>\<open>cert["public_key_pem"].encode("ascii")\<close> of a certificate that need not be a
  dictionary.\<close>

definition cert_value_pem :: "json \<Rightarrow> bytes res" where
  "cert_value_pem cert = rbind (some_or TypeError (as_dict cert)) cert_pem"

definition verify_struct :: "crypto \<Rightarrow> json \<Rightarrow> bytes \<Rightarrow> json \<Rightarrow> bool res" where
  "verify_struct C cert signature struct =
     rbind (cert_value_pem cert) (\<lambda>pem.
     rbind (canonical_json struct) (\<lambda>canonical. rsa_verify C pem canonical signature))"

text \<open>\<open>except (AttributeError, KeyError, TypeError, UnicodeEncodeError, CryptoError):
  return False\<close>\<close>

definition fail_closed :: "bool res \<Rightarrow> bool res" where
  "fail_closed r = (case r of
     Inr b \<Rightarrow> Inr b
   | Inl e \<Rightarrow>
       if e \<in> {AttributeError, KeyError, TypeError, UnicodeEncodeError, CryptoError} then Inr False
       else Inl e)"

definition verify_origin_struct ::
    "crypto \<Rightarrow> json \<Rightarrow> bytes \<Rightarrow> json \<Rightarrow> json \<Rightarrow> json \<Rightarrow> pystr \<Rightarrow> pystr \<Rightarrow> json \<Rightarrow> json \<Rightarrow> bool res" where
  "verify_origin_struct C sender_cert signature sender recipient file_id
       ciphertext_sha256 wrapped_key_sha256 timestamp expiration =
     fail_closed (verify_struct C sender_cert signature
       (origin_struct sender recipient file_id ciphertext_sha256 wrapped_key_sha256 timestamp expiration))"

definition verify_revoke_struct :: "crypto \<Rightarrow> json \<Rightarrow> bytes \<Rightarrow> json \<Rightarrow> json \<Rightarrow> json \<Rightarrow> bool res" where
  "verify_revoke_struct C sender_cert signature sender file_id timestamp =
     fail_closed (verify_struct C sender_cert signature (revoke_struct sender file_id timestamp))"

section \<open>Verification means a signature of the certified key\<close>

text \<open>\<open>signature\<close> verifies over the canonical bytes of \<open>struct\<close> under the certified key.\<close>

definition signed_by :: "crypto \<Rightarrow> json \<Rightarrow> bytes \<Rightarrow> json \<Rightarrow> bool" where
  "signed_by C cert signature struct \<longleftrightarrow>
     (\<exists>pem k bs. cert_value_pem cert = Inr pem \<and> load_pem_public_key C pem = RsaKey k
        \<and> canonical_json struct = Inr bs \<and> pss_verify C k signature bs)"

lemma verify_struct_True: "verify_struct C cert sig st = Inr True \<longleftrightarrow> signed_by C cert sig st"
  by (auto simp: verify_struct_def signed_by_def rbind_Inr_iff rsa_verify_Inr_iff)

lemma fail_closed_True [simp]: "fail_closed r = Inr True \<longleftrightarrow> r = Inr True"
  by (auto simp: fail_closed_def split: sum.splits)

lemma verify_origin_struct_True:
  "verify_origin_struct C cert sig s r f ct wk ts ex = Inr True \<longleftrightarrow>
     signed_by C cert sig (origin_struct s r f ct wk ts ex)"
  by (simp add: verify_origin_struct_def verify_struct_True)

lemma verify_revoke_struct_True:
  "verify_revoke_struct C cert sig s f ts = Inr True \<longleftrightarrow> signed_by C cert sig (revoke_struct s f ts)"
  by (simp add: verify_revoke_struct_def verify_struct_True)

text \<open>Only an unsupported key algorithm escapes the handler of \<open>fail_closed\<close>.\<close>

lemma canonical_json_raises: "canonical_json v = Inl e \<Longrightarrow> e = UnicodeEncodeError"
  by (auto simp: canonical_json_def utf8_encode_def some_or_def split: option.splits)

lemma cert_value_pem_raises:
  "cert_value_pem c = Inl e \<Longrightarrow> e \<in> {TypeError, KeyError, AttributeError, UnicodeEncodeError}"
  by (auto simp: cert_value_pem_def cert_pem_def jitem_def rbind_def some_or_def ascii_encode_def
      split: sum.splits option.splits if_splits)

lemma verify_struct_fails_closed:
  assumes "\<forall>pem. case load_pem_public_key C pem of LoadFails e \<Rightarrow> is_ValueError e \<or> e = TypeError | _ \<Rightarrow> True"
  shows "\<exists>b. fail_closed (verify_struct C cert sig st) = Inr b"
proof (cases "verify_struct C cert sig st")
  case (Inr b)
  then show ?thesis by (simp add: fail_closed_def)
next
  case (Inl e)
  have l: "load_public C pem = Inl e' \<Longrightarrow> e' = CryptoError" for pem e'
    using assms [THEN spec, of pem]
    by (auto simp: load_public_def rsa_key_of_def split: pem_load.splits if_splits)
  have "e \<in> {AttributeError, KeyError, TypeError, UnicodeEncodeError, CryptoError}"
    using Inl
    by (auto simp: verify_struct_def rsa_verify_def rbind_def
        dest!: cert_value_pem_raises canonical_json_raises l split: sum.splits)
  with Inl have "fail_closed (verify_struct C cert sig st) = Inr False"
    by (simp add: fail_closed_def)
  then show ?thesis ..
qed

section \<open>Canonical bytes determine the struct\<close>

lemma wf_origin_struct:
  "wf_json (origin_struct s r f ct wk ts ex) \<longleftrightarrow>
     wf_json s \<and> wf_json r \<and> wf_json f \<and> wf_str ct \<and> wf_str wk \<and> wf_json ts \<and> wf_json ex"
  by (auto simp: origin_struct_def)

lemma wf_revoke_struct: "wf_json (revoke_struct s f ts) \<longleftrightarrow> wf_json s \<and> wf_json f \<and> wf_json ts"
  by (auto simp: revoke_struct_def REVOKE_ACTION_def)

lemma wf_ack_struct: "wf_json (ack_struct f ts) \<longleftrightarrow> wf_json f \<and> wf_json ts"
  by (auto simp: ack_struct_def)

text \<open>The keys of an object's canonical form are those of the object.\<close>

primrec obj_keys :: "json \<Rightarrow> pystr multiset" where
  "obj_keys JNull = {#}"
| "obj_keys (JBool b) = {#}"
| "obj_keys (JInt i) = {#}"
| "obj_keys (JFloat f) = {#}"
| "obj_keys (JStr s) = {#}"
| "obj_keys (JArr xs) = {#}"
| "obj_keys (JObj kvs) = mset (map fst kvs)"

lemma obj_keys_sort_keys [simp]: "obj_keys (sort_keys x) = obj_keys x"
  by (cases x) (simp_all add: multiset.map_comp comp_def)

definition obj_at :: "pystr \<Rightarrow> json \<Rightarrow> json option" where
  "obj_at k v = Option.bind (as_dict v) (\<lambda>d. map_of d k)"

lemma map_of_sort_key:
  assumes "distinct (map fst d)" shows "map_of (sort_key fst d) k = map_of d k"
proof -
  have "map_of (sort_key fst d) = map_of d"
    using assms by (intro map_of_inject_set [THEN iffD2]) (simp_all add: distinct_sort_key_fst)
  then show ?thesis by simp
qed

lemma obj_at_sort_keys:
  assumes "distinct (map fst d)"
  shows "obj_at k (sort_keys (JObj d)) = map_option sort_keys (map_of d k)"
proof -
  have "map_of (map (map_prod id sort_keys) d) k = map_option sort_keys (map_of d k)"
    by (induction d) auto
  then show ?thesis using assms by (simp add: obj_at_def map_of_sort_key)
qed

text \<open>Two objects with the same canonical bytes have the same keys and the same values at
  every key, up to the order of items inside.\<close>

lemma canonical_same:
  assumes "canonical_json x = Inr bs" "canonical_json y = Inr bs" "wf_json x" "wf_json y"
  shows "obj_keys x = obj_keys y" "obj_at k (sort_keys x) = obj_at k (sort_keys y)"
proof -
  have e: "sort_keys x = sort_keys y" using assms by (rule canonical_json_inject)
  then show "obj_at k (sort_keys x) = obj_at k (sort_keys y)" by simp
  have "obj_keys (sort_keys x) = obj_keys (sort_keys y)" by (simp add: e)
  then show "obj_keys x = obj_keys y" by simp
qed

lemma obj_at_struct:
  "wf_json (JObj d) \<Longrightarrow> obj_at k (sort_keys (JObj d)) = map_option sort_keys (map_of d k)"
  by (rule obj_at_sort_keys) simp

lemma origin_bytes_inject:
  assumes c: "canonical_json (origin_struct (JStr s) (JStr r) (JStr f) ct wk (JInt ts) (JInt ex)) = Inr bs"
      "canonical_json (origin_struct (JStr s') (JStr r') (JStr f') ct' wk' (JInt ts') (JInt ex')) = Inr bs"
    and w: "wf_json (origin_struct (JStr s) (JStr r) (JStr f) ct wk (JInt ts) (JInt ex))"
      "wf_json (origin_struct (JStr s') (JStr r') (JStr f') ct' wk' (JInt ts') (JInt ex'))"
  shows "(s, r, f, ct, wk, ts, ex) = (s', r', f', ct', wk', ts', ex')"
proof -
  note at = canonical_same(2) [OF c w, unfolded origin_struct_def obj_at_struct [OF w(1) [unfolded origin_struct_def]]
      obj_at_struct [OF w(2) [unfolded origin_struct_def]]]
  show ?thesis
    using at [of "lit ''sender''"] at [of "lit ''recipient''"] at [of "lit ''file_id''"]
      at [of "lit ''ciphertext_sha256''"] at [of "lit ''wrapped_key_sha256''"]
      at [of "lit ''timestamp''"] at [of "lit ''expiration''"]
    by simp
qed

lemma revoke_bytes_inject:
  assumes c: "canonical_json (revoke_struct (JStr s) (JStr f) (JInt ts)) = Inr bs"
      "canonical_json (revoke_struct (JStr s') (JStr f') (JInt ts')) = Inr bs"
    and w: "wf_json (revoke_struct (JStr s) (JStr f) (JInt ts))"
      "wf_json (revoke_struct (JStr s') (JStr f') (JInt ts'))"
  shows "(s, f, ts) = (s', f', ts')"
proof -
  note at = canonical_same(2) [OF c w, unfolded revoke_struct_def obj_at_struct [OF w(1) [unfolded revoke_struct_def]]
      obj_at_struct [OF w(2) [unfolded revoke_struct_def]]]
  show ?thesis
    using at [of "lit ''sender''"] at [of "lit ''file_id''"] at [of "lit ''timestamp''"] by simp
qed

lemma ack_bytes_inject:
  assumes c: "canonical_json (ack_struct (JStr f) (JInt ts)) = Inr bs"
      "canonical_json (ack_struct (JStr f') (JInt ts')) = Inr bs"
    and w: "wf_json (ack_struct (JStr f) (JInt ts))" "wf_json (ack_struct (JStr f') (JInt ts'))"
  shows "(f, ts) = (f', ts')"
proof -
  note at = canonical_same(2) [OF c w, unfolded ack_struct_def obj_at_struct [OF w(1) [unfolded ack_struct_def]]
      obj_at_struct [OF w(2) [unfolded ack_struct_def]]]
  show ?thesis
    using at [of "lit ''file_id''"] at [of "lit ''timestamp''"] by simp
qed

text \<open>The objects that get signed differ in their number of keys, so no signature made for
  one kind verifies as another.\<close>

lemma obj_keys_struct:
  "size (obj_keys (origin_struct s r f ct wk ts ex)) = 7"
  "size (obj_keys (revoke_struct s f ts)) = 4"
  "size (obj_keys (ack_struct f ts)) = 3"
  "size (obj_keys (JObj (unsigned_cert sub pem now days ser))) = 6"
  by (simp_all add: origin_struct_def revoke_struct_def ack_struct_def unsigned_cert_def)

lemma canonical_kinds_differ:
  assumes "canonical_json x = Inr bs" "canonical_json y = Inr bs" "wf_json x" "wf_json y"
  shows "size (obj_keys x) = size (obj_keys y)"
  using canonical_same(1) [OF assms] by simp

section \<open>What a signature says\<close>

text \<open>The three statements a user signs, with the struct that is signed for each.\<close>

datatype statement =
    Origin pystr pystr pystr pystr pystr int int
  | Revocation pystr pystr int
  | Received pystr int

primrec struct_of :: "statement \<Rightarrow> json" where
  "struct_of (Origin s r f ct wk ts ex) = origin_struct (JStr s) (JStr r) (JStr f) ct wk (JInt ts) (JInt ex)"
| "struct_of (Revocation s f ts) = revoke_struct (JStr s) (JStr f) (JInt ts)"
| "struct_of (Received f ts) = ack_struct (JStr f) (JInt ts)"

primrec struct_size :: "statement \<Rightarrow> nat" where
  "struct_size (Origin s r f ct wk ts ex) = 7"
| "struct_size (Revocation s f ts) = 4"
| "struct_size (Received f ts) = 3"

lemma size_struct_of: "size (obj_keys (struct_of st)) = struct_size st"
  by (cases st) (simp_all add: obj_keys_struct)

text \<open>The bytes determine the statement: its kind by the number of keys, then its fields.\<close>

lemma struct_of_inject:
  assumes "canonical_json (struct_of a) = Inr bs" "canonical_json (struct_of b) = Inr bs"
    and "wf_json (struct_of a)" "wf_json (struct_of b)"
  shows "a = b"
proof -
  have "struct_size a = struct_size b"
    using canonical_kinds_differ [OF assms] by (simp add: size_struct_of)
  then show ?thesis
    using assms
    by (cases a; cases b)
      (auto dest: origin_bytes_inject revoke_bytes_inject ack_bytes_inject simp del: wf_json.simps)
qed

section \<open>A verified certificate is an issued one\<close>

lemma map_of_strip: "k \<noteq> lit ''signature'' \<Longrightarrow> map_of (strip_signature cert) k = map_of cert k"
  by (simp add: strip_signature_def map_of_filter_key)

lemma unsigned_same:
  assumes "canonical_json (JObj (strip_signature cert)) = Inr body"
    and "canonical_json (JObj (unsigned_cert subject pem now days serial)) = Inr body"
    and "wf_json (JObj (strip_signature cert))" "wf_json (JObj (unsigned_cert subject pem now days serial))"
  shows "jget cert (lit ''subject'') = JStr subject" "jget cert (lit ''public_key_pem'') = JStr pem"
    "jget cert (lit ''valid_from'') = JInt now" "jget cert (lit ''valid_until'') = JInt (now + days * 86400)"
proof -
  have e: "map_option sort_keys (map_of (strip_signature cert) k) =
      map_option sort_keys (map_of (unsigned_cert subject pem now days serial) k)" for k
    using canonical_same(2) [OF assms, of k] obj_at_struct [OF assms(3)] obj_at_struct [OF assms(4)] by simp
  have leaf: "sort_keys v = JStr s \<longleftrightarrow> v = JStr s" "sort_keys v = JInt i \<longleftrightarrow> v = JInt i" for v s i
    by (cases v; simp)+
  show "jget cert (lit ''subject'') = JStr subject" "jget cert (lit ''public_key_pem'') = JStr pem"
    "jget cert (lit ''valid_from'') = JInt now" "jget cert (lit ''valid_until'') = JInt (now + days * 86400)"
    using e [of "lit ''subject''"] e [of "lit ''public_key_pem''"] e [of "lit ''valid_from''"] e [of "lit ''valid_until''"]
    by (auto simp: map_of_strip unsigned_cert_def jget_def leaf)
qed

end
