(* ===== verification/Storage.thy ===== *)
theory Storage
  imports Json_Roundtrip
begin

text \<open>
  \<open>server/storage_layout.py\<close>, with the parts of \<open>pathlib\<close>, \<open>re\<close> and \<open>uuid\<close> it and the
  handlers use: paths, the username check and the canonical-UUID check that stand
  between a peer's strings and the file system.
\<close>

section \<open>Paths\<close>

text \<open>
  A \<open>PurePosixPath\<close>: its root (none, \<open>/\<close> or \<open>//\<close>) and its parts.  Empty parts and \<open>.\<close>
  are dropped; \<open>..\<close> is kept, as \<open>pathlib\<close> keeps it.
\<close>

datatype root = Relative | Slash | DoubleSlash

datatype path = Path (root_of: root) (parts_of: "pystr list")

text \<open>A file system, as the programs see it: the contents of the files that exist.\<close>

type_synonym filesystem = "path \<rightharpoonup> bytes"

fun split_slash :: "pystr \<Rightarrow> pystr list" where
  "split_slash [] = [[]]"
| "split_slash (c # s) =
     (if c = 47 then [] # split_slash s
      else (case split_slash s of [] \<Rightarrow> [[c]] | p # ps \<Rightarrow> (c # p) # ps))"

definition root_prefix :: "pystr \<Rightarrow> root" where
  "root_prefix s =
     (if take 1 s \<noteq> [47] then Relative
      else if take 2 s = [47, 47] \<and> take 3 s \<noteq> [47, 47, 47] then DoubleSlash else Slash)"

definition mk_path :: "pystr \<Rightarrow> path" where
  "mk_path s = Path (root_prefix s) (filter (\<lambda>p. p \<noteq> [] \<and> p \<noteq> [46]) (split_slash s))"

text \<open>\<open>p / s\<close>\<close>

definition path_join :: "path \<Rightarrow> pystr \<Rightarrow> path" where
  "path_join p s =
     (let q = mk_path s in
      if root_of q \<noteq> Relative then q else Path (root_of p) (parts_of p @ parts_of q))"

definition path_parent :: "path \<Rightarrow> path" where
  "path_parent p = Path (root_of p) (butlast (parts_of p))"

definition path_name :: "path \<Rightarrow> pystr" where
  "path_name p = (if parts_of p = [] then [] else last (parts_of p))"

text \<open>\<open>path.as_posix()\<close>, which is \<open>str(path)\<close> here\<close>

definition display_path :: "path \<Rightarrow> pystr" where
  "display_path p =
     (let body = join [47] (parts_of p) in
      case root_of p of
        Relative \<Rightarrow> (if parts_of p = [] then [46] else body)
      | Slash \<Rightarrow> 47 # body
      | DoubleSlash \<Rightarrow> 47 # 47 # body)"

section \<open>Usernames\<close>

definition username_char :: "nat \<Rightarrow> bool" where
  "username_char c \<longleftrightarrow>
     97 \<le> c \<and> c \<le> 122 \<or> 65 \<le> c \<and> c \<le> 90 \<or> 48 \<le> c \<and> c \<le> 57 \<or> c = 95 \<or> c = 45"

text \<open>\<open>re.fullmatch(r"^[a-zA-Z0-9_-]{1,32}$", username)\<close>\<close>

definition valid_username :: "json \<Rightarrow> bool" where
  "valid_username v =
     (case as_str v of
        None \<Rightarrow> False
      | Some u \<Rightarrow> 1 \<le> length u \<and> length u \<le> 32 \<and> list_all username_char u)"

section \<open>Layout\<close>

text \<open>The entries of \<open>server_state\<close> that name directories.\<close>

record layout =
  cfg_db_path :: "pystr option"
  cfg_storage_dir :: "pystr option"
  cfg_pubkeys_dir :: "pystr option"
  cfg_files_dir :: "pystr option"

definition default_db_path :: pystr where
  "default_db_path = lit ''server/storage/metadata.db''"

definition storage_dir :: "layout \<Rightarrow> path" where
  "storage_dir cfg =
     (case cfg_storage_dir cfg of
        Some d \<Rightarrow> mk_path d
      | None \<Rightarrow> path_parent (mk_path (case cfg_db_path cfg of Some p \<Rightarrow> p | None \<Rightarrow> default_db_path)))"

definition pubkeys_dir :: "layout \<Rightarrow> path" where
  "pubkeys_dir cfg =
     (case cfg_pubkeys_dir cfg of
        Some d \<Rightarrow> mk_path d
      | None \<Rightarrow> path_join (storage_dir cfg) (lit ''pubkeys''))"

definition files_dir :: "layout \<Rightarrow> path" where
  "files_dir cfg =
     (case cfg_files_dir cfg of
        Some d \<Rightarrow> mk_path d
      | None \<Rightarrow> path_join (storage_dir cfg) (lit ''files''))"

definition pubkey_path_for :: "layout \<Rightarrow> json \<Rightarrow> path option" where
  "pubkey_path_for cfg username =
     (if \<not> valid_username username then None
      else map_option (\<lambda>u. path_join (pubkeys_dir cfg) (u @ lit ''.json'')) (as_str username))"

definition file_blob_path_for :: "layout \<Rightarrow> pystr \<Rightarrow> path" where
  "file_blob_path_for cfg file_id = path_join (files_dir cfg) (file_id @ lit ''.bin'')"

text \<open>\<open>final_path.parent / f"{final_path.name}.tmp"\<close>\<close>

definition tmp_path_for :: "path \<Rightarrow> path" where
  "tmp_path_for p = path_join (path_parent p) (path_name p @ lit ''.tmp'')"

section \<open>Canonical UUIDs\<close>

text \<open>\<open>s.replace(pat, "")\<close>\<close>

function remove_sub :: "pystr \<Rightarrow> pystr \<Rightarrow> pystr" where
  "remove_sub pat s =
     (case s of
        [] \<Rightarrow> []
      | c # r \<Rightarrow>
          if pat \<noteq> [] \<and> take (length pat) s = pat then remove_sub pat (drop (length pat) s)
          else c # remove_sub pat r)"
  by pat_completeness auto
termination by (relation "measure (length \<circ> snd)") auto

declare remove_sub.simps [simp del]

definition strip_chars :: "nat list \<Rightarrow> pystr \<Rightarrow> pystr" where
  "strip_chars cs s = rev (dropWhile (\<lambda>c. c \<in> set cs) (rev (dropWhile (\<lambda>c. c \<in> set cs) s)))"

text \<open>
  \<open>int(s, 16)\<close>.  CPython first maps every non-ASCII white space to a blank and every
  non-ASCII decimal digit to its ASCII digit (\<open>decimal_zeros\<close> are the zeros of the
  decimal scripts); then it accepts surrounding blanks, a sign, a prefix \<open>0x\<close>, and single
  underscores between digits.
\<close>

definition decimal_zeros :: "nat list" where
  "decimal_zeros =
    [1632, 1776, 1984, 2406, 2534, 2662, 2790, 2918, 3046, 3174, 3302, 3430, 3558, 3664, 3792,
    3872, 4160, 4240, 6112, 6160, 6470, 6608, 6784, 6800, 6992, 7088, 7232, 7248, 42528,
    43216, 43264, 43472, 43504, 43600, 44016, 65296, 66720, 68912, 69734, 69872, 69942, 70096,
    70384, 70736, 70864, 71248, 71360, 71472, 71904, 72016, 72784, 73040, 73120, 92768, 92864,
    93008, 120782, 120792, 120802, 120812, 120822, 123200, 123632, 125264, 130032]"

definition wide_spaces :: "nat list" where
  "wide_spaces =
    [133, 160, 5760, 8192, 8193, 8194, 8195, 8196, 8197, 8198, 8199, 8200, 8201, 8202, 8232,
    8233, 8239, 8287, 12288]"

definition to_ascii :: "nat \<Rightarrow> nat" where
  "to_ascii c =
     (if c < 127 then c
      else if c \<in> set wide_spaces then 32
      else (case filter (\<lambda>z. z \<le> c \<and> c < z + 10) decimal_zeros of
              [] \<Rightarrow> 63
            | z # _ \<Rightarrow> 48 + (c - z)))"

definition any_hex :: "nat \<Rightarrow> nat option" where
  "any_hex c = (if 65 \<le> c \<and> c \<le> 70 then Some (c - 55) else unhex_digit c)"

text \<open>Digits with single underscores between them; \<open>pend\<close>: the last one was an underscore.\<close>

fun hex_digits_value :: "bool \<Rightarrow> nat \<Rightarrow> pystr \<Rightarrow> nat option" where
  "hex_digits_value pend acc [] = (if pend then None else Some acc)"
| "hex_digits_value pend acc (c # s) =
     (if c = 95 then (if pend then None else hex_digits_value True acc s)
      else (case any_hex c of
              None \<Rightarrow> None
            | Some d \<Rightarrow> hex_digits_value False (16 * acc + d) s))"

definition unsigned_hex :: "pystr \<Rightarrow> nat option" where
  "unsigned_hex s =
     (let body = (if take 2 s = lit ''0x'' \<or> take 2 s = lit ''0X''
                  then (if take 1 (drop 2 s) = [95] then drop 3 s else drop 2 s) else s) in
      if body = [] \<or> take 1 body = [95] then None else hex_digits_value False 0 body)"

definition int_base16 :: "pystr \<Rightarrow> int option" where
  "int_base16 s =
     (let t = strip_chars [9, 10, 11, 12, 13, 32] (map to_ascii s) in
      case t of
        [] \<Rightarrow> None
      | c # r \<Rightarrow>
          if c = 45 then map_option (\<lambda>n. - int n) (unsigned_hex r)
          else if c = 43 then map_option int (unsigned_hex r)
          else map_option int (unsigned_hex t))"

text \<open>\<open>uuid.UUID(s).int\<close>\<close>

definition uuid_int :: "pystr \<Rightarrow> nat res" where
  "uuid_int s =
     (let h = remove_sub (lit ''-'') (strip_chars [123, 125]
                (remove_sub (lit ''uuid:'') (remove_sub (lit ''urn:'') s))) in
      if length h \<noteq> 32 then Inl ValueError
      else (case int_base16 h of
              None \<Rightarrow> Inl ValueError
            | Some i \<Rightarrow> if 0 \<le> i \<and> i < 2 ^ 128 then Inr (nat i) else Inl ValueError))"

text \<open>\<open>str(uuid)\<close>: 32 hexadecimal digits in groups of 8, 4, 4, 4 and 12.\<close>

fun hex_fixed :: "nat \<Rightarrow> nat \<Rightarrow> pystr" where
  "hex_fixed 0 n = []"
| "hex_fixed (Suc k) n = hex_fixed k (n div 16) @ [hex_digit (n mod 16)]"

definition uuid_str :: "nat \<Rightarrow> pystr" where
  "uuid_str n =
     (let h = hex_fixed 32 n in
      take 8 h @ [45] @ take 4 (drop 8 h) @ [45] @ take 4 (drop 12 h) @ [45] @
      take 4 (drop 16 h) @ [45] @ drop 20 h)"

text \<open>
  \<open>if not isinstance(file_id, str) or str(uuid.UUID(file_id)) != file_id: raise
  ProtocolError\<close>; \<open>uuid.UUID\<close> raises \<open>ValueError\<close> itself.
\<close>

definition check_file_id :: "json \<Rightarrow> pystr res" where
  "check_file_id v =
     rbind (some_or ProtocolError (as_str v)) (\<lambda>s.
     rbind (uuid_int s) (\<lambda>n.
     rbind (ensure ProtocolError (uuid_str n = s)) (\<lambda>_. Inr s)))"

section \<open>Lemmas: one more part, never a way out\<close>

lemma split_slash_plain: "47 \<notin> set s \<Longrightarrow> split_slash s = [s]"
  by (induction s) auto

text \<open>A name without a slash that is neither empty nor a dot is one part.\<close>

lemma path_join_name:
  assumes "47 \<notin> set s" "s \<noteq> []" "s \<noteq> [46]"
  shows "path_join p s = Path (root_of p) (parts_of p @ [s])"
proof -
  have "take 1 s \<noteq> [47]" using assms(1) by (cases s) auto
  then show ?thesis
    using assms by (simp add: path_join_def mk_path_def root_prefix_def split_slash_plain)
qed

lemma username_no_slash: "list_all username_char u \<Longrightarrow> 47 \<notin> set u \<and> 46 \<notin> set u \<and> 0 \<notin> set u"
  by (auto simp: list_all_set username_char_def)

lemma valid_username_iff:
  "valid_username v \<longleftrightarrow>
     (\<exists>u. v = JStr u \<and> 1 \<le> length u \<and> length u \<le> 32 \<and> list_all username_char u)"
  by (cases v) (auto simp: valid_username_def)

lemma lit_path_chars [simp]: "47 \<notin> set (lit ''.json'')" "47 \<notin> set (lit ''.bin'')" "47 \<notin> set (lit ''.tmp'')"
  by (simp_all add: lit_def)

lemma pubkey_path_for_Some:
  assumes "pubkey_path_for cfg v = Some p"
  obtains u where "v = JStr u" "list_all username_char u"
    "p = Path (root_of (pubkeys_dir cfg)) (parts_of (pubkeys_dir cfg) @ [u @ lit ''.json''])"
proof -
  obtain u where u: "v = JStr u" "list_all username_char u" "1 \<le> length u"
      "p = path_join (pubkeys_dir cfg) (u @ lit ''.json'')"
    using assms by (auto simp: pubkey_path_for_def valid_username_iff split: if_splits)
  have "path_join (pubkeys_dir cfg) (u @ lit ''.json'') =
      Path (root_of (pubkeys_dir cfg)) (parts_of (pubkeys_dir cfg) @ [u @ lit ''.json''])"
    using u(2,3) username_no_slash [OF u(2)] by (intro path_join_name) (auto simp: append_eq_Cons_conv)
  with u that show thesis by simp
qed

lemma hex_fixed_chars: "c \<in> set (hex_fixed k n) \<Longrightarrow> is_digit c \<or> 97 \<le> c \<and> c \<le> 102"
proof (induction k arbitrary: n)
  case (Suc k)
  have d: "d < 16 \<Longrightarrow> is_digit (hex_digit d) \<or> 97 \<le> hex_digit d \<and> hex_digit d \<le> 102" for d
    by (auto simp: hex_digit_def is_digit_def)
  from Suc show ?case using d [of "n mod 16"] by auto
qed simp

lemma length_hex_fixed [simp]: "length (hex_fixed k n) = k"
  by (induction k arbitrary: n) auto

lemma uuid_str_chars: "c \<in> set (uuid_str n) \<Longrightarrow> is_digit c \<or> 97 \<le> c \<and> c \<le> 102 \<or> c = 45"
  unfolding uuid_str_def Let_def
  by (auto dest!: in_set_takeD in_set_dropD hex_fixed_chars)

lemma length_uuid_str [simp]: "length (uuid_str n) = 36"
  by (simp add: uuid_str_def Let_def)

lemma check_file_id_Inr:
  assumes "check_file_id v = Inr s"
  obtains n where "v = JStr s" "s = uuid_str n" "n < 2 ^ 128"
  using assms
  by (auto simp: check_file_id_def uuid_int_def rbind_Inr_iff Let_def nat_less_iff
      split: if_splits option.splits)

lemma check_file_id_JStr: "check_file_id v = Inr s \<Longrightarrow> v = JStr s"
  by (erule check_file_id_Inr)

lemma uuid_chars_safe:
  assumes "check_file_id v = Inr s"
  shows "length s = 36 \<and> (\<forall>c \<in> set s. is_digit c \<or> 97 \<le> c \<and> c \<le> 102 \<or> c = 45)"
  using check_file_id_Inr [OF assms] uuid_str_chars length_uuid_str by metis

lemma file_blob_path_name:
  assumes "47 \<notin> set f"
  shows "file_blob_path_for cfg f =
    Path (root_of (files_dir cfg)) (parts_of (files_dir cfg) @ [f @ lit ''.bin''])"
  unfolding file_blob_path_for_def
  using assms by (intro path_join_name) (auto simp: append_eq_Cons_conv lit_def)

lemma uuid_no_slash: "check_file_id v = Inr s \<Longrightarrow> 47 \<notin> set s"
  using uuid_chars_safe [of v s] by (auto simp: is_digit_def)

lemma file_blob_path_inject:
  assumes "47 \<notin> set f" "47 \<notin> set g"
  shows "file_blob_path_for cfg f = file_blob_path_for cfg g \<longleftrightarrow> f = g"
  using assms by (simp add: file_blob_path_name)

lemma tmp_path_of_blob:
  assumes "47 \<notin> set f"
  shows "tmp_path_for (file_blob_path_for cfg f) =
    Path (root_of (files_dir cfg)) (parts_of (files_dir cfg) @ [f @ lit ''.bin'' @ lit ''.tmp''])"
proof -
  have "47 \<notin> set ((f @ lit ''.bin'') @ lit ''.tmp'')" using assms by simp
  then show ?thesis
    unfolding tmp_path_for_def file_blob_path_name [OF assms] path_parent_def path_name_def
    by (subst path_join_name) (auto simp: append_eq_Cons_conv)
qed

text \<open>A blob, a temporary file and a public key never share a path.\<close>

lemma last_lit: "last (f @ lit ''.bin'') = 110" "last (f @ lit ''.json'') = 110" "last (f @ lit ''.tmp'') = 112"
  by (simp_all add: lit_def)

lemma tmp_not_blob:
  assumes "47 \<notin> set f" "47 \<notin> set g"
  shows "tmp_path_for (file_blob_path_for cfg f) \<noteq> file_blob_path_for cfg g"
proof
  assume "tmp_path_for (file_blob_path_for cfg f) = file_blob_path_for cfg g"
  then have "f @ lit ''.bin'' @ lit ''.tmp'' = g @ lit ''.bin''"
    unfolding tmp_path_of_blob [OF assms(1)] file_blob_path_name [OF assms(2)] by simp
  then have "last (f @ lit ''.bin'' @ lit ''.tmp'') = last (g @ lit ''.bin'')" by simp
  then show False by (simp add: lit_def)
qed

lemma pubkey_not_blob:
  assumes "47 \<notin> set f" "pubkey_path_for cfg v = Some p"
  shows "p \<noteq> file_blob_path_for cfg f \<and> p \<noteq> tmp_path_for (file_blob_path_for cfg f)"
proof -
  obtain u where p: "p = Path (root_of (pubkeys_dir cfg)) (parts_of (pubkeys_dir cfg) @ [u @ lit ''.json''])"
    using assms(2) by (rule pubkey_path_for_Some) blast
  have "rev (u @ lit ''.json'') ! 1 \<noteq> rev (f @ lit ''.bin'') ! 1"
      "rev (u @ lit ''.json'') ! 1 \<noteq> rev (f @ lit ''.bin'' @ lit ''.tmp'') ! 1"
    by (simp_all add: lit_def)
  then have "u @ lit ''.json'' \<noteq> f @ lit ''.bin''" "u @ lit ''.json'' \<noteq> f @ lit ''.bin'' @ lit ''.tmp''"
    by metis+
  then show ?thesis
    unfolding p tmp_path_of_blob [OF assms(1)] unfolding file_blob_path_name [OF assms(1)] by simp
qed

section \<open>The canonical form of a UUID is accepted\<close>

lemma hex_fixed_value:
  "n < 16 ^ k \<Longrightarrow> hex_digits_value False acc (hex_fixed k n @ s) = hex_digits_value False (acc * 16 ^ k + n) s"
proof (induction k arbitrary: n s)
  case (Suc k)
  have d: "n mod 16 < 16" "n div 16 < 16 ^ k" using Suc.prems by (auto simp: div_less_iff_less_mult mult.commute)
  have "hex_digit (n mod 16) \<noteq> 95 \<and> any_hex (hex_digit (n mod 16)) = Some (n mod 16)"
    using d(1) unhex_hex_digit [OF d(1)] by (auto simp: any_hex_def hex_digit_def)
  then have "hex_digits_value False a (hex_digit (n mod 16) # s) = hex_digits_value False (16 * a + n mod 16) s" for a
    by simp
  with Suc.IH [OF d(2), of "hex_digit (n mod 16) # s"] show ?case
    by (simp add: algebra_simps)
qed simp

lemma remove_sub_none: "c \<notin> set s \<Longrightarrow> remove_sub (c # pat) s = s"
proof (induction s)
  case (Cons d s)
  then show ?case by (subst remove_sub.simps) auto
qed (simp add: remove_sub.simps)

lemma remove_sub_char: "remove_sub [c] s = filter (\<lambda>d. d \<noteq> c) s"
proof (induction s)
  case (Cons d s)
  then show ?case by (subst remove_sub.simps) auto
qed (simp add: remove_sub.simps)

lemma strip_chars_none: "\<forall>c \<in> set s. c \<notin> set cs \<Longrightarrow> strip_chars cs s = s"
proof -
  assume a: "\<forall>c \<in> set s. c \<notin> set cs"
  have d: "dropWhile (\<lambda>c. c \<in> set cs) t = t" if "\<forall>c \<in> set t. c \<notin> set cs" for t
    using that by (cases t) auto
  show ?thesis using d [OF a] d [of "rev s"] a by (simp add: strip_chars_def)
qed

lemma uuid_str_digits: "filter (\<lambda>d. d \<noteq> 45) (uuid_str n) = hex_fixed 32 n"
proof -
  define h where "h = hex_fixed 32 n"
  have h45: "45 \<notin> set h" using hex_fixed_chars [of 45 32 n] by (auto simp: h_def is_digit_def)
  have f: "filter (\<lambda>d. d \<noteq> 45) t = t" if "set t \<subseteq> set h" for t
    using that h45 by (auto intro: filter_True)
  have t: "take 12 h = take 8 h @ take 4 (drop 8 h)" "take 16 h = take 12 h @ take 4 (drop 12 h)"
      "take 20 h = take 16 h @ take 4 (drop 16 h)"
    using take_add [of 8 4 h] take_add [of 12 4 h] take_add [of 16 4 h] by simp_all
  have "take 8 h @ take 4 (drop 8 h) @ take 4 (drop 12 h) @ take 4 (drop 16 h) @ drop 20 h = take 20 h @ drop 20 h"
    unfolding t by simp
  then have "take 8 h @ take 4 (drop 8 h) @ take 4 (drop 12 h) @ take 4 (drop 16 h) @ drop 20 h = h"
    by (simp only: append_take_drop_id)
  moreover have "set (take k (drop j h)) \<subseteq> set h" "set (take k h) \<subseteq> set h" "set (drop k h) \<subseteq> set h" for j k
    by (meson set_drop_subset set_take_subset subset_trans)+
  ultimately show ?thesis
    unfolding uuid_str_def Let_def h_def [symmetric] by (simp add: f)
qed

lemma uuid_int_str:
  assumes "n < 2 ^ 128" shows "uuid_int (uuid_str n) = Inr n"
proof -
  let ?h = "hex_fixed 32 n"
  have u: "117 \<notin> set (uuid_str n)" "\<forall>c \<in> set (uuid_str n). c \<notin> set [123, 125]"
    using uuid_str_chars [of _ n] by (force simp: is_digit_def)+
  have lits: "lit ''urn:'' = 117 # lit ''rn:''" "lit ''uuid:'' = 117 # lit ''uid:''" "lit ''-'' = [45]"
    by (simp_all add: lit_def)
  have strip: "remove_sub (lit ''-'') (strip_chars [123, 125]
      (remove_sub (lit ''uuid:'') (remove_sub (lit ''urn:'') (uuid_str n)))) = ?h"
    unfolding lits using u by (simp add: remove_sub_none remove_sub_char strip_chars_none uuid_str_digits)
  have c: "48 \<le> c \<and> c \<le> 57 \<or> 97 \<le> c \<and> c \<le> 102" if "c \<in> set ?h" for c
    using hex_fixed_chars [OF that] by (simp add: is_digit_def)
  have "map to_ascii ?h = ?h"
    by (rule map_idI) (use c in \<open>force simp: to_ascii_def\<close>)
  moreover have "strip_chars [9, 10, 11, 12, 13, 32] ?h = ?h"
    by (rule strip_chars_none) (use c in force)
  moreover obtain d r where dr: "?h = d # r" by (cases ?h) (auto dest: arg_cong [of _ _ length])
  moreover have "unsigned_hex ?h = Some n"
  proof -
    have "take 2 ?h \<noteq> lit ''0x'' \<and> take 2 ?h \<noteq> lit ''0X''"
    proof
      have "120 \<notin> set (take 2 ?h)" "88 \<notin> set (take 2 ?h)"
        using c [of 120] c [of 88] by (auto dest: in_set_takeD)
      then show "take 2 ?h \<noteq> lit ''0x''" "take 2 ?h \<noteq> lit ''0X''" by (auto simp: lit_def)
    qed
    moreover have "take 1 ?h \<noteq> [95]" using c [of d] dr by auto
    moreover have "hex_digits_value False 0 ?h = Some n"
      using hex_fixed_value [of n 32 0 "[]"] assms by simp
    ultimately show ?thesis using dr by (simp add: unsigned_hex_def Let_def)
  qed
  moreover have "d \<noteq> 45 \<and> d \<noteq> 43" using c [of d] dr by auto
  ultimately have "int_base16 ?h = Some (int n)" by (simp add: int_base16_def Let_def)
  then show ?thesis using assms unfolding uuid_int_def Let_def strip by simp
qed

lemma check_file_id_iff:
  "check_file_id v = Inr s \<longleftrightarrow> (\<exists>n < 2 ^ 128. v = JStr s \<and> s = uuid_str n)"
  using check_file_id_Inr [of v s] uuid_int_str
  by (auto simp: check_file_id_def rbind_Inr_iff)

section \<open>Checked names are text\<close>

lemma wf_str_ascii: "\<forall>c \<in> set s. c < 128 \<Longrightarrow> wf_str s"
  by (auto simp: wf_str_def list_all_set scalar_def)

lemma wf_str_append [simp]: "wf_str (s @ t) \<longleftrightarrow> wf_str s \<and> wf_str t"
  by (simp add: wf_str_def)

lemma uuid_wf: "check_file_id v = Inr f \<Longrightarrow> wf_str f"
  using uuid_chars_safe [of v f] by (intro wf_str_ascii) (auto simp: is_digit_def)

lemma uuid_str_wf: "wf_str (uuid_str n)"
  by (intro wf_str_ascii) (auto simp: is_digit_def dest!: uuid_str_chars)

lemma username_wf: "valid_username (JStr r) \<Longrightarrow> wf_str r"
  by (intro wf_str_ascii) (auto simp: valid_username_iff list_all_set username_char_def)

section \<open>Where the paths lie\<close>

lemma path_child [simp]:
  "path_parent (Path (root_of d) (parts_of d @ [n])) = d" "path_name (Path (root_of d) (parts_of d @ [n])) = n"
  by (simp_all add: path_parent_def path_name_def)

end
