(* ===== verification/Store.thy ===== *)
theory Store
  imports Json_Roundtrip
begin

text \<open>
  \<open>server/store.py\<close> and \<open>server/replay.py\<close>: the three tables of the SQLite database and
  the operations on them.  A table is the list of its rows in the order of insertion.
  SQLite's part of the contract is written out: primary keys and NOT NULL columns refuse
  with \<open>IntegrityError\<close>, a text that is not Unicode and an integer beyond 64 bits cannot
  be bound, and each operation is one transaction.
\<close>

section \<open>Tables\<close>

record frow =
  file_id :: pystr
  sender_id :: pystr
  recipient_id :: pystr
  upload_timestamp :: int
  expiration :: int
  status :: pystr
  ciphertext_path :: pystr
  ciphertext_sha256 :: pystr
  wrapped_key :: bytes
  aes_nonce :: bytes
  aes_aad :: bytes
  sender_signature :: bytes
  sender_cert_json :: pystr

record ack =
  ack_file_id :: pystr
  ack_signature :: bytes
  ack_timestamp :: int

record db =
  files :: "frow list"
  seen_nonces :: "(bytes \<times> int) list"
  acks :: "ack list"

definition empty_db :: db where
  "empty_db = \<lparr>files = [], seen_nonces = [], acks = []\<rparr>"

section \<open>Binding Python values\<close>

definition int64 :: "int \<Rightarrow> bool" where
  "int64 i \<longleftrightarrow> - (2 ^ 63) \<le> i \<and> i < 2 ^ 63"

definition bind_int :: "int \<Rightarrow> int res" where
  "bind_int i = (if int64 i then Inr i else Inl OverflowError)"

definition bind_str :: "pystr \<Rightarrow> pystr res" where
  "bind_str s = (if list_all scalar s then Inr s else Inl UnicodeEncodeError)"

text \<open>
  A value bound where a TEXT column is meant: \<open>None\<close> is NULL, a number takes the text
  SQLite's affinity gives it (\<open>real_text\<close> is SQLite's rendering of a float), a list or a
  dict is not supported.
\<close>

definition bind_text :: "(pyfloat \<Rightarrow> pystr) \<Rightarrow> json \<Rightarrow> pystr option res" where
  "bind_text real_text v =
     (case v of
        JNull \<Rightarrow> Inr None
      | JBool b \<Rightarrow> Inr (Some (str_int (of_bool b)))
      | JInt i \<Rightarrow> rbind (bind_int i) (\<lambda>i. Inr (Some (str_int i)))
      | JFloat f \<Rightarrow> Inr (if f = FNaN then None else Some (real_text f))
      | JStr s \<Rightarrow> rbind (bind_str s) (\<lambda>s. Inr (Some s))
      | JArr xs \<Rightarrow> Inl ProgrammingError
      | JObj kvs \<Rightarrow> Inl ProgrammingError)"

lemma bind_str_Inr [simp]: "bind_str s = Inr t \<longleftrightarrow> wf_str s \<and> t = s"
  by (auto simp: bind_str_def wf_str_def)

lemma bind_int_Inr [simp]: "bind_int i = Inr j \<longleftrightarrow> int64 i \<and> j = i"
  by (auto simp: bind_int_def)

lemma bind_text_JStr:
  "bind_text rt (JStr s) = Inr v \<longleftrightarrow> wf_str s \<and> v = Some s"
  by (auto simp: bind_text_def rbind_Inr_iff)

section \<open>The \<open>files\<close> table (\<open>store.py\<close>)\<close>

text \<open>The dictionary that \<open>insert_file\<close> is given.\<close>

record file_values =
  v_file_id :: pystr
  v_sender_id :: json
  v_recipient_id :: pystr
  v_upload_timestamp :: int
  v_expiration :: int
  v_status :: "pystr option"
  v_ciphertext_path :: pystr
  v_ciphertext_sha256 :: pystr
  v_wrapped_key :: bytes
  v_aes_nonce :: bytes
  v_aes_aad :: bytes
  v_sender_signature :: bytes
  v_sender_cert_json :: pystr

definition STATUSES :: "pystr list" where
  "STATUSES = map lit [''pending'', ''downloaded'', ''expired'', ''revoked'']"

definition lookup_file :: "db \<Rightarrow> pystr \<Rightarrow> frow option" where
  "lookup_file db f = find (\<lambda>r. file_id r = f) (files db)"

text \<open>Parameters are bound from left to right; the constraints are checked after that.\<close>

definition insert_file :: "(pyfloat \<Rightarrow> pystr) \<Rightarrow> db \<Rightarrow> file_values \<Rightarrow> db res" where
  "insert_file real_text db v =
     rbind (bind_str (v_file_id v)) (\<lambda>f.
     rbind (bind_text real_text (v_sender_id v)) (\<lambda>s.
     rbind (bind_str (v_recipient_id v)) (\<lambda>r.
     rbind (bind_int (v_upload_timestamp v)) (\<lambda>ts.
     rbind (bind_int (v_expiration v)) (\<lambda>ex.
     rbind (bind_str (case v_status v of None \<Rightarrow> lit ''pending'' | Some st \<Rightarrow> st)) (\<lambda>st.
     rbind (bind_str (v_ciphertext_path v)) (\<lambda>path.
     rbind (bind_str (v_ciphertext_sha256 v)) (\<lambda>sha.
     rbind (bind_str (v_sender_cert_json v)) (\<lambda>cert.
     rbind (some_or IntegrityError s) (\<lambda>s.
     rbind (ensure IntegrityError (lookup_file db f = None)) (\<lambda>_.
       Inr (db\<lparr>files := files db @
         [\<lparr>file_id = f, sender_id = s, recipient_id = r, upload_timestamp = ts,
           expiration = ex, status = st, ciphertext_path = path, ciphertext_sha256 = sha,
           wrapped_key = v_wrapped_key v, aes_nonce = v_aes_nonce v, aes_aad = v_aes_aad v,
           sender_signature = v_sender_signature v, sender_cert_json = cert\<rparr>]\<rparr>))))))))))))"

definition list_pending_for :: "(pyfloat \<Rightarrow> pystr) \<Rightarrow> db \<Rightarrow> int \<Rightarrow> json \<Rightarrow> frow list res" where
  "list_pending_for real_text db now recipient =
     rbind (bind_text real_text recipient) (\<lambda>r.
       Inr (filter (\<lambda>row. Some (recipient_id row) = r \<and> status row = lit ''pending''
              \<and> now < expiration row) (files db)))"

definition get_file :: "(pyfloat \<Rightarrow> pystr) \<Rightarrow> db \<Rightarrow> json \<Rightarrow> frow option res" where
  "get_file real_text db v =
     rbind (bind_text real_text v) (\<lambda>f. Inr (Option.bind f (lookup_file db)))"

definition set_status :: "pystr \<Rightarrow> pystr \<Rightarrow> db \<Rightarrow> db" where
  "set_status f st db =
     db\<lparr>files := map (\<lambda>r. if file_id r = f then r\<lparr>status := st\<rparr> else r) (files db)\<rparr>"

definition mark_status :: "(pyfloat \<Rightarrow> pystr) \<Rightarrow> db \<Rightarrow> json \<Rightarrow> pystr \<Rightarrow> db res" where
  "mark_status real_text db v st =
     (if st \<notin> set STATUSES then Inl ValueError
      else rbind (bind_text real_text v) (\<lambda>f.
        Inr (case f of None \<Rightarrow> db | Some f \<Rightarrow> set_status f st db)))"

definition expires :: "int \<Rightarrow> frow \<Rightarrow> bool" where
  "expires now r \<longleftrightarrow> status r = lit ''pending'' \<and> expiration r < now"

definition mark_expired :: "db \<Rightarrow> int \<Rightarrow> db \<times> nat" where
  "mark_expired db now =
     (db\<lparr>files := map (\<lambda>r. if expires now r then r\<lparr>status := lit ''expired''\<rparr> else r) (files db)\<rparr>,
      length (filter (expires now) (files db)))"

definition insert_ack :: "db \<Rightarrow> pystr \<Rightarrow> bytes \<Rightarrow> int \<Rightarrow> db res" where
  "insert_ack db f sig ts =
     rbind (bind_str f) (\<lambda>f.
     rbind (bind_int ts) (\<lambda>ts.
       Inr (if \<exists>a \<in> set (acks db). ack_file_id a = f then db
            else db\<lparr>acks := acks db @ [\<lparr>ack_file_id = f, ack_signature = sig, ack_timestamp = ts\<rparr>]\<rparr>)))"

section \<open>The \<open>seen_nonces\<close> table (\<open>replay.py\<close>)\<close>

definition TIMESTAMP_WINDOW_SECONDS :: int where
  "TIMESTAMP_WINDOW_SECONDS = 30"

definition NONCE_RETENTION_SECONDS :: int where
  "NONCE_RETENTION_SECONDS = 300"

definition check_and_record :: "db \<Rightarrow> bytes \<Rightarrow> int \<Rightarrow> int \<Rightarrow> db \<times> bool" where
  "check_and_record db nonce timestamp now =
     (if length nonce \<noteq> 16 then (db, False)
      else if TIMESTAMP_WINDOW_SECONDS < \<bar>now - timestamp\<bar> then (db, False)
      else if nonce \<in> fst ` set (seen_nonces db) then (db, False)
      else (db\<lparr>seen_nonces := seen_nonces db @ [(nonce, now)]\<rparr>, True))"

definition purge_old_nonces :: "db \<Rightarrow> int \<Rightarrow> int \<Rightarrow> db \<times> nat" where
  "purge_old_nonces db retention_seconds now =
     (let cutoff = now - retention_seconds in
      (db\<lparr>seen_nonces := filter (\<lambda>(n, t). cutoff \<le> t) (seen_nonces db)\<rparr>,
       length (filter (\<lambda>(n, t). t < cutoff) (seen_nonces db))))"

section \<open>The invariant of the database\<close>

text \<open>
  What the schema and the operations keep: file ids, nonces and acknowledged ids are
  unique, every status is one of the four, nonces are 16 bytes, and integers fit.
\<close>

definition db_ok :: "db \<Rightarrow> bool" where
  "db_ok db \<longleftrightarrow>
     distinct (map file_id (files db))
     \<and> (\<forall>r \<in> set (files db). status r \<in> set STATUSES \<and> int64 (upload_timestamp r)
          \<and> int64 (expiration r) \<and> wf_str (file_id r))
     \<and> distinct (map fst (seen_nonces db)) \<and> (\<forall>n \<in> fst ` set (seen_nonces db). length n = 16)
     \<and> distinct (map ack_file_id (acks db)) \<and> (\<forall>a \<in> set (acks db). int64 (ack_timestamp a))"

lemma db_ok_empty [simp]: "db_ok empty_db"
  by (simp add: db_ok_def empty_db_def)

lemma find_map_status:
  "(\<And>r. file_id (g r) = file_id r) \<Longrightarrow>
     find (\<lambda>r. file_id r = f) (map g rs) = map_option g (find (\<lambda>r. file_id r = f) rs)"
  by (induction rs) auto

lemma lookup_file_Some_iff:
  assumes "distinct (map file_id (files db))"
  shows "lookup_file db f = Some r \<longleftrightarrow> r \<in> set (files db) \<and> file_id r = f"
proof -
  have "distinct (map file_id rs) \<Longrightarrow>
      find (\<lambda>r. file_id r = f) rs = Some r \<longleftrightarrow> r \<in> set rs \<and> file_id r = f" for rs
    by (induction rs) (auto simp: find_None_iff rev_image_eqI)
  with assms show ?thesis by (simp add: lookup_file_def)
qed

lemma lookup_file_None_iff: "lookup_file db f = None \<longleftrightarrow> f \<notin> file_id ` set (files db)"
  by (auto simp: lookup_file_def find_None_iff)

lemma lookup_file_SomeD: "lookup_file db f = Some r \<Longrightarrow> r \<in> set (files db) \<and> file_id r = f"
  unfolding lookup_file_def by (metis (mono_tags, lifting) find_Some_iff nth_mem)

lemma lookup_set_status:
  "lookup_file (set_status f st db) g =
     map_option (\<lambda>r. if g = f then r\<lparr>status := st\<rparr> else r) (lookup_file db g)"
proof -
  have "lookup_file (set_status f st db) g =
      map_option (\<lambda>r. if file_id r = f then r\<lparr>status := st\<rparr> else r) (lookup_file db g)"
    unfolding lookup_file_def set_status_def by (simp add: find_map_status)
  then show ?thesis by (cases "lookup_file db g") (auto dest: lookup_file_SomeD)
qed

lemma lookup_mark_expired:
  "lookup_file (fst (mark_expired db now)) f =
     map_option (\<lambda>r. if expires now r then r\<lparr>status := lit ''expired''\<rparr> else r) (lookup_file db f)"
  by (simp add: lookup_file_def mark_expired_def find_map_status)

section \<open>Every operation keeps the invariant\<close>

text \<open>The row that a successful insertion appends.\<close>

definition row_of :: "pystr \<Rightarrow> file_values \<Rightarrow> frow" where
  "row_of s v = \<lparr>file_id = v_file_id v, sender_id = s, recipient_id = v_recipient_id v,
     upload_timestamp = v_upload_timestamp v, expiration = v_expiration v,
     status = (case v_status v of None \<Rightarrow> lit ''pending'' | Some st \<Rightarrow> st),
     ciphertext_path = v_ciphertext_path v, ciphertext_sha256 = v_ciphertext_sha256 v,
     wrapped_key = v_wrapped_key v, aes_nonce = v_aes_nonce v, aes_aad = v_aes_aad v,
     sender_signature = v_sender_signature v, sender_cert_json = v_sender_cert_json v\<rparr>"

lemma insert_file_Inr_iff:
  "insert_file rt db v = Inr db' \<longleftrightarrow>
     (\<exists>s. bind_text rt (v_sender_id v) = Inr (Some s)
        \<and> wf_str (v_file_id v) \<and> wf_str (v_recipient_id v)
        \<and> int64 (v_upload_timestamp v) \<and> int64 (v_expiration v)
        \<and> wf_str (case v_status v of None \<Rightarrow> lit ''pending'' | Some st \<Rightarrow> st)
        \<and> wf_str (v_ciphertext_path v) \<and> wf_str (v_ciphertext_sha256 v) \<and> wf_str (v_sender_cert_json v)
        \<and> lookup_file db (v_file_id v) = None
        \<and> db' = db\<lparr>files := files db @ [row_of s v]\<rparr>)"
  unfolding insert_file_def row_of_def by (auto simp: rbind_Inr_iff)

lemma insert_file_ok:
  assumes "db_ok db" "insert_file rt db v = Inr db'"
    and "v_status v = None \<or> (\<exists>st. v_status v = Some st \<and> st \<in> set STATUSES)"
  shows "db_ok db'"
  using assms
  by (auto simp: db_ok_def insert_file_Inr_iff row_of_def lookup_file_None_iff STATUSES_def
      split: option.splits)

lemma set_status_ok:
  "db_ok db \<Longrightarrow> st \<in> set STATUSES \<Longrightarrow> db_ok (set_status f st db)"
  by (auto simp: db_ok_def set_status_def comp_def if_distrib [of file_id] cong: if_cong)

lemma mark_expired_ok: "db_ok db \<Longrightarrow> db_ok (fst (mark_expired db now))"
  by (auto simp: db_ok_def mark_expired_def comp_def if_distrib [of file_id] STATUSES_def cong: if_cong)

lemma insert_ack_ok: "db_ok db \<Longrightarrow> insert_ack db f sig ts = Inr db' \<Longrightarrow> db_ok db'"
  by (auto simp: db_ok_def insert_ack_def rbind_Inr_iff split: if_splits)

lemma check_and_record_ok: "db_ok db \<Longrightarrow> db_ok (fst (check_and_record db n ts now))"
  by (auto simp: db_ok_def check_and_record_def)

lemma purge_ok: "db_ok db \<Longrightarrow> db_ok (fst (purge_old_nonces db r now))"
  by (auto simp: db_ok_def purge_old_nonces_def Let_def distinct_map_filter)

end
