(* ===== verification/Replay.thy ===== *)
theory Replay
  imports Store
begin

text \<open>
  The replay cache as an interface.  \<open>nonce_cache\<close> states what the request handlers rely
  on: an accepted request is inside the time window and unseen, it is remembered, and a
  purge forgets only what is older than the retention time, which is at least twice the
  window.  From that alone, a request once accepted is refused for good, whatever
  requests and purges come between.  The clock of a request may lag behind that of a purge
  by what the retention time exceeds twice the window.  The interpretation is
  \<open>server/replay.py\<close>.
\<close>

datatype 'n cache_event = Check 'n int int | Purge int

text \<open>No purge of the list runs later than a given time.\<close>

definition purged_by :: "int \<Rightarrow> 'n cache_event list \<Rightarrow> bool" where
  "purged_by t evs \<longleftrightarrow> (\<forall>now. Purge now \<in> set evs \<longrightarrow> now \<le> t)"

lemma purged_by_simps [simp]: "purged_by t []"
  "purged_by t (evs @ [Check n ts now]) \<longleftrightarrow> purged_by t evs"
  "purged_by t (evs @ [Purge now]) \<longleftrightarrow> purged_by t evs \<and> now \<le> t"
  by (auto simp: purged_by_def)

lemma purged_by_later: "purged_by t evs \<Longrightarrow> t \<le> t' \<Longrightarrow> purged_by t' evs"
  by (fastforce simp: purged_by_def)

locale nonce_cache =
  fixes seen :: "'s \<Rightarrow> 'n \<Rightarrow> int option"
    and check :: "'s \<Rightarrow> 'n \<Rightarrow> int \<Rightarrow> int \<Rightarrow> 's \<times> bool"
    and purge :: "'s \<Rightarrow> int \<Rightarrow> 's"
    and window retention :: int
  assumes check_accept: "check s n ts now = (s', True) \<Longrightarrow>
      \<bar>now - ts\<bar> \<le> window \<and> seen s n = None \<and> seen s' = (seen s)(n \<mapsto> now)"
    and check_reject: "check s n ts now = (s', False) \<Longrightarrow> seen s' = seen s"
    and purge_keeps: "seen s n = Some t \<Longrightarrow> now - retention \<le> t \<Longrightarrow> seen (purge s now) n = Some t"
begin

primrec cache_step :: "'s \<Rightarrow> 'n cache_event \<Rightarrow> 's" where
  "cache_step s (Check n ts now) = fst (check s n ts now)"
| "cache_step s (Purge now) = purge s now"

definition cache_run :: "'s \<Rightarrow> 'n cache_event list \<Rightarrow> 's" where
  "cache_run = foldl cache_step"

lemma check_keeps: "seen s n = Some t \<Longrightarrow> seen (fst (check s m ts now)) n = Some t"
proof -
  assume s: "seen s n = Some t"
  obtain s' b where c: "check s m ts now = (s', b)" by fastforce
  show ?thesis
  proof (cases b)
    case True
    with check_accept c s show ?thesis by fastforce
  next
    case False
    with check_reject c s show ?thesis by fastforce
  qed
qed

lemma run_keeps:
  assumes "seen s n = Some t" "purged_by (t + retention) evs"
  shows "seen (cache_run s evs) n = Some t"
  using assms
proof (induction evs arbitrary: s)
  case Nil
  then show ?case by (simp add: cache_run_def)
next
  case (Cons e evs)
  have "seen (cache_step s e) n = Some t"
  proof (cases e)
    case (Purge now)
    with Cons.prems(2) have "now - retention \<le> t" by (fastforce simp: purged_by_def)
    with Purge Cons.prems(1) purge_keeps show ?thesis by simp
  qed (simp add: Cons.prems(1) check_keeps)
  moreover have "purged_by (t + retention) evs" using Cons.prems(2) by (simp add: purged_by_def)
  ultimately show ?case using Cons.IH by (simp add: cache_run_def)
qed

lemma accepted_once:
  assumes a: "check s n ts t1 = (s1, True)" and e: "purged_by (t2 + (retention - 2 * window)) evs"
  shows "\<not> snd (check (cache_run s1 evs) n ts t2)"
proof
  assume "snd (check (cache_run s1 evs) n ts t2)"
  then obtain s2 where b: "check (cache_run s1 evs) n ts t2 = (s2, True)"
    by (metis prod.collapse)
  have w: "\<bar>t1 - ts\<bar> \<le> window" "\<bar>t2 - ts\<bar> \<le> window" "seen (cache_run s1 evs) n = None"
    using check_accept [OF a] check_accept [OF b] by auto
  then have "t2 + (retention - 2 * window) \<le> t1 + retention" by linarith
  with e have "purged_by (t1 + retention) evs" by (rule purged_by_later)
  moreover have "seen s1 n = Some t1" using check_accept [OF a] by simp
  ultimately have "seen (cache_run s1 evs) n = Some t1" by (rule run_keeps [rotated])
  with w(3) show False by simp
qed

end

definition nonce_seen :: "db \<Rightarrow> bytes \<Rightarrow> int option" where
  "nonce_seen db n = map_of (seen_nonces db) n"

definition purge_pass :: "db \<Rightarrow> int \<Rightarrow> db" where
  "purge_pass db now = fst (purge_old_nonces db NONCE_RETENTION_SECONDS now)"

lemma check_and_record_True:
  "check_and_record db n ts now = (db', True) \<longleftrightarrow>
     length n = 16 \<and> \<bar>now - ts\<bar> \<le> TIMESTAMP_WINDOW_SECONDS \<and> n \<notin> fst ` set (seen_nonces db)
     \<and> db' = db\<lparr>seen_nonces := seen_nonces db @ [(n, now)]\<rparr>"
  by (auto simp: check_and_record_def)

lemma check_and_record_False: "check_and_record db n ts now = (db', False) \<Longrightarrow> db' = db"
  by (auto simp: check_and_record_def split: if_splits)

lemma map_of_filter_value:
  "map_of xs n = Some t \<Longrightarrow> P t \<Longrightarrow> map_of (filter (\<lambda>(n, t). P t) xs) n = Some t"
  by (induction xs) (auto split: if_splits)

lemma map_of_snoc_new:
  assumes "n \<notin> fst ` set xs" shows "map_of (xs @ [(n, t)]) m = ((map_of xs)(n \<mapsto> t)) m"
proof (cases "m = n")
  case True
  with assms show ?thesis by (simp add: map_add_def map_of_eq_None_iff [THEN iffD2])
next
  case False
  then show ?thesis by (simp add: map_add_def split: option.split)
qed

interpretation replay: nonce_cache nonce_seen check_and_record purge_pass
  TIMESTAMP_WINDOW_SECONDS NONCE_RETENTION_SECONDS
proof
  fix s s' :: db and n and ts now :: int
  assume "check_and_record s n ts now = (s', True)"
  then show "\<bar>now - ts\<bar> \<le> TIMESTAMP_WINDOW_SECONDS \<and> nonce_seen s n = None
      \<and> nonce_seen s' = (nonce_seen s)(n \<mapsto> now)"
    by (auto simp: check_and_record_True nonce_seen_def map_of_eq_None_iff fun_eq_iff map_of_snoc_new
        simp del: map_of_append)
next
  fix s s' :: db and n and ts now :: int
  assume "check_and_record s n ts now = (s', False)"
  then show "nonce_seen s' = nonce_seen s" by (auto dest: check_and_record_False)
next
  fix s :: db and n and t now :: int
  assume "nonce_seen s n = Some t" "now - NONCE_RETENTION_SECONDS \<le> t"
  then show "nonce_seen (purge_pass s now) n = Some t"
    by (simp add: nonce_seen_def purge_pass_def purge_old_nonces_def Let_def map_of_filter_value)
qed

text \<open>The history of the cache on the database: requests checked and purges made, in order.\<close>

primrec history_step :: "db \<Rightarrow> bytes cache_event \<Rightarrow> db" where
  "history_step db (Check n ts now) = fst (check_and_record db n ts now)"
| "history_step db (Purge now) = purge_pass db now"

definition history :: "db \<Rightarrow> bytes cache_event list \<Rightarrow> db" where
  "history = foldl history_step"

lemma cache_run_history: "replay.cache_run db evs = history db evs"
proof -
  have "replay.cache_step = history_step"
  proof (intro ext)
    fix db e show "replay.cache_step db e = history_step db e" by (cases e) simp_all
  qed
  then show ?thesis by (simp add: replay.cache_run_def history_def)
qed

section \<open>What is remembered\<close>

text \<open>Only the nonces of the database matter.\<close>

lemma check_cong:
  "seen_nonces db = seen_nonces db' \<Longrightarrow>
     seen_nonces (fst (check_and_record db n ts now)) = seen_nonces (fst (check_and_record db' n ts now))
     \<and> snd (check_and_record db n ts now) = snd (check_and_record db' n ts now)"
  by (simp add: check_and_record_def)

lemma purge_cong:
  "seen_nonces db = seen_nonces db' \<Longrightarrow> seen_nonces (purge_pass db now) = seen_nonces (purge_pass db' now)"
  by (simp add: purge_pass_def purge_old_nonces_def Let_def)

lemma history_step_cong:
  "seen_nonces db = seen_nonces db' \<Longrightarrow> seen_nonces (history_step db ev) = seen_nonces (history_step db' ev)"
  using check_cong [of db db'] purge_cong [of db db'] by (cases ev) auto

text \<open>A request was accepted, and since then nothing happened to the cache but checks and
  purges up to the time \<open>t\<close>.\<close>

definition remembered :: "int \<Rightarrow> db \<Rightarrow> bytes \<Rightarrow> int \<Rightarrow> bool" where
  "remembered t db n ts \<longleftrightarrow>
     (\<exists>db0 r db1 evs. check_and_record db0 n ts r = (db1, True)
        \<and> seen_nonces db = seen_nonces (history db1 evs) \<and> purged_by t evs)"

lemma remembered_now: "check_and_record db n ts r = (db1, True) \<Longrightarrow> remembered t db1 n ts"
  unfolding remembered_def
  by (intro exI [of _ db] exI [of _ r] exI [of _ db1] exI [of _ "[]"]) (simp add: history_def)

lemma remembered_step:
  assumes "remembered t db n ts" "seen_nonces db' = seen_nonces (history_step db ev)" "purged_by t' [ev]" "t \<le> t'"
  shows "remembered t' db' n ts"
proof -
  obtain db0 r db1 evs where a: "check_and_record db0 n ts r = (db1, True)"
      "seen_nonces db = seen_nonces (history db1 evs)" "purged_by t evs"
    using assms(1) by (auto simp: remembered_def)
  have "seen_nonces db' = seen_nonces (history db1 (evs @ [ev]))"
    using history_step_cong [OF a(2)] assms(2) by (simp add: history_def)
  moreover have "purged_by t' (evs @ [ev])"
    using purged_by_later [OF a(3) assms(4)] assms(3) by (auto simp: purged_by_def)
  ultimately show ?thesis using a(1) unfolding remembered_def by blast
qed

lemma remembered_same:
  "remembered t db n ts \<Longrightarrow> seen_nonces db' = seen_nonces db \<Longrightarrow> t \<le> t' \<Longrightarrow> remembered t' db' n ts"
  unfolding remembered_def using purged_by_later by fastforce

text \<open>How far the clock of a check may lag behind that of the purges.\<close>

definition REPLAY_SLACK :: int where
  "REPLAY_SLACK = NONCE_RETENTION_SECONDS - 2 * TIMESTAMP_WINDOW_SECONDS"

lemma REPLAY_SLACK_value [simp]: "REPLAY_SLACK = 240"
  by (simp add: REPLAY_SLACK_def TIMESTAMP_WINDOW_SECONDS_def NONCE_RETENTION_SECONDS_def)

lemma remembered_refuses:
  assumes "remembered t db n ts" "t \<le> r + REPLAY_SLACK"
  shows "\<not> snd (check_and_record db n ts r)"
proof -
  obtain db0 r0 db1 evs where a: "check_and_record db0 n ts r0 = (db1, True)"
      "seen_nonces db = seen_nonces (history db1 evs)" "purged_by t evs"
    using assms(1) by (auto simp: remembered_def)
  have "purged_by (r + REPLAY_SLACK) evs" using a(3) assms(2) by (rule purged_by_later)
  then have "\<not> snd (check_and_record (history db1 evs) n ts r)"
    using replay.accepted_once [OF a(1), of r evs] by (simp add: cache_run_history REPLAY_SLACK_def del: REPLAY_SLACK_value)
  then show ?thesis using check_cong [OF a(2)] by simp
qed

end
