(* ===== verification/Logger.thy ===== *)
theory Logger
  imports Json Sha256
begin

text \<open>
  The audit trail of \<open>common/logger.py\<close>: the lines \<open>event=<id> key=value ...\<close> that
  \<open>audit\<close> writes, with the redaction of forbidden fields and the escaping of values.
\<close>

datatype level = DEBUG | INFO | WARNING | ERROR

text \<open>An argument of \<open>audit\<close>: raw bytes, or a value that has a JSON form.\<close>

datatype field_value = Raw bytes | Val json

type_synonym fields = "(pystr \<times> field_value) list"

definition fingerprint :: "bytes \<Rightarrow> pystr" where
  "fingerprint blob = take 16 (sha256_hex blob)"

definition FORBIDDEN_FIELDS :: "pystr list" where
  "FORBIDDEN_FIELDS = map lit
     [''private_key'', ''priv_pem'', ''private_pem'', ''priv_key'',
      ''plaintext'', ''file_plaintext'', ''plain'',
      ''pre_master'', ''premaster'', ''pre_master_secret'',
      ''c2s_key'', ''s2c_key'', ''session_key'', ''aes_key'', ''file_key'',
      ''transcript_hash'', ''transcript'', ''password'', ''passphrase'',
      ''signature'', ''ciphertext'', ''wrapped_key'', ''public_key_pem'', ''cert_pem'', ''pem'']"

definition MAX_FIELD_LEN :: nat where
  "MAX_FIELD_LEN = 256"

text \<open>\<open>str(value)\<close>; a list or a dict is rendered by \<open>repr\<close>, which is a parameter.\<close>

definition py_str :: "(json \<Rightarrow> pystr) \<Rightarrow> json \<Rightarrow> pystr" where
  "py_str repr v =
     (case v of
        JNull \<Rightarrow> lit ''None''
      | JBool b \<Rightarrow> (if b then lit ''True'' else lit ''False'')
      | JInt i \<Rightarrow> str_int i
      | JFloat f \<Rightarrow> (case f of FNaN \<Rightarrow> lit ''nan'' | FInf neg \<Rightarrow> (if neg then lit ''-inf'' else lit ''inf'')
          | FDec _ _ _ \<Rightarrow> repr_float f)
      | JStr s \<Rightarrow> s
      | JArr xs \<Rightarrow> repr v
      | JObj kvs \<Rightarrow> repr v)"

text \<open>The four \<open>replace\<close> calls, whose results none of the later ones touches.\<close>

definition escape_value_char :: "nat \<Rightarrow> pystr" where
  "escape_value_char c =
     (if c = 10 then [92, 110]
      else if c = 13 then [92, 114]
      else if c = 32 then [95]
      else if c = 61 then lit ''%3D''
      else [c])"

definition truncate :: "pystr \<Rightarrow> pystr" where
  "truncate text =
     (if MAX_FIELD_LEN < length text then take MAX_FIELD_LEN text @ lit ''...[truncated]'' else text)"

definition safe_value :: "(json \<Rightarrow> pystr) \<Rightarrow> field_value \<Rightarrow> pystr" where
  "safe_value repr value =
     (case value of
        Raw bs \<Rightarrow> lit ''fp='' @ fingerprint bs
      | Val v \<Rightarrow>
          if v = JNull then lit ''-''
          else concat (map escape_value_char (truncate (py_str repr v))))"

text \<open>\<open>key.lower()\<close> of an ASCII keyword.\<close>

definition lower :: "pystr \<Rightarrow> pystr" where
  "lower s = map (\<lambda>c. if 65 \<le> c \<and> c \<le> 90 then c + 32 else c) s"

definition audit_part :: "(json \<Rightarrow> pystr) \<Rightarrow> pystr \<times> field_value \<Rightarrow> pystr" where
  "audit_part repr kv =
     (if lower (fst kv) \<in> set FORBIDDEN_FIELDS then fst kv @ lit ''=<redacted>''
      else fst kv @ lit ''='' @ safe_value repr (snd kv))"

definition audit_line :: "(json \<Rightarrow> pystr) \<Rightarrow> pystr \<Rightarrow> fields \<Rightarrow> pystr" where
  "audit_line repr event fs =
     join (lit '' '') ((lit ''event='' @ event) # map (audit_part repr) fs)"

section \<open>The grammar of a line\<close>

text \<open>A word of the line: no blank, no line break.\<close>

definition word_char :: "nat \<Rightarrow> bool" where
  "word_char c \<longleftrightarrow> c \<noteq> 32 \<and> c \<noteq> 10 \<and> c \<noteq> 13"

definition key_char :: "nat \<Rightarrow> bool" where
  "key_char c \<longleftrightarrow> word_char c \<and> c \<noteq> 61"

lemma word_char_lit [simp]: "c \<in> set (lit ''-'') \<Longrightarrow> word_char c"
  by (auto simp: lit_def word_char_def)

lemma escape_value_char_chars: "c \<in> set (escape_value_char d) \<Longrightarrow> key_char c"
  by (auto simp: escape_value_char_def key_char_def word_char_def lit_def split: if_splits)

lemma fingerprint_chars: "c \<in> set (fingerprint b) \<Longrightarrow> key_char c"
  using hex_ascii [of c "sha256 b"]
  by (auto simp: fingerprint_def sha256_hex_def key_char_def word_char_def is_digit_def dest: in_set_takeD)

lemma safe_value_chars:
  assumes "c \<in> set (safe_value repr v)" shows "word_char c"
proof (cases v)
  case (Raw b)
  then show ?thesis
    using assms fingerprint_chars [of c b]
    by (auto simp: safe_value_def key_char_def) (auto simp: lit_def word_char_def)
next
  case (Val j)
  then show ?thesis
    using assms escape_value_char_chars [of c]
    by (auto simp: safe_value_def key_char_def split: if_splits)
qed

lemma safe_value_no_eq: "c \<in> set (safe_value repr (Val j)) \<Longrightarrow> c \<noteq> 61"
  using escape_value_char_chars [of c]
  by (auto simp: safe_value_def key_char_def split: if_splits) (auto simp: lit_def)

text \<open>Reading a line back: split at the blanks, then each word at its first \<open>=\<close>.\<close>

fun split_at :: "nat \<Rightarrow> pystr \<Rightarrow> pystr list" where
  "split_at sep [] = [[]]"
| "split_at sep (c # s) =
     (if c = sep then [] # split_at sep s
      else (case split_at sep s of [] \<Rightarrow> [[c]] | p # ps \<Rightarrow> (c # p) # ps))"

definition split_word :: "pystr \<Rightarrow> pystr \<times> pystr" where
  "split_word w = (takeWhile (\<lambda>c. c \<noteq> 61) w, drop 1 (dropWhile (\<lambda>c. c \<noteq> 61) w))"

definition parse_line :: "pystr \<Rightarrow> (pystr \<times> pystr) list" where
  "parse_line s = map split_word (split_at 32 s)"

lemma split_at_plain: "sep \<notin> set w \<Longrightarrow> split_at sep w = [w]"
  by (induction w) auto

lemma split_at_append: "sep \<notin> set w \<Longrightarrow> split_at sep (w @ sep # s) = w # split_at sep s"
  by (induction w) auto

lemma split_at_join:
  "ws \<noteq> [] \<Longrightarrow> \<forall>w \<in> set ws. sep \<notin> set w \<Longrightarrow> split_at sep (join [sep] ws) = ws"
proof (induction ws)
  case (Cons w ws)
  then show ?case by (cases ws) (simp_all add: split_at_plain split_at_append)
qed simp

lemma split_word_eq: "61 \<notin> set k \<Longrightarrow> split_word (k @ 61 # v) = (k, v)"
  unfolding split_word_def by (induction k) auto

text \<open>What the reader of a line gets for a field.\<close>

definition shown :: "(json \<Rightarrow> pystr) \<Rightarrow> pystr \<times> field_value \<Rightarrow> pystr \<times> pystr" where
  "shown repr kv =
     (fst kv, if lower (fst kv) \<in> set FORBIDDEN_FIELDS then lit ''<redacted>'' else safe_value repr (snd kv))"

lemma audit_part_shown: "audit_part repr kv = fst (shown repr kv) @ 61 # snd (shown repr kv)"
  by (simp add: audit_part_def shown_def lit_def)

lemma shown_words: "c \<in> set (snd (shown repr kv)) \<Longrightarrow> word_char c"
  by (auto simp: shown_def dest: safe_value_chars split: if_splits)
    (auto simp: lit_def word_char_def)

lemma parse_audit_line:
  assumes "\<forall>c \<in> set event. key_char c" "\<forall>kv \<in> set fs. \<forall>c \<in> set (fst kv). key_char c"
  shows "parse_line (audit_line repr event fs) = (lit ''event'', event) # map (shown repr) fs"
proof -
  let ?ws = "(lit ''event='' @ event) # map (audit_part repr) fs"
  have ev: "lit ''event='' @ event = lit ''event'' @ 61 # event" by (simp add: lit_def)
  have nb: "32 \<notin> set (audit_part repr kv)" if "kv \<in> set fs" for kv
    using assms(2) that shown_words [of 32 repr kv]
    by (auto simp: audit_part_shown shown_def key_char_def word_char_def)
  have "32 \<notin> set (lit ''event='' @ event)"
    using assms(1) by (auto simp: lit_def key_char_def word_char_def)
  then have "split_at 32 (join [32] ?ws) = ?ws" using nb by (intro split_at_join) auto
  moreover have "lit '' '' = [32]" by (simp add: lit_def)
  moreover have "split_word (audit_part repr kv) = shown repr kv" if "kv \<in> set fs" for kv
    unfolding audit_part_shown using assms(2) that
    by (subst split_word_eq) (auto simp: shown_def key_char_def)
  moreover have "split_word (lit ''event='' @ event) = (lit ''event'', event)"
    unfolding ev by (rule split_word_eq) (simp add: lit_def)
  ultimately show ?thesis by (simp add: parse_line_def audit_line_def)
qed

text \<open>Length of a value in a line: 256 characters and the marker, each at most tripled.\<close>

lemma length_escape: "length (concat (map escape_value_char s)) \<le> 3 * length s"
  by (induction s) (auto simp: escape_value_char_def)

lemma length_safe_value: "length (safe_value repr v) \<le> 810"
proof (cases v)
  case (Raw b)
  then show ?thesis by (simp add: safe_value_def fingerprint_def)
next
  case (Val j)
  have "length (truncate s) \<le> 270" for s by (simp add: truncate_def MAX_FIELD_LEN_def)
  from this [of "py_str repr j"] length_escape [of "truncate (py_str repr j)"]
  have "length (concat (map escape_value_char (truncate (py_str repr j)))) \<le> 810" by linarith
  with Val show ?thesis by (simp add: safe_value_def)
qed

end
