(* ===== verification/Server.thy ===== *)
theory Server
  imports Origin Storage Replay Logger
begin

text \<open>
  The ground of \<open>server/handler.py\<close>: the state a worker thread works on, the outside world
  of one request, the actions a handler takes, and the helpers all handlers share.

  A handler returns the new state, its sends and log calls in program order, and the
  exception it raises, if it raises.  In the code every change of the database or the disk
  precedes the sends of the same handler; what happens when a send itself fails is the
  connection driver's part (theory \<open>Serve\<close>).
\<close>

section \<open>State, world, actions\<close>

record server =
  sdb :: db
  sfs :: filesystem

text \<open>What the handshake hands over: the session dictionary.\<close>

record session =
  peer_subject :: json
  peer_cert :: json
  c2s_key :: bytes
  s2c_key :: bytes
  transcript_hash :: bytes

text \<open>How the disk behaves while a blob is written.\<close>

datatype disk = DiskOk | MkdirFails | OpenFails | WriteFails nat | ReplaceFails

text \<open>
  The world of one request: the library, the configuration, one clock reading for every
  call of \<open>time.time()\<close> the handlers make, and the faults of the disk and the database
  (\<open>None\<close>: the call succeeds).
\<close>

record env =
  lib :: crypto
  real_text :: "pyfloat \<Rightarrow> pystr"
  repr_of :: "json \<Rightarrow> pystr"
  ca_pubkey :: bytes
  cfg :: layout
  t_replay :: int
  t_cert :: int
  t_dir :: int
  t_list :: int
  t_auth :: int
  disk :: disk
  dir_fault :: "exc option"
  stat_fails :: "path \<Rightarrow> bool"
  blob_fault :: "exc option"
  nonce_fault :: "exc option"
  get_fault :: "exc option"
  list_fault :: "exc option"
  insert_fault :: "exc option"
  mark_fault :: "exc option"
  ack_fault :: "exc option"

datatype act =
    Send pystr jdict
  | Log level pystr fields
  | Plain level pystr "json list"

type_synonym outcome = "server \<times> act list \<times> exc option"

definition finish :: "server \<Rightarrow> act list \<Rightarrow> outcome" where
  "finish s acts = (s, acts, None)"

definition abort :: "server \<Rightarrow> act list \<Rightarrow> exc \<Rightarrow> outcome" where
  "abort s acts e = (s, acts, Some e)"

definition send_error :: "pystr \<Rightarrow> act" where
  "send_error code = Send (lit ''ERROR'') [(lit ''code'', JStr code)]"

abbreviation ltext :: "string \<Rightarrow> field_value" where
  "ltext s \<equiv> Val (JStr (lit s))"

section \<open>Helpers of the handlers\<close>

definition cert_fp :: "json \<Rightarrow> pystr" where
  "cert_fp cert =
     (case as_dict cert of
        None \<Rightarrow> lit ''-''
      | Some d \<Rightarrow>
          (case as_str (jget d (lit ''public_key_pem'')) of
             None \<Rightarrow> lit ''-''
           | Some pem \<Rightarrow> (case ascii_encode pem of Inl _ \<Rightarrow> lit ''-'' | Inr bs \<Rightarrow> fingerprint bs)))"

definition request_id :: "envelope \<Rightarrow> field_value" where
  "request_id e = Val (JStr (case as_str (e_request_id e) of None \<Rightarrow> lit ''-'' | Some s \<Rightarrow> s))"

definition read_json :: "exc option \<Rightarrow> bytes \<Rightarrow> jdict res" where
  "read_json fault contents =
     rbind (with_fault fault (utf8_decode contents)) (\<lambda>text.
     rbind (json_loads (universal_newlines text)) (\<lambda>v.
       some_or ProtocolError (as_dict v)))"

definition load_verified_pubkey_cert :: "env \<Rightarrow> filesystem \<Rightarrow> json \<Rightarrow> jdict option res" where
  "load_verified_pubkey_cert w fs username =
     (case pubkey_path_for (cfg w) username of
        None \<Rightarrow> Inr None
      | Some path \<Rightarrow>
          (case fs path of
             None \<Rightarrow> Inr None
           | Some contents \<Rightarrow>
               (case read_json (dir_fault w) contents of
                  Inl e \<Rightarrow>
                    if is_OSError e \<or> e = JSONDecodeError \<or> e = ProtocolError then Inr None else Inl e
                | Inr cert \<Rightarrow>
                    rbind (verify_certificate (lib w) (t_dir w) (JObj cert) (ca_pubkey w)
                             (expected_of username))
                      (\<lambda>ok. Inr (if ok then Some cert else None)))))"

definition decode_b64_field :: "jdict \<Rightarrow> pystr \<Rightarrow> bytes res" where
  "decode_b64_field payload name =
     rbind (some_or ProtocolError (as_str (jget payload name))) (\<lambda>s.
       some_or ProtocolError (b64decode s))"

section \<open>Replay protection, the first step of every state-changing handler\<close>

text \<open>
  \<open>replay.check_and_record\<close> as the handlers call it: a database fault is met only when
  the insertion is reached, and an \<open>IntegrityError\<close> there counts as a replay.
  \<open>int(timestamp)\<close> cannot fail on a validated envelope.
\<close>

definition replay_check :: "env \<Rightarrow> db \<Rightarrow> bytes \<Rightarrow> json \<Rightarrow> (db \<times> bool) res" where
  "replay_check w db nonce timestamp =
     rbind (some_or TypeError (as_int timestamp)) (\<lambda>ts.
       if length nonce \<noteq> 16 \<or> TIMESTAMP_WINDOW_SECONDS < \<bar>t_replay w - ts\<bar> then Inr (db, False)
       else (case nonce_fault w of
               Some e \<Rightarrow> if e = IntegrityError then Inr (db, False) else Inl e
             | None \<Rightarrow> Inr (check_and_record db nonce ts (t_replay w))))"

text \<open>
  The common opening: decode the nonce, check it, and either reject or go on with the
  nonce recorded.  \<open>who\<close> is the name under which the peer is logged, \<open>scope\<close> the extra
  field some handlers add.
\<close>

definition replay_gate ::
    "env \<Rightarrow> server \<Rightarrow> session \<Rightarrow> envelope \<Rightarrow> pystr \<Rightarrow> pystr \<Rightarrow> fields \<Rightarrow> (server \<Rightarrow> outcome) \<Rightarrow> outcome" where
  "replay_gate w s sess e reject_event who scope continue =
     (case b64_field (e_nonce e) of
        None \<Rightarrow>
          finish s
            [Log ERROR reject_event
               [(lit ''reason'', ltext ''malformed_envelope_nonce''), (who, Val (peer_subject sess)),
                (lit ''request_id'', request_id e)],
             send_error (lit ''MALFORMED'')]
      | Some nonce \<Rightarrow>
          (case replay_check w (sdb s) nonce (e_timestamp e) of
             Inl ex \<Rightarrow> abort s [] ex
           | Inr (db', fresh) \<Rightarrow>
               if \<not> fresh then
                 finish (s\<lparr>sdb := db'\<rparr>)
                   [Log WARNING (lit ''replay_reject'')
                      (scope @ [(who, Val (peer_subject sess)), (lit ''request_id'', request_id e),
                       (lit ''nonce_fp'', Val (JStr (fingerprint nonce))),
                       (lit ''envelope_timestamp'', Val (e_timestamp e))]),
                    send_error (lit ''STALE'')]
               else continue (s\<lparr>sdb := db'\<rparr>)))"

section \<open>\<open>GET_PUBKEY\<close> and \<open>LIST_PENDING\<close>\<close>

definition handle_get_pubkey :: "env \<Rightarrow> server \<Rightarrow> session \<Rightarrow> envelope \<Rightarrow> outcome" where
  "handle_get_pubkey w s sess e =
     (let username = jget (e_payload e) (lit ''username'') in
      case load_verified_pubkey_cert w (sfs s) username of
        Inl ex \<Rightarrow> abort s [] ex
      | Inr None \<Rightarrow>
          finish s
            [Log WARNING (lit ''pubkey_lookup_miss'')
               [(lit ''requester'', Val (peer_subject sess)), (lit ''requested'', Val username),
                (lit ''request_id'', request_id e)],
             send_error (lit ''NOT_FOUND'')]
      | Inr (Some cert) \<Rightarrow>
          finish s
            [Log INFO (lit ''pubkey_lookup_ok'')
               [(lit ''requester'', Val (peer_subject sess)), (lit ''requested'', Val username),
                (lit ''fp'', Val (JStr (cert_fp (JObj cert)))), (lit ''request_id'', request_id e)],
             Send (lit ''PUBKEY_RESPONSE'') [(lit ''cert'', JObj cert)]])"

definition blob_size :: "env \<Rightarrow> filesystem \<Rightarrow> pystr \<Rightarrow> json" where
  "blob_size w fs f =
     (let path = file_blob_path_for (cfg w) f in
      if stat_fails w path then JNull
      else (case fs path of None \<Rightarrow> JNull | Some blob \<Rightarrow> JInt (int (length blob))))"

definition pending_entry :: "env \<Rightarrow> filesystem \<Rightarrow> frow \<Rightarrow> json" where
  "pending_entry w fs row =
     JObj [(lit ''file_id'', JStr (file_id row)),
           (lit ''sender_id'', JStr (sender_id row)),
           (lit ''upload_timestamp'', JInt (upload_timestamp row)),
           (lit ''expiration'', JInt (expiration row)),
           (lit ''ciphertext_size'', blob_size w fs (file_id row))]"

definition handle_list_pending :: "env \<Rightarrow> server \<Rightarrow> session \<Rightarrow> envelope \<Rightarrow> outcome" where
  "handle_list_pending w s sess e =
     (case with_fault (list_fault w)
             (list_pending_for (real_text w) (sdb s) (t_list w) (peer_subject sess)) of
        Inl ex \<Rightarrow> abort s [] ex
      | Inr rows \<Rightarrow>
          (let entries = map (pending_entry w (sfs s)) rows in
           finish s
             [Send (lit ''PENDING_LIST'') [(lit ''files'', JArr entries)],
              Log INFO (lit ''list_pending'')
                [(lit ''recipient'', Val (peer_subject sess)),
                 (lit ''count'', Val (JInt (int (length entries)))),
                 (lit ''request_id'', request_id e)]]))"

section \<open>Lemmas shared by the handlers\<close>

text \<open>The replies of an outcome.\<close>

definition sends :: "act list \<Rightarrow> (pystr \<times> jdict) list" where
  "sends acts = concat (map (\<lambda>a. case a of Send t p \<Rightarrow> [(t, p)] | _ \<Rightarrow> []) acts)"

lemma sends_simps [simp]:
  "sends [] = []" "sends (Send t p # acts) = (t, p) # sends acts"
  "sends (Log l ev fs # acts) = sends acts" "sends (Plain l t args # acts) = sends acts"
  "sends (send_error c # acts) = (lit ''ERROR'', [(lit ''code'', JStr c)]) # sends acts"
  by (simp_all add: sends_def send_error_def)

lemma finish_eq [simp]: "finish s acts = (s', acts', ex) \<longleftrightarrow> s' = s \<and> acts' = acts \<and> ex = None"
  by (auto simp: finish_def)

lemma abort_eq [simp]: "abort s acts e = (s', acts', ex) \<longleftrightarrow> s' = s \<and> acts' = acts \<and> ex = Some e"
  by (auto simp: abort_def)

lemma replay_check_True:
  "replay_check w db nonce tsv = Inr (db', True) \<longleftrightarrow>
     (\<exists>ts. as_int tsv = Some ts \<and> nonce_fault w = None
        \<and> check_and_record db nonce ts (t_replay w) = (db', True))"
  by (cases "as_int tsv"; cases "nonce_fault w")
    (auto simp: replay_check_def check_and_record_def split: if_splits)

lemma replay_check_False: "replay_check w db nonce tsv = Inr (db', False) \<Longrightarrow> db' = db"
  by (auto simp: replay_check_def rbind_Inr_iff dest: check_and_record_False split: option.splits if_splits)

text \<open>
  Either the gate answers by itself and changes nothing, or the nonce was fresh, is now
  recorded, and the rest of the handler runs.
\<close>

definition gate_passed :: "env \<Rightarrow> envelope \<Rightarrow> server \<Rightarrow> server \<Rightarrow> bool" where
  "gate_passed w e s s1 \<longleftrightarrow>
     (\<exists>nonce ts db1. b64_field (e_nonce e) = Some nonce \<and> as_int (e_timestamp e) = Some ts
        \<and> nonce_fault w = None \<and> check_and_record (sdb s) nonce ts (t_replay w) = (db1, True)
        \<and> s1 = s\<lparr>sdb := db1\<rparr>)"

definition gate_code :: "act list \<Rightarrow> bool" where
  "gate_code acts \<longleftrightarrow>
     acts = [] \<or> (\<exists>c. sends acts = [(lit ''ERROR'', [(lit ''code'', JStr (lit c))])]
        \<and> c \<in> {''MALFORMED'', ''STALE''})"

text \<open>An answer of one error, or no answer and an exception.\<close>

definition one_error :: "act list \<Rightarrow> exc option \<Rightarrow> bool" where
  "one_error acts ex \<longleftrightarrow> (acts = []) = (ex \<noteq> None)
     \<and> (acts = [] \<or> (\<exists>c. sends acts = [(lit ''ERROR'', [(lit ''code'', JStr c)])]))"

lemma one_error_simps [simp]: "one_error [] ex \<longleftrightarrow> ex \<noteq> None"
  "one_error [Log l ev fs, send_error c] None" "one_error [send_error c] None"
  by (auto simp: one_error_def)

lemma replay_gate_cases:
  assumes "replay_gate w s sess e ev who scope k = (s', acts, ex)"
  obtains (refused) "s' = s" "gate_code acts" "one_error acts ex"
  | (passed) s1 where "gate_passed w e s s1" "k s1 = (s', acts, ex)"
proof -
  have res: "(\<exists>x. r = Inl x) \<or> (\<exists>d. r = Inr (d, False)) \<or> (\<exists>d. r = Inr (d, True))" for r :: "(db \<times> bool) res"
    by (cases r) auto
  consider (none) "b64_field (e_nonce e) = None"
    | (raise) nonce ex0 where "b64_field (e_nonce e) = Some nonce"
        "replay_check w (sdb s) nonce (e_timestamp e) = Inl ex0"
    | (stale) nonce db1 where "b64_field (e_nonce e) = Some nonce"
        "replay_check w (sdb s) nonce (e_timestamp e) = Inr (db1, False)"
    | (fresh) nonce db1 where "b64_field (e_nonce e) = Some nonce"
        "replay_check w (sdb s) nonce (e_timestamp e) = Inr (db1, True)"
  proof (cases "b64_field (e_nonce e)")
    case None
    then show ?thesis by (rule none)
  next
    case (Some nonce)
    with res [of "replay_check w (sdb s) nonce (e_timestamp e)"] raise stale fresh
    show ?thesis by blast
  qed
  then show thesis
  proof cases
    case none
    with assms refused show thesis by (simp add: replay_gate_def gate_code_def)
  next
    case raise
    with assms refused show thesis by (simp add: replay_gate_def gate_code_def)
  next
    case stale
    with replay_check_False [OF stale(2)] assms refused show thesis
      by (simp add: replay_gate_def gate_code_def)
  next
    case fresh
    then have "gate_passed w e s (s\<lparr>sdb := db1\<rparr>)"
      by (auto simp: replay_check_True gate_passed_def)
    moreover have "k (s\<lparr>sdb := db1\<rparr>) = (s', acts, ex)"
      using assms fresh by (simp add: replay_gate_def)
    ultimately show thesis by (rule passed)
  qed
qed

lemma gate_passed_state:
  assumes "gate_passed w e s s1"
  obtains nonce where "length nonce = 16" "nonce \<notin> fst ` set (seen_nonces (sdb s))"
    "s1 = s\<lparr>sdb := sdb s\<lparr>seen_nonces := seen_nonces (sdb s) @ [(nonce, t_replay w)]\<rparr>\<rparr>"
  using assms by (auto simp: gate_passed_def check_and_record_True)

lemma gate_passed_ok:
  assumes "gate_passed w e s s1" "db_ok (sdb s)" shows "db_ok (sdb s1)"
  using assms check_and_record_ok [OF assms(2)]
  by (auto simp: gate_passed_def) (metis fst_conv)

lemma gate_passed_same:
  "gate_passed w e s s1 \<Longrightarrow>
     sfs s1 = sfs s \<and> files (sdb s1) = files (sdb s) \<and> acks (sdb s1) = acks (sdb s)"
  by (auto elim!: gate_passed_state)

text \<open>The tables are as they were, but for the nonce of this request.\<close>

definition only_nonce :: "env \<Rightarrow> envelope \<Rightarrow> server \<Rightarrow> server \<Rightarrow> bool" where
  "only_nonce w e s s' \<longleftrightarrow> sdb s' = sdb s \<or> (\<exists>s1. gate_passed w e s s1 \<and> sdb s' = sdb s1)"

lemma only_nonce_same [dest]:
  "only_nonce w e s s' \<Longrightarrow> files (sdb s') = files (sdb s) \<and> acks (sdb s') = acks (sdb s)"
  by (auto simp: only_nonce_def dest: gate_passed_same)

lemma only_nonce_ok: "only_nonce w e s s' \<Longrightarrow> db_ok (sdb s) \<Longrightarrow> db_ok (sdb s')"
  by (auto simp: only_nonce_def dest: gate_passed_ok)

text \<open>Reading printed JSON in text mode changes nothing.\<close>

lemma universal_newlines_dumps: "text_opts opts \<Longrightarrow> wf_json x \<Longrightarrow> universal_newlines (dumps opts x) = dumps opts x"
  using dumps_text [of opts x 13] by (intro universal_newlines_plain) (auto simp: text_char_def)

text \<open>A request past the gate runs the rest of its handler.\<close>

lemma replay_gate_passed:
  assumes "gate_passed w e s s1"
  shows "replay_gate w s sess e ev who scope k = k s1"
proof -
  obtain nonce ts db1 where n: "b64_field (e_nonce e) = Some nonce" "as_int (e_timestamp e) = Some ts"
      "nonce_fault w = None" "check_and_record (sdb s) nonce ts (t_replay w) = (db1, True)"
      "s1 = s\<lparr>sdb := db1\<rparr>"
    using assms by (auto simp: gate_passed_def)
  then have "replay_check w (sdb s) nonce (e_timestamp e) = Inr (db1, True)"
    by (auto simp: replay_check_True)
  with n show ?thesis by (simp add: replay_gate_def)
qed

end
