(* ===== verification/Upload.thy ===== *)
theory Upload
  imports Server
begin

text \<open>
  \<open>_handle_upload_request\<close> of \<open>server/handler.py\<close>: the six checks, the atomic write of
  the blob, the insertion of the row and the acknowledgement.
\<close>

section \<open>The payload\<close>

text \<open>\<open>timestamp\<close> and \<open>expiration\<close> stay JSON values: \<open>true\<close> passes \<open>isinstance(.., int)\<close>
  and is signed as \<open>true\<close>.\<close>

record upload_fields =
  u_file_id :: pystr
  u_recipient :: pystr
  u_timestamp :: json
  u_expiration :: json
  u_ciphertext :: bytes
  u_aes_nonce :: bytes
  u_wrapped_key :: bytes
  u_signature :: bytes

definition check_username :: "json \<Rightarrow> pystr res" where
  "check_username v =
     rbind (ensure ProtocolError (valid_username v)) (\<lambda>_. some_or ProtocolError (as_str v))"

definition parse_upload :: "jdict \<Rightarrow> upload_fields res" where
  "parse_upload payload =
     rbind (jitem payload (lit ''file_id'')) (\<lambda>f.
     rbind (jitem payload (lit ''recipient'')) (\<lambda>r.
     rbind (jitem payload (lit ''timestamp'')) (\<lambda>ts.
     rbind (jitem payload (lit ''expiration'')) (\<lambda>ex.
     rbind (check_file_id f) (\<lambda>file_id.
     rbind (check_username r) (\<lambda>recipient.
     rbind (ensure ProtocolError (as_int ts \<noteq> None \<and> as_int ex \<noteq> None)) (\<lambda>_.
     rbind (decode_b64_field payload (lit ''ciphertext'')) (\<lambda>ct.
     rbind (decode_b64_field payload (lit ''nonce'')) (\<lambda>nonce.
     rbind (decode_b64_field payload (lit ''wrapped_key'')) (\<lambda>wk.
     rbind (decode_b64_field payload (lit ''signature'')) (\<lambda>sig.
       Inr \<lparr>u_file_id = file_id, u_recipient = recipient, u_timestamp = ts, u_expiration = ex,
            u_ciphertext = ct, u_aes_nonce = nonce, u_wrapped_key = wk, u_signature = sig\<rparr>)))))))))))"

text \<open>\<open>except (KeyError, ValueError, ProtocolError)\<close>\<close>

definition malformed :: "exc \<Rightarrow> bool" where
  "malformed e \<longleftrightarrow> e = KeyError \<or> is_ValueError e \<or> e = ProtocolError"

section \<open>Writing the blob\<close>

text \<open>
  \<open>tmp_path.open("wb")\<close> creates an empty file, \<open>f.write\<close> fills it (a failing write leaves
  the first \<open>n\<close> bytes), \<open>os.replace\<close> moves it over the final path.
\<close>

definition write_blob :: "disk \<Rightarrow> filesystem \<Rightarrow> path \<Rightarrow> bytes \<Rightarrow> filesystem \<times> exc option" where
  "write_blob dk fs final ciphertext =
     (let tmp = tmp_path_for final in
      case dk of
        OpenFails \<Rightarrow> (fs, Some OSError)
      | WriteFails n \<Rightarrow> (fs(tmp \<mapsto> take n ciphertext), Some OSError)
      | ReplaceFails \<Rightarrow> (fs(tmp \<mapsto> ciphertext), Some OSError)
      | _ \<Rightarrow> ((fs(tmp := None))(final \<mapsto> ciphertext), None))"

section \<open>The handler\<close>

definition upload_aad :: "env \<Rightarrow> upload_fields \<Rightarrow> json \<Rightarrow> bytes res" where
  "upload_aad w u sender = file_aad (u_file_id u) (py_str (repr_of w) sender) (u_recipient u)"

definition upload_values :: "upload_fields \<Rightarrow> session \<Rightarrow> bytes \<Rightarrow> file_values" where
  "upload_values u sess aad =
     \<lparr>v_file_id = u_file_id u, v_sender_id = peer_subject sess, v_recipient_id = u_recipient u,
      v_upload_timestamp = the (as_int (u_timestamp u)), v_expiration = the (as_int (u_expiration u)),
      v_status = Some (lit ''pending''), v_ciphertext_path = u_file_id u @ lit ''.bin'',
      v_ciphertext_sha256 = sha256_hex (u_ciphertext u), v_wrapped_key = u_wrapped_key u,
      v_aes_nonce = u_aes_nonce u, v_aes_aad = aad, v_sender_signature = u_signature u,
      v_sender_cert_json = dumps default_opts (sort_keys (peer_cert sess))\<rparr>"

definition insert_row :: "env \<Rightarrow> session \<Rightarrow> upload_fields \<Rightarrow> db \<Rightarrow> db res" where
  "insert_row w sess u db =
     rbind (upload_aad w u (peer_subject sess)) (\<lambda>aad.
       with_fault (insert_fault w) (insert_file (real_text w) db (upload_values u sess aad)))"

text \<open>Step 6 after the \<open>mkdir\<close>: the \<open>try\<close> block, its new state and the exception it ends with.\<close>

definition store_upload :: "env \<Rightarrow> server \<Rightarrow> session \<Rightarrow> upload_fields \<Rightarrow> server \<times> exc option" where
  "store_upload w s sess u =
     (let final = file_blob_path_for (cfg w) (u_file_id u) in
      case write_blob (disk w) (sfs s) final (u_ciphertext u) of
        (fs, Some ex) \<Rightarrow> (s\<lparr>sfs := fs\<rparr>, Some ex)
      | (fs, None) \<Rightarrow>
          (case insert_row w sess u (sdb s) of
             Inl ex \<Rightarrow> (s\<lparr>sfs := fs\<rparr>, Some ex)
           | Inr db \<Rightarrow> (s\<lparr>sfs := fs, sdb := db\<rparr>, None)))"

text \<open>Its \<open>except\<close> clause, and step 7.\<close>

definition upload_answer :: "session \<Rightarrow> envelope \<Rightarrow> upload_fields \<Rightarrow> server \<times> exc option \<Rightarrow> outcome" where
  "upload_answer sess e u r =
     (let sender = Val (peer_subject sess); rid = request_id e;
          recipient = Val (JStr (u_recipient u)); file_id = Val (JStr (u_file_id u)) in
      case r of
        (s', Some ex) \<Rightarrow>
          if is_OSError ex then
            finish s'
              [Log ERROR (lit ''upload_internal_error'')
                 [(lit ''sender'', sender), (lit ''recipient'', recipient), (lit ''file_id'', file_id),
                  (lit ''request_id'', rid), (lit ''err_type'', Val (JStr (exc_name ex)))],
               send_error (lit ''INTERNAL_ERROR'')]
          else abort s' [] ex
      | (s', None) \<Rightarrow>
          finish s'
            [Send (lit ''UPLOAD_ACK'')
               [(lit ''file_id'', JStr (u_file_id u)), (lit ''expiration'', u_expiration u)],
             Log INFO (lit ''upload_accept'')
               [(lit ''file_id'', file_id), (lit ''sender'', sender), (lit ''recipient'', recipient),
                (lit ''sender_fp'', Val (JStr (cert_fp (peer_cert sess)))),
                (lit ''ct_fp'', Val (JStr (take 16 (sha256_hex (u_ciphertext u))))),
                (lit ''request_id'', rid)]])"

definition upload_commit :: "env \<Rightarrow> session \<Rightarrow> envelope \<Rightarrow> upload_fields \<Rightarrow> server \<Rightarrow> outcome" where
  "upload_commit w sess e u s =
     (if disk w = MkdirFails then abort s [] OSError
      else upload_answer sess e u (store_upload w s sess u))"

text \<open>Steps 4 and 5: the origin signature and the recipient.\<close>

definition upload_verified :: "env \<Rightarrow> session \<Rightarrow> envelope \<Rightarrow> upload_fields \<Rightarrow> server \<Rightarrow> outcome" where
  "upload_verified w sess e u s =
     (let sender = Val (peer_subject sess); rid = request_id e;
          recipient = Val (JStr (u_recipient u)); file_id = Val (JStr (u_file_id u)) in
      case verify_origin_struct (lib w) (peer_cert sess) (u_signature u) (peer_subject sess)
             (JStr (u_recipient u)) (JStr (u_file_id u)) (sha256_hex (u_ciphertext u))
             (sha256_hex (u_wrapped_key u)) (u_timestamp u) (u_expiration u) of
        Inl ex \<Rightarrow> abort s [] ex
      | Inr good \<Rightarrow>
          if \<not> good then
            finish s
              [Log ERROR (lit ''origin_sig_fail'')
                 [(lit ''sender'', sender), (lit ''recipient'', recipient), (lit ''file_id'', file_id),
                  (lit ''sender_fp'', Val (JStr (cert_fp (peer_cert sess)))),
                  (lit ''ct_fp'', Val (JStr (take 16 (sha256_hex (u_ciphertext u))))),
                  (lit ''sig_prefix'', Val (JStr (take 8 (sha256_hex (u_signature u))))),
                  (lit ''request_id'', rid)],
               send_error (lit ''AUTH_FAILED'')]
          else
            (case load_verified_pubkey_cert w (sfs s) (JStr (u_recipient u)) of
               Inl ex \<Rightarrow> abort s [] ex
             | Inr None \<Rightarrow>
                 finish s
                   [Log WARNING (lit ''upload_reject'')
                      [(lit ''reason'', ltext ''unknown_recipient''), (lit ''sender'', sender),
                       (lit ''recipient'', recipient), (lit ''file_id'', file_id), (lit ''request_id'', rid)],
                    send_error (lit ''NOT_FOUND'')]
             | Inr (Some _) \<Rightarrow> upload_commit w sess e u s))"

text \<open>Steps 2 and 3: the sender's certificate and the payload.\<close>

definition upload_fresh :: "env \<Rightarrow> session \<Rightarrow> envelope \<Rightarrow> server \<Rightarrow> outcome" where
  "upload_fresh w sess e s =
     (let sender = Val (peer_subject sess); rid = request_id e in
      case verify_certificate (lib w) (t_cert w) (peer_cert sess) (ca_pubkey w)
             (expected_of (peer_subject sess)) of
        Inl ex \<Rightarrow> abort s [] ex
      | Inr valid \<Rightarrow>
          if \<not> valid then
            finish s
              [Log WARNING (lit ''auth_fail'')
                 [(lit ''reason'', ltext ''sender_cert_invalid''), (lit ''sender'', sender),
                  (lit ''fp'', Val (JStr (cert_fp (peer_cert sess)))), (lit ''request_id'', rid)],
               send_error (lit ''AUTH_FAILED'')]
          else
            (case parse_upload (e_payload e) of
               Inl ex \<Rightarrow>
                 if malformed ex then
                   finish s
                     [Log WARNING (lit ''upload_reject'')
                        [(lit ''reason'', ltext ''malformed_payload''), (lit ''sender'', sender),
                         (lit ''request_id'', rid), (lit ''err_type'', Val (JStr (exc_name ex)))],
                      send_error (lit ''MALFORMED'')]
                 else abort s [] ex
             | Inr u \<Rightarrow> upload_verified w sess e u s))"

definition handle_upload_request :: "env \<Rightarrow> server \<Rightarrow> session \<Rightarrow> envelope \<Rightarrow> outcome" where
  "handle_upload_request w s sess e =
     replay_gate w s sess e (lit ''upload_reject'') (lit ''sender'') [] (upload_fresh w sess e)"

section \<open>What an accepted upload is\<close>

lemma check_username_Inr [simp]: "check_username v = Inr u \<longleftrightarrow> v = JStr u \<and> valid_username v"
  by (auto simp: check_username_def rbind_Inr_iff)

lemma jitem_Inr [simp]: "jitem d k = Inr v \<longleftrightarrow> map_of d k = Some v"
  by (simp add: jitem_def)

lemma decode_b64_field_Inr:
  "decode_b64_field d k = Inr b \<longleftrightarrow> (\<exists>s. jget d k = JStr s \<and> b64decode s = Some b)"
  by (auto simp: decode_b64_field_def rbind_Inr_iff)

lemma parse_upload_Inr:
  assumes "parse_upload p = Inr u"
  shows "check_file_id (JStr (u_file_id u)) = Inr (u_file_id u) \<and> valid_username (JStr (u_recipient u))
    \<and> (\<exists>i. as_int (u_timestamp u) = Some i) \<and> (\<exists>i. as_int (u_expiration u) = Some i)"
  using assms
  by (auto simp: parse_upload_def rbind_Inr_iff) (metis check_file_id_JStr)

text \<open>The checks that stand between a request and the disk.\<close>

definition upload_authorised :: "env \<Rightarrow> server \<Rightarrow> session \<Rightarrow> envelope \<Rightarrow> upload_fields \<Rightarrow> bool" where
  "upload_authorised w s sess e u \<longleftrightarrow>
     verify_certificate (lib w) (t_cert w) (peer_cert sess) (ca_pubkey w)
       (expected_of (peer_subject sess)) = Inr True
     \<and> parse_upload (e_payload e) = Inr u
     \<and> signed_by (lib w) (peer_cert sess) (u_signature u)
         (origin_struct (peer_subject sess) (JStr (u_recipient u)) (JStr (u_file_id u))
           (sha256_hex (u_ciphertext u)) (sha256_hex (u_wrapped_key u)) (u_timestamp u) (u_expiration u))
     \<and> (\<exists>cert. load_verified_pubkey_cert w (sfs s) (JStr (u_recipient u)) = Inr (Some cert))"

lemma upload_fresh_cases:
  assumes "upload_fresh w sess e s = (s', acts, ex)"
  obtains (refused) "s' = s" "one_error acts ex"
  | (committed) u where "upload_authorised w s sess e u" "upload_commit w sess e u s = (s', acts, ex)"
  using assms unfolding upload_fresh_def upload_verified_def Let_def
  by (auto simp: upload_authorised_def verify_origin_struct_True
      split: sum.split_asm option.split_asm if_split_asm)

lemma store_upload_None:
  assumes "store_upload w s sess u = (s', None)"
  shows "\<exists>aad. upload_aad w u (peer_subject sess) = Inr aad \<and> disk w \<in> {DiskOk, MkdirFails}
    \<and> insert_file (real_text w) (sdb s) (upload_values u sess aad) = Inr (sdb s')
    \<and> sfs s' = (sfs s)(tmp_path_for (file_blob_path_for (cfg w) (u_file_id u)) := None,
        file_blob_path_for (cfg w) (u_file_id u) \<mapsto> u_ciphertext u)"
  using assms
  by (auto simp: store_upload_def insert_row_def write_blob_def Let_def rbind_Inr_iff
      split: disk.split_asm option.split_asm sum.split_asm)

lemma store_upload_Some:
  assumes "store_upload w s sess u = (s', Some e)"
  shows "sdb s' = sdb s"
  using assms
  by (auto simp: store_upload_def insert_row_def Let_def split: prod.split_asm option.split_asm sum.split_asm)

text \<open>Nothing but the blob and its temporary file is touched on the disk.\<close>

lemma store_upload_fs:
  assumes "store_upload w s sess u = (s', r)"
    and "p \<noteq> file_blob_path_for (cfg w) (u_file_id u)"
    and "p \<noteq> tmp_path_for (file_blob_path_for (cfg w) (u_file_id u))"
  shows "sfs s' p = sfs s p"
  using assms
  by (auto simp: store_upload_def insert_row_def write_blob_def Let_def
      split: disk.split_asm option.split_asm sum.split_asm)

text \<open>The row an upload leaves in the table.\<close>

definition uploaded_row :: "upload_fields \<Rightarrow> session \<Rightarrow> pystr \<Rightarrow> bytes \<Rightarrow> frow" where
  "uploaded_row u sess sender aad = row_of sender (upload_values u sess aad)"

definition upload_done :: "env \<Rightarrow> session \<Rightarrow> upload_fields \<Rightarrow> server \<Rightarrow> server \<Rightarrow> bool" where
  "upload_done w sess u s s' \<longleftrightarrow>
     (\<exists>aad. upload_aad w u (peer_subject sess) = Inr aad
        \<and> insert_file (real_text w) (sdb s) (upload_values u sess aad) = Inr (sdb s')
        \<and> sfs s' = (sfs s)(tmp_path_for (file_blob_path_for (cfg w) (u_file_id u)) := None,
            file_blob_path_for (cfg w) (u_file_id u) \<mapsto> u_ciphertext u))"

definition was_sent :: "act list \<Rightarrow> pystr \<Rightarrow> bool" where
  "was_sent acts t \<longleftrightarrow> t \<in> fst ` set (sends acts)"

lemma was_sent_error: "sends acts = [(lit ''ERROR'', p)] \<Longrightarrow> t \<noteq> lit ''ERROR'' \<Longrightarrow> \<not> was_sent acts t"
  by (simp add: was_sent_def)

lemma upload_commit_cases:
  assumes "upload_commit w sess e u s = (s', acts, ex)"
  obtains (refused) "sdb s' = sdb s" "one_error acts ex"
  | (stored) "upload_done w sess u s s'" "ex = None" "disk w = DiskOk"
      "sends acts = [(lit ''UPLOAD_ACK'',
         [(lit ''file_id'', JStr (u_file_id u)), (lit ''expiration'', u_expiration u)])]"
proof -
  consider (mkdir) "disk w = MkdirFails"
    | (fail) s1 e1 where "disk w \<noteq> MkdirFails" "store_upload w s sess u = (s1, Some e1)"
    | (ok) s1 where "disk w \<noteq> MkdirFails" "store_upload w s sess u = (s1, None)"
    by (metis option.exhaust prod.exhaust)
  then show thesis
  proof cases
    case mkdir
    with assms refused show thesis by (simp add: upload_commit_def upload_answer_def)
  next
    case fail
    with store_upload_Some [OF fail(2)] assms refused show thesis
      by (simp add: upload_commit_def upload_answer_def Let_def split: if_split_asm)
  next
    case ok
    have "upload_done w sess u s s1"
      using store_upload_None [OF ok(2)]
      by (auto simp: upload_done_def)
    moreover have "disk w = DiskOk" using store_upload_None [OF ok(2)] ok(1) by auto
    ultimately show thesis using assms ok stored by (simp add: upload_commit_def upload_answer_def Let_def)
  qed
qed

text \<open>
  The whole handler: refused without a trace in the tables (but possibly the recorded
  nonce), or accepted with everything checked.
\<close>

lemma handle_upload_cases:
  assumes "handle_upload_request w s sess e = (s', acts, ex)"
  obtains (refused) "only_nonce w e s s'" "one_error acts ex"
  | (accepted) s1 u where "gate_passed w e s s1" "upload_authorised w s1 sess e u"
      "upload_done w sess u s1 s'" "ex = None" "disk w = DiskOk"
      "sends acts = [(lit ''UPLOAD_ACK'',
         [(lit ''file_id'', JStr (u_file_id u)), (lit ''expiration'', u_expiration u)])]"
  using assms unfolding handle_upload_request_def
proof (cases rule: replay_gate_cases)
  case refused
  with that(1) show thesis by (auto simp: only_nonce_def)
next
  case (passed s1)
  from passed(2) show thesis
  proof (cases rule: upload_fresh_cases)
    case refused
    with passed(1) that(1) show thesis by (auto simp: only_nonce_def)
  next
    case (committed u)
    from committed(2) show thesis
    proof (cases rule: upload_commit_cases)
      case refused
      with passed(1) that(1) show thesis by (auto simp: only_nonce_def)
    next
      case stored
      show thesis by (rule that(2)) (fact passed(1) committed(1) stored)+
    qed
  qed
qed

lemma upload_done_row:
  assumes "upload_done w sess u s s'"
  obtains sender aad where "bind_text (real_text w) (peer_subject sess) = Inr (Some sender)"
    "upload_aad w u (peer_subject sess) = Inr aad" "lookup_file (sdb s) (u_file_id u) = None"
    "sdb s' = (sdb s)\<lparr>files := files (sdb s) @ [uploaded_row u sess sender aad]\<rparr>"
  using assms
  by (auto simp: upload_done_def uploaded_row_def insert_file_Inr_iff upload_values_def)

lemma upload_done_ok: "upload_done w sess u s s' \<Longrightarrow> db_ok (sdb s) \<Longrightarrow> db_ok (sdb s')"
  by (auto simp: upload_done_def upload_values_def STATUSES_def elim!: insert_file_ok)

lemma handle_upload_ok:
  assumes "handle_upload_request w s sess e = (s', acts, ex)" "db_ok (sdb s)"
  shows "db_ok (sdb s')"
  using assms(1)
proof (cases rule: handle_upload_cases)
  case refused
  from only_nonce_ok [OF this(1) assms(2)] show ?thesis .
next
  case (accepted s1 u)
  from upload_done_ok [OF accepted(3) gate_passed_ok [OF accepted(1) assms(2)]] show ?thesis .
qed

text \<open>
  A second upload under a file id that is taken: the blob of the first one is replaced
  before the insertion fails, and the exception is not one the handler catches.
\<close>

lemma upload_commit_duplicate:
  assumes "lookup_file (sdb s) (u_file_id u) = Some r" "disk w = DiskOk" "insert_fault w = None"
    and "upload_aad w u (peer_subject sess) = Inr aad"
    and "insert_file (real_text w) (sdb s) (upload_values u sess aad) = Inl IntegrityError"
  shows "upload_commit w sess e u s =
    (s\<lparr>sfs := (sfs s)(tmp_path_for (file_blob_path_for (cfg w) (u_file_id u)) := None,
       file_blob_path_for (cfg w) (u_file_id u) \<mapsto> u_ciphertext u)\<rparr>, [], Some IntegrityError)"
  using assms(2-)
  by (simp add: upload_commit_def upload_answer_def store_upload_def insert_row_def write_blob_def Let_def abort_def)

section \<open>An honest upload is accepted\<close>

text \<open>What the environment has to grant: a working disk and database, a free file id, times
  of 64 bits and a sender whose name is text.\<close>

definition upload_storable :: "env \<Rightarrow> server \<Rightarrow> session \<Rightarrow> upload_fields \<Rightarrow> bool" where
  "upload_storable w s sess u \<longleftrightarrow>
     disk w = DiskOk \<and> insert_fault w = None \<and> lookup_file (sdb s) (u_file_id u) = None
     \<and> (\<exists>name. peer_subject sess = JStr name \<and> wf_str name)
     \<and> wf_json (peer_cert sess)
     \<and> int64 (the (as_int (u_timestamp u))) \<and> int64 (the (as_int (u_expiration u)))"

lemma insert_file_new:
  assumes "lookup_file db (v_file_id v) = None" "v_sender_id v = JStr name" "wf_str name"
    and "wf_str (v_file_id v)" "wf_str (v_recipient_id v)"
    and "int64 (v_upload_timestamp v)" "int64 (v_expiration v)" "v_status v = Some (lit st)"
    and "wf_str (v_ciphertext_path v)" "wf_str (v_ciphertext_sha256 v)" "wf_str (v_sender_cert_json v)"
  shows "insert_file rt db v = Inr (db\<lparr>files := files db @ [row_of name v]\<rparr>)"
  using assms by (auto simp: insert_file_Inr_iff bind_text_JStr)

lemma upload_values_wf:
  assumes "upload_authorised w s sess e u" "wf_json (peer_cert sess)"
  shows "wf_str (v_file_id (upload_values u sess aad))" "wf_str (v_recipient_id (upload_values u sess aad))"
    "wf_str (v_ciphertext_path (upload_values u sess aad))"
    "wf_str (v_ciphertext_sha256 (upload_values u sess aad))"
    "wf_str (v_sender_cert_json (upload_values u sess aad))"
proof -
  have p: "parse_upload (e_payload e) = Inr u" using assms(1) by (simp add: upload_authorised_def)
  note q = parse_upload_Inr [OF p]
  have "wf_str (u_file_id u)" "wf_str (u_recipient u)" using q uuid_wf username_wf by blast+
  moreover have "wf_str (sha256_hex b)" for b by (intro wf_str_ascii) auto
  moreover have "wf_str (dumps default_opts (sort_keys (peer_cert sess)))"
    using assms(2) by (intro wf_str_dumps wf_sort_keys) simp_all
  ultimately show "wf_str (v_file_id (upload_values u sess aad))"
    "wf_str (v_recipient_id (upload_values u sess aad))"
    "wf_str (v_ciphertext_path (upload_values u sess aad))"
    "wf_str (v_ciphertext_sha256 (upload_values u sess aad))"
    "wf_str (v_sender_cert_json (upload_values u sess aad))"
    by (simp_all add: upload_values_def)
qed

lemma file_aad_wf:
  assumes "wf_str f" "wf_str s" "wf_str r" obtains aad where "file_aad f s r = Inr aad"
  using utf8_encode_wf [of "f @ lit ''|'' @ s @ lit ''|'' @ r"] assms by (auto simp: file_aad_def)

lemma upload_commit_stores:
  assumes a: "upload_authorised w s sess e u" and st: "upload_storable w s sess u"
  shows "\<exists>s' acts. upload_commit w sess e u s = (s', acts, None) \<and> upload_done w sess u s s'"
proof -
  obtain name where n: "peer_subject sess = JStr name" "wf_str name"
    using st by (auto simp: upload_storable_def)
  have c: "wf_json (peer_cert sess)" using st by (simp add: upload_storable_def)
  note wf = upload_values_wf [OF a c]
  have "wf_str (u_file_id u)" "wf_str (u_recipient u)"
    using wf(1,2) by (simp_all add: upload_values_def)
  then obtain aad where aad: "upload_aad w u (peer_subject sess) = Inr aad"
    using n file_aad_wf [of "u_file_id u" name "u_recipient u"] by (auto simp: upload_aad_def py_str_def)
  have i: "insert_file (real_text w) (sdb s) (upload_values u sess aad) =
      Inr ((sdb s)\<lparr>files := files (sdb s) @ [row_of name (upload_values u sess aad)]\<rparr>)"
    using st n wf [of aad]
    by (intro insert_file_new [where st = "''pending''"]) (simp_all add: upload_storable_def upload_values_def)
  have d: "disk w = DiskOk" "insert_fault w = None" using st by (simp_all add: upload_storable_def)
  show ?thesis
    using aad i d
    by (auto simp: upload_commit_def upload_answer_def store_upload_def insert_row_def write_blob_def upload_done_def Let_def)
qed

lemma handle_upload_accepts:
  assumes g: "gate_passed w e s s1" and a: "upload_authorised w s1 sess e u"
    and st: "upload_storable w s1 sess u"
  shows "\<exists>s' acts. handle_upload_request w s sess e = (s', acts, None) \<and> upload_done w sess u s1 s'"
proof -
  obtain nonce ts db1 where n: "b64_field (e_nonce e) = Some nonce" "as_int (e_timestamp e) = Some ts"
      "nonce_fault w = None" "check_and_record (sdb s) nonce ts (t_replay w) = (db1, True)"
      "s1 = s\<lparr>sdb := db1\<rparr>"
    using g by (auto simp: gate_passed_def)
  then have "replay_check w (sdb s) nonce (e_timestamp e) = Inr (db1, True)"
    by (auto simp: replay_check_True)
  then have "handle_upload_request w s sess e = upload_fresh w sess e s1"
    using n by (simp add: handle_upload_request_def replay_gate_def)
  also have "\<dots> = upload_commit w sess e u s1"
  proof -
    obtain cert where "load_verified_pubkey_cert w (sfs s1) (JStr (u_recipient u)) = Inr (Some cert)"
      using a by (auto simp: upload_authorised_def)
    then show ?thesis
      using a by (simp add: upload_fresh_def upload_verified_def upload_authorised_def
          verify_origin_struct_True [symmetric])
  qed
  finally show ?thesis using upload_commit_stores [OF a st] by simp
qed

section \<open>A taken file id\<close>

lemma insert_file_taken:
  assumes "lookup_file db (v_file_id v) = Some r" "v_sender_id v = JStr name" "wf_str name"
    and "wf_str (v_file_id v)" "wf_str (v_recipient_id v)"
    and "int64 (v_upload_timestamp v)" "int64 (v_expiration v)" "v_status v = Some (lit st)"
    and "wf_str (lit st)"
    and "wf_str (v_ciphertext_path v)" "wf_str (v_ciphertext_sha256 v)" "wf_str (v_sender_cert_json v)"
  shows "insert_file rt db v = Inl IntegrityError"
  using assms by (simp add: insert_file_def bind_str_def bind_int_def bind_text_def wf_str_def ensure_def)

lemma handle_upload_taken:
  assumes g: "gate_passed w e s s1" and a: "upload_authorised w s1 sess e u"
    and l: "lookup_file (sdb s1) (u_file_id u) = Some r"
    and d: "disk w = DiskOk" "insert_fault w = None"
    and n: "peer_subject sess = JStr name" "wf_str name" and c: "wf_json (peer_cert sess)"
    and i: "int64 (the (as_int (u_timestamp u)))" "int64 (the (as_int (u_expiration u)))"
  shows "handle_upload_request w s sess e =
    (s1\<lparr>sfs := (sfs s1)(tmp_path_for (file_blob_path_for (cfg w) (u_file_id u)) := None,
       file_blob_path_for (cfg w) (u_file_id u) \<mapsto> u_ciphertext u)\<rparr>, [], Some IntegrityError)"
proof -
  note wf = upload_values_wf [OF a c]
  have "wf_str (u_file_id u)" "wf_str (u_recipient u)" using wf(1,2) by (simp_all add: upload_values_def)
  then obtain aad where aad: "upload_aad w u (peer_subject sess) = Inr aad"
    using n file_aad_wf [of "u_file_id u" name "u_recipient u"] by (auto simp: upload_aad_def py_str_def)
  have ins: "insert_file (real_text w) (sdb s1) (upload_values u sess aad) = Inl IntegrityError"
    using l n i wf [of aad]
    by (intro insert_file_taken [where st = "''pending''"]) (simp_all add: upload_values_def)
  obtain cert where "load_verified_pubkey_cert w (sfs s1) (JStr (u_recipient u)) = Inr (Some cert)"
    using a by (auto simp: upload_authorised_def)
  then have "upload_fresh w sess e s1 = upload_commit w sess e u s1"
    using a by (simp add: upload_fresh_def upload_verified_def upload_authorised_def
        verify_origin_struct_True [symmetric])
  then have "handle_upload_request w s sess e = upload_commit w sess e u s1"
    by (simp add: handle_upload_request_def replay_gate_passed [OF g])
  then show ?thesis using upload_commit_duplicate [OF l d aad ins] by simp
qed

section \<open>What an upload may write\<close>

lemma upload_commit_fs:
  assumes "upload_commit w sess e u s = (s', acts, ex)" "sfs s' p \<noteq> sfs s p"
  shows "p \<in> {file_blob_path_for (cfg w) (u_file_id u), tmp_path_for (file_blob_path_for (cfg w) (u_file_id u))}"
proof (rule ccontr)
  assume n: "\<not> ?thesis"
  obtain s1 r where st: "store_upload w s sess u = (s1, r)" by fastforce
  have "sfs s1 p = sfs s p" using store_upload_fs [OF st] n by simp
  moreover have "s' = s \<or> s' = s1"
    using assms(1) st by (auto simp: upload_commit_def upload_answer_def Let_def split: if_split_asm option.split_asm)
  ultimately show False using assms(2) by auto
qed

lemma handle_upload_fs:
  assumes "handle_upload_request w s sess e = (s', acts, ex)" "sfs s' p \<noteq> sfs s p"
  obtains s1 u where "upload_authorised w s1 sess e u"
    "p \<in> {file_blob_path_for (cfg w) (u_file_id u), tmp_path_for (file_blob_path_for (cfg w) (u_file_id u))}"
  using assms(1) unfolding handle_upload_request_def
proof (cases rule: replay_gate_cases)
  case refused
  with assms(2) show thesis by simp
next
  case (passed s1)
  have same: "sfs s1 = sfs s" using gate_passed_same [OF passed(1)] by simp
  from passed(2) show thesis
  proof (cases rule: upload_fresh_cases)
    case refused
    with same assms(2) show thesis by simp
  next
    case (committed u)
    with upload_commit_fs [OF committed(2)] same assms(2) that show thesis by simp
  qed
qed

end
