(* ===== verification/Download.thy ===== *)
theory Download
  imports Server
begin

text \<open>
  \<open>_authorise_download\<close> and \<open>_handle_download_request\<close> of \<open>server/handler.py\<close>: who may
  fetch which blob.
\<close>

section \<open>The access-control chokepoint\<close>

text \<open>The triple the chokepoint returns, its log calls kept apart.\<close>

datatype verdict = Granted frow | Denied pystr

definition deny_log :: "level \<Rightarrow> pystr \<Rightarrow> string \<Rightarrow> fields \<Rightarrow> json \<Rightarrow> session \<Rightarrow> fields \<Rightarrow> string \<Rightarrow> field_value \<Rightarrow> act" where
  "deny_log lv event reason pre f sess extra code rid =
     Log lv event
       ([(lit ''reason'', ltext reason)] @ pre @ [(lit ''file_id'', Val f), (lit ''requester'', Val (peer_subject sess))]
        @ extra @ [(lit ''client_code'', ltext code), (lit ''request_id'', rid)])"

abbreviation deny :: "string \<Rightarrow> json \<Rightarrow> session \<Rightarrow> string \<Rightarrow> field_value \<Rightarrow> act" where
  "deny reason f sess code rid \<equiv> deny_log WARNING (lit ''download_deny'') reason [] f sess [] code rid"

text \<open>The lazy expiry: an update that does not look at the status again.\<close>

definition expire_mark ::
    "env \<Rightarrow> db \<Rightarrow> session \<Rightarrow> json \<Rightarrow> field_value \<Rightarrow> db \<times> act list \<times> (exc + verdict)" where
  "expire_mark w db sess f rid =
     (case with_fault (mark_fault w) (mark_status (real_text w) db f (lit ''expired'')) of
        Inl ex \<Rightarrow> (db, [], Inl ex)
      | Inr db' \<Rightarrow> (db', [deny ''past_expiration'' f sess ''EXPIRED'' rid], Inr (Denied (lit ''EXPIRED''))))"

definition authorise_download ::
    "env \<Rightarrow> db \<Rightarrow> session \<Rightarrow> json \<Rightarrow> field_value \<Rightarrow> db \<times> act list \<times> (exc + verdict)" where
  "authorise_download w db sess f rid =
     (case with_fault (get_fault w) (get_file (real_text w) db f) of
        Inl ex \<Rightarrow> (db, [], Inl ex)
      | Inr None \<Rightarrow>
          (db, [deny ''file_not_in_db'' f sess ''NOT_FOUND'' rid], Inr (Denied (lit ''NOT_FOUND'')))
      | Inr (Some row) \<Rightarrow>
          if \<not> py_eq (JStr (recipient_id row)) (peer_subject sess) then
            (db,
             [deny_log WARNING (lit ''unauthorized_download'') ''recipient_mismatch'' [] f sess
                [(lit ''expected'', Val (JStr (recipient_id row)))] ''AUTH_FAILED'' rid],
             Inr (Denied (lit ''AUTH_FAILED'')))
          else if expiration row \<le> t_auth w then
            (if status row = lit ''pending'' then expire_mark w db sess f rid
             else (db, [deny ''past_expiration'' f sess ''EXPIRED'' rid], Inr (Denied (lit ''EXPIRED''))))
          else if status row = lit ''pending'' then (db, [], Inr (Granted row))
          else if status row = lit ''expired'' then
            (db, [deny ''status_expired'' f sess ''EXPIRED'' rid], Inr (Denied (lit ''EXPIRED'')))
          else if status row = lit ''revoked'' then
            (db, [deny ''status_revoked'' f sess ''REVOKED'' rid], Inr (Denied (lit ''REVOKED'')))
          else if status row = lit ''downloaded'' then
            (db, [deny ''status_downloaded'' f sess ''ALREADY_DOWNLOADED'' rid],
             Inr (Denied (lit ''ALREADY_DOWNLOADED'')))
          else
            (db,
             [deny_log ERROR (lit ''download_deny'') ''unknown_status''
                [(lit ''status'', Val (JStr (status row)))] f sess [] ''INTERNAL_ERROR'' rid],
             Inr (Denied (lit ''INTERNAL_ERROR''))))"

section \<open>The handler\<close>

definition b64_json :: "bytes \<Rightarrow> json" where
  "b64_json bs = JStr (b64encode bs)"

definition download_payload :: "json \<Rightarrow> frow \<Rightarrow> bytes \<Rightarrow> jdict" where
  "download_payload f row ciphertext =
     [(lit ''file_id'', f),
      (lit ''sender_id'', JStr (sender_id row)),
      (lit ''timestamp'', JInt (upload_timestamp row)),
      (lit ''expiration'', JInt (expiration row)),
      (lit ''ciphertext'', b64_json ciphertext),
      (lit ''wrapped_key'', b64_json (wrapped_key row)),
      (lit ''aes_nonce'', b64_json (aes_nonce row)),
      (lit ''aes_aad'', b64_json (aes_aad row)),
      (lit ''sender_signature'', b64_json (sender_signature row)),
      (lit ''sender_cert_json'', JStr (sender_cert_json row))]"

text \<open>Reading the blob and answering, once the row is granted.  The path is built from the
  payload's \<open>file_id\<close> as \<open>str\<close> shows it.\<close>

definition serve_blob :: "env \<Rightarrow> server \<Rightarrow> session \<Rightarrow> envelope \<Rightarrow> json \<Rightarrow> frow \<Rightarrow> outcome" where
  "serve_blob w s sess e f row =
     (let requester = (lit ''requester'', Val (peer_subject sess));
          rid = (lit ''request_id'', request_id e) in
      case sfs s (file_blob_path_for (cfg w) (py_str (repr_of w) f)) of
        None \<Rightarrow>
          finish s
            [Log ERROR (lit ''download_internal_error'')
               [(lit ''reason'', ltext ''blob_missing''), (lit ''file_id'', Val f), requester, rid],
             send_error (lit ''INTERNAL_ERROR'')]
      | Some ciphertext \<Rightarrow>
          (case blob_fault w of
             Some ex \<Rightarrow>
               if is_OSError ex then
                 finish s
                   [Log ERROR (lit ''download_internal_error'')
                      [(lit ''reason'', ltext ''blob_read_failed''), (lit ''file_id'', Val f), requester,
                       (lit ''err_type'', Val (JStr (exc_name ex))), rid],
                    send_error (lit ''INTERNAL_ERROR'')]
               else abort s [] ex
           | None \<Rightarrow>
               finish s
                 [Send (lit ''DOWNLOAD_RESPONSE'') (download_payload f row ciphertext),
                  Log INFO (lit ''download_served'')
                    [(lit ''file_id'', Val f), (lit ''recipient'', Val (peer_subject sess)),
                     (lit ''sender'', Val (JStr (sender_id row))),
                     (lit ''ct_fp'', Val (JStr (fingerprint ciphertext))), rid]]))"

text \<open>What the handler makes of the chokepoint's triple.\<close>

definition download_answer ::
    "env \<Rightarrow> session \<Rightarrow> envelope \<Rightarrow> json \<Rightarrow> server \<Rightarrow> db \<times> act list \<times> (exc + verdict) \<Rightarrow> outcome" where
  "download_answer w sess e f s r =
     (case r of
        (db', logs, Inl ex) \<Rightarrow> abort (s\<lparr>sdb := db'\<rparr>) logs ex
      | (db', logs, Inr (Denied code)) \<Rightarrow> finish (s\<lparr>sdb := db'\<rparr>) (logs @ [send_error code])
      | (db', logs, Inr (Granted row)) \<Rightarrow>
          (case serve_blob w (s\<lparr>sdb := db'\<rparr>) sess e f row of (s', acts, ex) \<Rightarrow> (s', logs @ acts, ex)))"

definition download_fresh :: "env \<Rightarrow> session \<Rightarrow> envelope \<Rightarrow> server \<Rightarrow> outcome" where
  "download_fresh w sess e s =
     (case map_of (e_payload e) (lit ''file_id'') of
        None \<Rightarrow>
          finish s
            [Log WARNING (lit ''download_reject'')
               [(lit ''reason'', ltext ''malformed_payload''), (lit ''requester'', Val (peer_subject sess)),
                (lit ''request_id'', request_id e)],
             send_error (lit ''MALFORMED'')]
      | Some f \<Rightarrow>
          download_answer w sess e f s (authorise_download w (sdb s) sess f (request_id e)))"

definition handle_download_request :: "env \<Rightarrow> server \<Rightarrow> session \<Rightarrow> envelope \<Rightarrow> outcome" where
  "handle_download_request w s sess e =
     replay_gate w s sess e (lit ''download_reject'') (lit ''requester'')
       [(lit ''scope'', ltext ''download'')] (download_fresh w sess e)"

section \<open>What is granted\<close>

text \<open>The specification: a pending row of the handshake-proven subject, not yet expired.\<close>

definition may_download :: "db \<Rightarrow> int \<Rightarrow> json \<Rightarrow> frow \<Rightarrow> bool" where
  "may_download db now subject row \<longleftrightarrow>
     row \<in> set (files db) \<and> subject = JStr (recipient_id row)
     \<and> status row = lit ''pending'' \<and> now < expiration row"

lemma get_file_Some:
  "get_file rt db f = Inr (Some row) \<Longrightarrow>
     bind_text rt f = Inr (Some (file_id row)) \<and> lookup_file db (file_id row) = Some row
     \<and> row \<in> set (files db)"
  by (auto simp: get_file_def rbind_Inr_iff bind_eq_Some_conv dest: lookup_file_SomeD)

lemma authorise_granted:
  assumes "authorise_download w db sess f rid = (db', logs, Inr (Granted row))"
  shows "db' = db \<and> logs = [] \<and> get_file (real_text w) db f = Inr (Some row)
    \<and> may_download db (t_auth w) (peer_subject sess) row"
  using assms get_file_Some [of "real_text w" db f row]
  unfolding authorise_download_def expire_mark_def may_download_def
  by (auto split: sum.split_asm option.split_asm if_split_asm)

lemma authorise_iff:
  "authorise_download w db sess f rid = (db', logs, Inr (Granted row)) \<longleftrightarrow>
     get_fault w = None \<and> get_file (real_text w) db f = Inr (Some row)
     \<and> may_download db (t_auth w) (peer_subject sess) row \<and> db' = db \<and> logs = []"
proof
  assume g: "authorise_download w db sess f rid = (db', logs, Inr (Granted row))"
  then have "get_fault w = None"
    by (cases "get_fault w") (auto simp: authorise_download_def expire_mark_def with_fault_def)
  with authorise_granted [OF g] show "get_fault w = None \<and> get_file (real_text w) db f = Inr (Some row)
     \<and> may_download db (t_auth w) (peer_subject sess) row \<and> db' = db \<and> logs = []" by simp
qed (simp add: authorise_download_def expire_mark_def may_download_def)

text \<open>The only change a refusal may make: a pending row past its expiration becomes
  expired.\<close>

lemma authorise_changes:
  assumes "authorise_download w db sess f rid = (db', logs, v)"
  obtains (same) "db' = db"
  | (expired) row where "get_file (real_text w) db f = Inr (Some row)" "status row = lit ''pending''"
      "expiration row \<le> t_auth w" "db' = set_status (file_id row) (lit ''expired'') db"
      "v = Inr (Denied (lit ''EXPIRED''))" "peer_subject sess = JStr (recipient_id row)"
proof (cases "with_fault (get_fault w) (get_file (real_text w) db f)")
  case (Inl ex)
  with assms same show thesis by (simp add: authorise_download_def expire_mark_def)
next
  case (Inr r)
  show thesis
  proof (cases r)
    case None
    with Inr assms same show thesis by (simp add: authorise_download_def expire_mark_def)
  next
    case (Some row)
    from Inr Some have g: "get_file (real_text w) db f = Inr (Some row)" by simp
    then have "bind_text (real_text w) f = Inr (Some (file_id row))" by (rule get_file_Some [THEN conjunct1])
    then have m: "mark_status (real_text w) db f (lit ''expired'') = Inr d \<Longrightarrow>
        d = set_status (file_id row) (lit ''expired'') db" for d
      by (auto simp: mark_status_def split: if_split_asm)
    show thesis
    proof (cases "db' = db")
      case True
      then show thesis by (rule same)
    next
      case False
      then show thesis
        using assms expired [of row] Inr Some g unfolding authorise_download_def expire_mark_def
        by (auto split: sum.split_asm if_split_asm dest: m)
    qed
  qed
qed

lemma authorise_logs:
  assumes "authorise_download w db sess f rid = (db', logs, v)"
  shows "sends logs = [] \<and> ((\<exists>c. v = Inr (Denied c)) \<longleftrightarrow> logs \<noteq> [])"
  using assms unfolding authorise_download_def expire_mark_def deny_log_def
  by (auto split: sum.split_asm option.split_asm if_split_asm)

text \<open>The answer \<open>DOWNLOAD_RESPONSE\<close> carries a blob only to its recipient.\<close>

definition served :: "env \<Rightarrow> server \<Rightarrow> session \<Rightarrow> envelope \<Rightarrow> json \<Rightarrow> frow \<Rightarrow> bytes \<Rightarrow> bool" where
  "served w s sess e f row ct \<longleftrightarrow>
     map_of (e_payload e) (lit ''file_id'') = Some f
     \<and> get_file (real_text w) (sdb s) f = Inr (Some row)
     \<and> may_download (sdb s) (t_auth w) (peer_subject sess) row
     \<and> sfs s (file_blob_path_for (cfg w) (py_str (repr_of w) f)) = Some ct"

lemma sends_append [simp]: "sends (a @ b) = sends a @ sends b"
  by (simp add: sends_def)

definition expiry_only :: "env \<Rightarrow> session \<Rightarrow> db \<Rightarrow> db \<Rightarrow> bool" where
  "expiry_only w sess db db' \<longleftrightarrow>
     db' = db \<or> (\<exists>row \<in> set (files db). status row = lit ''pending'' \<and> expiration row \<le> t_auth w
        \<and> peer_subject sess = JStr (recipient_id row)
        \<and> db' = set_status (file_id row) (lit ''expired'') db)"

lemma serve_blob_cases:
  assumes "serve_blob w s sess e f row = (s', acts, ex)"
  obtains (refused) "s' = s" "one_error acts ex"
  | (answered) ct where "s' = s" "ex = None"
      "sfs s (file_blob_path_for (cfg w) (py_str (repr_of w) f)) = Some ct"
      "sends acts = [(lit ''DOWNLOAD_RESPONSE'', download_payload f row ct)]"
  using assms unfolding serve_blob_def Let_def
  by (auto split: option.split_asm if_split_asm)

lemma one_error_logs:
  assumes "sends logs = []" "logs \<noteq> []"
  shows "one_error (logs @ [send_error c]) None"
  using assms by (simp add: one_error_def)

lemma download_fresh_cases:
  assumes "download_fresh w sess e s = (s', acts, ex)"
  obtains (refused) "expiry_only w sess (sdb s) (sdb s')" "sfs s' = sfs s" "one_error acts ex"
  | (answered) f row ct where "s' = s" "ex = None" "served w s sess e f row ct"
      "sends acts = [(lit ''DOWNLOAD_RESPONSE'', download_payload f row ct)]"
proof (cases "map_of (e_payload e) (lit ''file_id'')")
  case None
  with assms refused show thesis by (simp add: download_fresh_def download_answer_def expiry_only_def)
next
  case (Some f)
  obtain db' logs v where a: "authorise_download w (sdb s) sess f (request_id e) = (db', logs, v)"
    by (metis prod_cases3)
  have x: "expiry_only w sess (sdb s) db'"
    using a by (cases rule: authorise_changes) (auto simp: expiry_only_def dest: get_file_Some)
  consider (raise) e0 where "v = Inl e0" | (denied) c where "v = Inr (Denied c)"
    | (granted) row where "v = Inr (Granted row)"
    by (metis sum.exhaust verdict.exhaust)
  then show thesis
  proof cases
    case raise
    with authorise_logs [OF a] have "logs = []" by simp
    with raise a Some assms refused x show thesis by (simp add: download_fresh_def download_answer_def)
  next
    case denied
    with authorise_logs [OF a] one_error_logs have "one_error (logs @ [send_error c]) None" by simp
    with denied a Some assms refused x show thesis by (simp add: download_fresh_def download_answer_def)
  next
    case granted
    note g = authorise_granted [OF a [unfolded granted]]
    have "serve_blob w s sess e f row = (s', acts, ex)"
      using granted a g Some assms by (auto simp: download_fresh_def download_answer_def split: prod.split_asm)
    then show thesis
    proof (cases rule: serve_blob_cases)
      case refused
      with that(1) show thesis by (simp add: expiry_only_def)
    next
      case (answered ct)
      with that(2) [of f row ct] g Some show thesis by (simp add: served_def)
    qed
  qed
qed

lemma handle_download_cases:
  assumes "handle_download_request w s sess e = (s', acts, ex)"
  obtains (refused) s1 where "s1 = s \<or> gate_passed w e s s1" "expiry_only w sess (sdb s1) (sdb s')"
      "sfs s' = sfs s" "one_error acts ex"
  | (answered) f row ct where "gate_passed w e s s'" "ex = None" "served w s sess e f row ct"
      "sends acts = [(lit ''DOWNLOAD_RESPONSE'', download_payload f row ct)]"
  using assms unfolding handle_download_request_def
proof (cases rule: replay_gate_cases)
  case refused
  with that(1) [of s] show thesis by (auto simp: expiry_only_def)
next
  case (passed s1)
  note same = gate_passed_same [OF passed(1)]
  from passed(2) show thesis
  proof (cases rule: download_fresh_cases)
    case refused
    with same passed(1) that(1) [of s1] show thesis by simp
  next
    case (answered f row ct)
    moreover have "served w s sess e f row ct"
      using answered(3) same
      by (simp add: served_def may_download_def get_file_def lookup_file_def [abs_def])
    ultimately show thesis using passed(1) that(2) by blast
  qed
qed

lemma expiry_only_ok: "expiry_only w sess db db' \<Longrightarrow> db_ok db \<Longrightarrow> db_ok db'"
  by (auto simp: expiry_only_def STATUSES_def intro: set_status_ok)

lemma handle_download_ok:
  assumes "handle_download_request w s sess e = (s', acts, ex)" "db_ok (sdb s)"
  shows "db_ok (sdb s')"
  using assms(1)
proof (cases rule: handle_download_cases)
  case (refused s1)
  have "db_ok (sdb s1)" using refused(1) assms(2) gate_passed_ok by blast
  from expiry_only_ok [OF refused(2) this] show ?thesis .
next
  case (answered f row ct)
  from gate_passed_ok [OF answered(1) assms(2)] show ?thesis .
qed

end
