(* ===== verification/Receipt.thy ===== *)
theory Receipt
  imports Server
begin

text \<open>
  \<open>_handle_download_ack\<close> and \<open>_handle_revoke_request\<close> of \<open>server/handler.py\<close>: the two
  requests that end the life of a stored file, each signed once more by its requester.
\<close>

section \<open>Their payload\<close>

record signed_request =
  r_file_id :: pystr
  r_timestamp :: json
  r_signature :: bytes

definition parse_signed :: "jdict \<Rightarrow> signed_request res" where
  "parse_signed payload =
     rbind (jitem payload (lit ''file_id'')) (\<lambda>f.
     rbind (jitem payload (lit ''timestamp'')) (\<lambda>ts.
     rbind (check_file_id f) (\<lambda>file_id.
     rbind (ensure ProtocolError (as_int ts \<noteq> None)) (\<lambda>_.
     rbind (decode_b64_field payload (lit ''signature'')) (\<lambda>sig.
       Inr \<lparr>r_file_id = file_id, r_timestamp = ts, r_signature = sig\<rparr>)))))"

text \<open>\<open>except (KeyError, ValueError, ProtocolError)\<close>\<close>

definition bad_request :: "exc \<Rightarrow> bool" where
  "bad_request e \<longleftrightarrow> e = KeyError \<or> is_ValueError e \<or> e = ProtocolError"

definition reject_malformed :: "server \<Rightarrow> session \<Rightarrow> envelope \<Rightarrow> pystr \<Rightarrow> exc \<Rightarrow> outcome" where
  "reject_malformed s sess e event ex =
     (if bad_request ex then
        finish s
          [Log WARNING event
             [(lit ''reason'', ltext ''malformed_payload''), (lit ''sender'', Val (peer_subject sess)),
              (lit ''request_id'', request_id e), (lit ''err_type'', Val (JStr (exc_name ex)))],
           send_error (lit ''MALFORMED'')]
      else abort s [] ex)"

section \<open>\<open>DOWNLOAD_ACK\<close>\<close>

text \<open>The verification of the receipt, inside \<open>try ... except Exception\<close>: every failure is
  \<open>AUTH_FAILED\<close>.\<close>

definition receipt_verified :: "env \<Rightarrow> session \<Rightarrow> signed_request \<Rightarrow> bool" where
  "receipt_verified w sess q \<longleftrightarrow>
     verify_struct (lib w) (peer_cert sess) (r_signature q)
       (ack_struct (JStr (r_file_id q)) (r_timestamp q)) = Inr True"

text \<open>\<open>store.insert_ack\<close>, which passes over an \<open>IntegrityError\<close>.\<close>

definition record_ack :: "env \<Rightarrow> signed_request \<Rightarrow> db \<Rightarrow> db res" where
  "record_ack w q db =
     (case ack_fault w of
        Some ex \<Rightarrow> if ex = IntegrityError then Inr db else Inl ex
      | None \<Rightarrow> insert_ack db (r_file_id q) (r_signature q) (the (as_int (r_timestamp q))))"

text \<open>The last steps: record the acknowledgement, then mark the row, whatever its status.\<close>

definition ack_mark :: "env \<Rightarrow> signed_request \<Rightarrow> server \<Rightarrow> outcome" where
  "ack_mark w q s =
     (case with_fault (mark_fault w)
             (mark_status (real_text w) (sdb s) (JStr (r_file_id q)) (lit ''downloaded'')) of
        Inl ex \<Rightarrow>
          if is_sqlite_Error ex \<or> is_ValueError ex then finish s [send_error (lit ''INTERNAL_ERROR'')]
          else abort s [] ex
      | Inr db' \<Rightarrow>
          finish (s\<lparr>sdb := db'\<rparr>) [Send (lit ''ACK_OK'') [(lit ''file_id'', JStr (r_file_id q))]])"

definition ack_commit :: "env \<Rightarrow> signed_request \<Rightarrow> server \<Rightarrow> outcome" where
  "ack_commit w q s =
     (case record_ack w q (sdb s) of
        Inl ex \<Rightarrow> abort s [] ex
      | Inr db1 \<Rightarrow> ack_mark w q (s\<lparr>sdb := db1\<rparr>))"

definition ack_fresh :: "env \<Rightarrow> session \<Rightarrow> envelope \<Rightarrow> server \<Rightarrow> outcome" where
  "ack_fresh w sess e s =
     (case parse_signed (e_payload e) of
        Inl ex \<Rightarrow> reject_malformed s sess e (lit ''ack_reject'') ex
      | Inr q \<Rightarrow>
          (case with_fault (get_fault w) (get_file (real_text w) (sdb s) (JStr (r_file_id q))) of
             Inl ex \<Rightarrow> abort s [] ex
           | Inr None \<Rightarrow> finish s [send_error (lit ''NOT_FOUND'')]
           | Inr (Some row) \<Rightarrow>
               if \<not> py_eq (JStr (recipient_id row)) (peer_subject sess) then
                 finish s [send_error (lit ''NOT_AUTHORIZED'')]
               else
                 (case verify_certificate (lib w) (t_cert w) (peer_cert sess) (ca_pubkey w)
                         (expected_of (peer_subject sess)) of
                    Inl ex \<Rightarrow> abort s [] ex
                  | Inr valid \<Rightarrow>
                      if \<not> valid then finish s [send_error (lit ''AUTH_FAILED'')]
                      else if \<not> receipt_verified w sess q then finish s [send_error (lit ''AUTH_FAILED'')]
                      else ack_commit w q s)))"

definition handle_download_ack :: "env \<Rightarrow> server \<Rightarrow> session \<Rightarrow> envelope \<Rightarrow> outcome" where
  "handle_download_ack w s sess e =
     replay_gate w s sess e (lit ''ack_reject'') (lit ''sender'') [(lit ''scope'', ltext ''ack'')]
       (ack_fresh w sess e)"

section \<open>\<open>REVOKE_REQUEST\<close>\<close>

definition REVOKE_TERMINAL_STATES :: "(pystr \<times> pystr) list" where
  "REVOKE_TERMINAL_STATES =
     [(lit ''downloaded'', lit ''ALREADY_DOWNLOADED''), (lit ''expired'', lit ''EXPIRED'')]"

definition revoke_ack :: "signed_request \<Rightarrow> act" where
  "revoke_ack q =
     Send (lit ''REVOKE_ACK'')
       [(lit ''file_id'', JStr (r_file_id q)), (lit ''status'', JStr (lit ''revoked''))]"

text \<open>Steps 6 and 7: the update, which does not look at the status again.\<close>

definition revoke_mark :: "env \<Rightarrow> session \<Rightarrow> envelope \<Rightarrow> signed_request \<Rightarrow> server \<Rightarrow> outcome" where
  "revoke_mark w sess e q s =
     (let sender = (lit ''sender'', Val (peer_subject sess)); rid = (lit ''request_id'', request_id e);
          file_id = (lit ''file_id'', Val (JStr (r_file_id q))) in
      case with_fault (mark_fault w)
             (mark_status (real_text w) (sdb s) (JStr (r_file_id q)) (lit ''revoked'')) of
        Inl ex \<Rightarrow>
          if is_sqlite_Error ex \<or> is_ValueError ex then
            finish s
              [Log ERROR (lit ''revoke_internal_error'')
                 [file_id, sender, (lit ''err_type'', Val (JStr (exc_name ex))), rid],
               send_error (lit ''INTERNAL_ERROR'')]
          else abort s [] ex
      | Inr db' \<Rightarrow>
          finish (s\<lparr>sdb := db'\<rparr>)
            [revoke_ack q,
             Log INFO (lit ''revoke_accept'')
               [file_id, sender, (lit ''sender_fp'', Val (JStr (cert_fp (peer_cert sess)))), rid]])"

text \<open>Step 5: the status decides.\<close>

definition revoke_commit :: "env \<Rightarrow> session \<Rightarrow> envelope \<Rightarrow> signed_request \<Rightarrow> frow \<Rightarrow> server \<Rightarrow> outcome" where
  "revoke_commit w sess e q row s =
     (let sender = (lit ''sender'', Val (peer_subject sess)); rid = (lit ''request_id'', request_id e);
          file_id = (lit ''file_id'', Val (JStr (r_file_id q))) in
      if status row = lit ''revoked'' then
        finish s
          [Plain DEBUG (lit ''revoke_idempotent file=%s sender=%s request_id=%s'')
             [JStr (r_file_id q), peer_subject sess,
              JStr (case as_str (e_request_id e) of None \<Rightarrow> lit ''-'' | Some r \<Rightarrow> r)],
           revoke_ack q]
      else
        (case map_of REVOKE_TERMINAL_STATES (status row) of
           Some code \<Rightarrow>
             finish s
               [Log WARNING (lit ''revoke_reject'')
                  [(lit ''reason'', Val (JStr (lit ''status_'' @ status row))), file_id, sender,
                   (lit ''client_code'', Val (JStr code)), rid],
                send_error code]
         | None \<Rightarrow>
             if status row \<noteq> lit ''pending'' then
               finish s
                 [Log ERROR (lit ''revoke_reject'')
                    [(lit ''reason'', ltext ''unknown_status''), (lit ''status'', Val (JStr (status row))),
                     file_id, sender, (lit ''client_code'', ltext ''INTERNAL_ERROR''), rid],
                  send_error (lit ''INTERNAL_ERROR'')]
             else revoke_mark w sess e q s))"

text \<open>Step 4: the certificate and the signature of the request.\<close>

definition revoke_owned :: "env \<Rightarrow> session \<Rightarrow> envelope \<Rightarrow> signed_request \<Rightarrow> frow \<Rightarrow> server \<Rightarrow> outcome" where
  "revoke_owned w sess e q row s =
     (let sender = (lit ''sender'', Val (peer_subject sess)); rid = (lit ''request_id'', request_id e);
          fp = Val (JStr (cert_fp (peer_cert sess))) in
      case verify_certificate (lib w) (t_cert w) (peer_cert sess) (ca_pubkey w)
             (expected_of (peer_subject sess)) of
        Inl ex \<Rightarrow> abort s [] ex
      | Inr valid \<Rightarrow>
          if \<not> valid then
            finish s
              [Log WARNING (lit ''auth_fail'')
                 [(lit ''scope'', ltext ''revoke''), (lit ''reason'', ltext ''sender_cert_invalid''), sender,
                  (lit ''fp'', fp), rid],
               send_error (lit ''AUTH_FAILED'')]
          else
            (case verify_revoke_struct (lib w) (peer_cert sess) (r_signature q) (peer_subject sess)
                    (JStr (r_file_id q)) (r_timestamp q) of
               Inl ex \<Rightarrow> abort s [] ex
             | Inr good \<Rightarrow>
                 if \<not> good then
                   finish s
                     [Log ERROR (lit ''revoke_sig_fail'')
                        [sender, (lit ''file_id'', Val (JStr (r_file_id q))), (lit ''sender_fp'', fp),
                         (lit ''sig_prefix'', Val (JStr (take 8 (sha256_hex (r_signature q))))), rid],
                      send_error (lit ''AUTH_FAILED'')]
                 else revoke_commit w sess e q row s))"

text \<open>Steps 2 and 3: the row and its owner.\<close>

definition revoke_fresh :: "env \<Rightarrow> session \<Rightarrow> envelope \<Rightarrow> server \<Rightarrow> outcome" where
  "revoke_fresh w sess e s =
     (case parse_signed (e_payload e) of
        Inl ex \<Rightarrow> reject_malformed s sess e (lit ''revoke_reject'') ex
      | Inr q \<Rightarrow>
          (case with_fault (get_fault w) (get_file (real_text w) (sdb s) (JStr (r_file_id q))) of
             Inl ex \<Rightarrow> abort s [] ex
           | Inr None \<Rightarrow>
               finish s
                 [Log WARNING (lit ''revoke_reject'')
                    [(lit ''reason'', ltext ''file_not_in_db''), (lit ''file_id'', Val (JStr (r_file_id q))),
                     (lit ''sender'', Val (peer_subject sess)), (lit ''client_code'', ltext ''NOT_FOUND''),
                     (lit ''request_id'', request_id e)],
                  send_error (lit ''NOT_FOUND'')]
           | Inr (Some row) \<Rightarrow>
               if \<not> py_eq (JStr (sender_id row)) (peer_subject sess) then
                 finish s
                   [Log WARNING (lit ''unauthorized_revoke'')
                      [(lit ''reason'', ltext ''sender_mismatch''), (lit ''file_id'', Val (JStr (r_file_id q))),
                       (lit ''requester'', Val (peer_subject sess)),
                       (lit ''expected'', Val (JStr (sender_id row))),
                       (lit ''client_code'', ltext ''NOT_AUTHORIZED''), (lit ''request_id'', request_id e)],
                    send_error (lit ''NOT_AUTHORIZED'')]
               else revoke_owned w sess e q row s))"

definition handle_revoke_request :: "env \<Rightarrow> server \<Rightarrow> session \<Rightarrow> envelope \<Rightarrow> outcome" where
  "handle_revoke_request w s sess e =
     replay_gate w s sess e (lit ''revoke_reject'') (lit ''sender'') [(lit ''scope'', ltext ''revoke'')]
       (revoke_fresh w sess e)"

section \<open>What is acknowledged, what is revoked\<close>

lemma parse_signed_Inr:
  "parse_signed p = Inr q \<Longrightarrow> check_file_id (JStr (r_file_id q)) = Inr (r_file_id q)"
  by (auto simp: parse_signed_def rbind_Inr_iff) (metis check_file_id_JStr)

text \<open>The row a file id names, for a text that can be bound.\<close>

lemma get_file_JStr:
  "get_file rt db (JStr f) = Inr r \<longleftrightarrow> wf_str f \<and> r = lookup_file db f"
  by (auto simp: get_file_def rbind_Inr_iff bind_text_JStr)

lemma mark_status_JStr:
  "mark_status rt db (JStr f) st = Inr db' \<longleftrightarrow>
     st \<in> set STATUSES \<and> wf_str f \<and> db' = set_status f st db"
  by (auto simp: mark_status_def rbind_Inr_iff bind_text_JStr)

text \<open>The receipt that the handler accepts: a row of this recipient, a valid certificate and a
  signature over the receipt struct.\<close>

definition ack_authorised :: "env \<Rightarrow> server \<Rightarrow> session \<Rightarrow> envelope \<Rightarrow> signed_request \<Rightarrow> frow \<Rightarrow> bool" where
  "ack_authorised w s sess e q row \<longleftrightarrow>
     parse_signed (e_payload e) = Inr q
     \<and> lookup_file (sdb s) (r_file_id q) = Some row
     \<and> peer_subject sess = JStr (recipient_id row)
     \<and> verify_certificate (lib w) (t_cert w) (peer_cert sess) (ca_pubkey w)
         (Some (peer_subject sess)) = Inr True
     \<and> signed_by (lib w) (peer_cert sess) (r_signature q) (ack_struct (JStr (r_file_id q)) (r_timestamp q))"

definition acked :: "env \<Rightarrow> signed_request \<Rightarrow> server \<Rightarrow> server \<Rightarrow> bool" where
  "acked w q s s' \<longleftrightarrow>
     (\<exists>db1. record_ack w q (sdb s) = Inr db1
        \<and> s' = s\<lparr>sdb := set_status (r_file_id q) (lit ''downloaded'') db1\<rparr>)"

text \<open>The acknowledgement recorded without its effect on the row: a database error between
  the two.\<close>

definition half_acked :: "env \<Rightarrow> signed_request \<Rightarrow> server \<Rightarrow> server \<Rightarrow> bool" where
  "half_acked w q s s' \<longleftrightarrow>
     (\<exists>db1. record_ack w q (sdb s) = Inr db1
        \<and> s' = s\<lparr>sdb := db1\<rparr>)"

lemma ack_commit_cases:
  assumes "ack_commit w q s = (s', acts, ex)"
  obtains (refused) "s' = s \<or> half_acked w q s s'" "one_error acts ex"
  | (acknowledged) "acked w q s s'" "ex = None"
      "sends acts = [(lit ''ACK_OK'', [(lit ''file_id'', JStr (r_file_id q))])]"
proof (cases "record_ack w q (sdb s)")
  case (Inl e0)
  with assms refused show thesis by (simp add: ack_commit_def ack_mark_def)
next
  case (Inr db1)
  then have h: "half_acked w q s (s\<lparr>sdb := db1\<rparr>)" by (simp add: half_acked_def)
  show thesis
  proof (cases "with_fault (mark_fault w)
      (mark_status (real_text w) db1 (JStr (r_file_id q)) (lit ''downloaded''))")
    case (Inl e1)
    with Inr h assms refused show thesis by (auto simp: ack_commit_def ack_mark_def split: if_split_asm)
  next
    case m: (Inr db2)
    then have "acked w q s (s\<lparr>sdb := db2\<rparr>)" using Inr by (auto simp: acked_def mark_status_JStr)
    with m Inr assms acknowledged show thesis by (simp add: ack_commit_def ack_mark_def)
  qed
qed

lemma reject_malformed_cases:
  "reject_malformed s sess e ev x = (s', acts, ex) \<Longrightarrow> s' = s \<and> one_error acts ex"
  by (auto simp: reject_malformed_def split: if_split_asm)

lemma expected_of_JStr [simp]: "expected_of (JStr s) = Some (JStr s)"
  by (simp add: expected_of_def)

lemma ack_fresh_cases:
  assumes "ack_fresh w sess e s = (s', acts, ex)"
  obtains (refused) "s' = s" "one_error acts ex"
  | (committed) q row where "ack_authorised w s sess e q row" "ack_commit w q s = (s', acts, ex)"
proof (cases "parse_signed (e_payload e)")
  case (Inl e0)
  with assms refused show thesis by (auto simp: ack_fresh_def dest: reject_malformed_cases)
next
  case q: (Inr q)
  show thesis
  proof (cases "with_fault (get_fault w) (get_file (real_text w) (sdb s) (JStr (r_file_id q)))")
    case (Inl e1)
    with q assms refused show thesis by (simp add: ack_fresh_def)
  next
    case (Inr r)
    show thesis
    proof (cases r)
      case None
      with q Inr assms refused show thesis by (simp add: ack_fresh_def)
    next
      case (Some row)
      with Inr have l: "lookup_file (sdb s) (r_file_id q) = Some row" by (simp add: get_file_JStr)
      show thesis
        using assms q Inr Some refused committed [of q row] l
        by (auto simp: ack_fresh_def ack_authorised_def receipt_verified_def verify_struct_True
            split: if_split_asm sum.split_asm)
    qed
  qed
qed

lemma handle_ack_cases:
  assumes "handle_download_ack w s sess e = (s', acts, ex)"
  obtains (refused) "only_nonce w e s s'" "one_error acts ex"
  | (half) s1 q row where "gate_passed w e s s1" "ack_authorised w s1 sess e q row" "half_acked w q s1 s'"
      "one_error acts ex"
  | (acknowledged) s1 q row where "gate_passed w e s s1" "ack_authorised w s1 sess e q row"
      "acked w q s1 s'" "ex = None"
      "sends acts = [(lit ''ACK_OK'', [(lit ''file_id'', JStr (r_file_id q))])]"
  using assms unfolding handle_download_ack_def
proof (cases rule: replay_gate_cases)
  case refused
  with that(1) show thesis by (auto simp: only_nonce_def)
next
  case (passed s1)
  from passed(2) show thesis
  proof (cases rule: ack_fresh_cases)
    case refused
    with passed(1) that(1) show thesis by (auto simp: only_nonce_def)
  next
    case (committed q row)
    from committed(2) show thesis
    proof (cases rule: ack_commit_cases)
      case refused
      with passed(1) that(1) that(2) committed(1) show thesis by (auto simp: only_nonce_def)
    next
      case acknowledged
      with passed(1) that(3) committed(1) show thesis by blast
    qed
  qed
qed

section \<open>Revocation\<close>

definition revoke_authorised :: "env \<Rightarrow> server \<Rightarrow> session \<Rightarrow> envelope \<Rightarrow> signed_request \<Rightarrow> frow \<Rightarrow> bool" where
  "revoke_authorised w s sess e q row \<longleftrightarrow>
     parse_signed (e_payload e) = Inr q
     \<and> lookup_file (sdb s) (r_file_id q) = Some row
     \<and> peer_subject sess = JStr (sender_id row)
     \<and> verify_certificate (lib w) (t_cert w) (peer_cert sess) (ca_pubkey w)
         (Some (peer_subject sess)) = Inr True
     \<and> signed_by (lib w) (peer_cert sess) (r_signature q)
         (revoke_struct (peer_subject sess) (JStr (r_file_id q)) (r_timestamp q))"

definition revoke_reply :: "signed_request \<Rightarrow> pystr \<times> jdict" where
  "revoke_reply q = (lit ''REVOKE_ACK'',
     [(lit ''file_id'', JStr (r_file_id q)), (lit ''status'', JStr (lit ''revoked''))])"

lemma sends_revoke_ack [simp]: "sends (revoke_ack q # acts) = revoke_reply q # sends acts"
  by (simp add: revoke_ack_def revoke_reply_def)

lemma revoke_commit_cases:
  assumes "revoke_commit w sess e q row s = (s', acts, ex)"
  obtains (refused) "s' = s" "one_error acts ex"
  | (again) "status row = lit ''revoked''" "s' = s" "ex = None" "sends acts = [revoke_reply q]"
  | (revoked) "status row = lit ''pending''" "ex = None" "sends acts = [revoke_reply q]"
      "s' = s\<lparr>sdb := set_status (r_file_id q) (lit ''revoked'') (sdb s)\<rparr>"
proof -
  consider (r) "status row = lit ''revoked''"
    | (t) code where "status row \<noteq> lit ''revoked''" "map_of REVOKE_TERMINAL_STATES (status row) = Some code"
    | (u) "status row \<noteq> lit ''revoked''" "map_of REVOKE_TERMINAL_STATES (status row) = None"
        "status row \<noteq> lit ''pending''"
    | (p) "status row = lit ''pending''"
    by (cases "map_of REVOKE_TERMINAL_STATES (status row)") auto
  then show thesis
  proof cases
    case r
    with assms again show thesis by (simp add: revoke_commit_def revoke_mark_def)
  next
    case t
    with assms refused show thesis by (simp add: revoke_commit_def revoke_mark_def Let_def)
  next
    case u
    with assms refused show thesis by (simp add: revoke_commit_def revoke_mark_def Let_def)
  next
    case p
    have n: "map_of REVOKE_TERMINAL_STATES (lit ''pending'') = None"
      by (simp add: REVOKE_TERMINAL_STATES_def)
    show thesis
    proof (cases "with_fault (mark_fault w)
        (mark_status (real_text w) (sdb s) (JStr (r_file_id q)) (lit ''revoked''))")
      case (Inl e0)
      with p n assms refused show thesis by (simp add: revoke_commit_def revoke_mark_def Let_def split: if_split_asm)
    next
      case (Inr db')
      with p n assms revoked show thesis
        by (simp add: revoke_commit_def revoke_mark_def Let_def mark_status_JStr)
    qed
  qed
qed

lemma revoke_owned_cases:
  assumes "revoke_owned w sess e q row s = (s', acts, ex)"
  obtains (refused) "s' = s" "one_error acts ex"
  | (committed) "verify_certificate (lib w) (t_cert w) (peer_cert sess) (ca_pubkey w)
         (expected_of (peer_subject sess)) = Inr True"
      "signed_by (lib w) (peer_cert sess) (r_signature q)
         (revoke_struct (peer_subject sess) (JStr (r_file_id q)) (r_timestamp q))"
      "revoke_commit w sess e q row s = (s', acts, ex)"
  using assms unfolding revoke_owned_def Let_def
  by (auto simp: verify_revoke_struct_True split: sum.split_asm if_split_asm)

lemma revoke_fresh_cases:
  assumes "revoke_fresh w sess e s = (s', acts, ex)"
  obtains (refused) "s' = s" "one_error acts ex"
  | (committed) q row where "revoke_authorised w s sess e q row"
      "revoke_commit w sess e q row s = (s', acts, ex)"
proof (cases "parse_signed (e_payload e)")
  case (Inl e0)
  with assms refused show thesis by (auto simp: revoke_fresh_def dest: reject_malformed_cases)
next
  case q: (Inr q)
  show thesis
  proof (cases "with_fault (get_fault w) (get_file (real_text w) (sdb s) (JStr (r_file_id q)))")
    case (Inl e1)
    with q assms refused show thesis by (simp add: revoke_fresh_def)
  next
    case (Inr r)
    show thesis
    proof (cases r)
      case None
      with q Inr assms refused show thesis by (simp add: revoke_fresh_def)
    next
      case (Some row)
      with Inr have l: "lookup_file (sdb s) (r_file_id q) = Some row" by (simp add: get_file_JStr)
      show thesis
      proof (cases "peer_subject sess = JStr (sender_id row)")
        case False
        with q Inr Some assms refused show thesis by (simp add: revoke_fresh_def)
      next
        case True
        with q Inr Some assms have "revoke_owned w sess e q row s = (s', acts, ex)"
          by (simp add: revoke_fresh_def)
        then show thesis
        proof (cases rule: revoke_owned_cases)
          case refused
          with that(1) show thesis by simp
        next
          case committed
          with that(2) [of q row] q l True show thesis by (simp add: revoke_authorised_def)
        qed
      qed
    qed
  qed
qed

lemma handle_revoke_cases:
  assumes "handle_revoke_request w s sess e = (s', acts, ex)"
  obtains (refused) "only_nonce w e s s'" "one_error acts ex"
  | (again) q row where "gate_passed w e s s'" "revoke_authorised w s' sess e q row"
      "status row = lit ''revoked''" "ex = None" "sends acts = [revoke_reply q]"
  | (revoked) s1 q row where "gate_passed w e s s1" "revoke_authorised w s1 sess e q row"
      "status row = lit ''pending''" "ex = None" "sends acts = [revoke_reply q]"
      "s' = s1\<lparr>sdb := set_status (r_file_id q) (lit ''revoked'') (sdb s1)\<rparr>"
  using assms unfolding handle_revoke_request_def
proof (cases rule: replay_gate_cases)
  case refused
  with that(1) show thesis by (auto simp: only_nonce_def)
next
  case (passed s1)
  from passed(2) show thesis
  proof (cases rule: revoke_fresh_cases)
    case refused
    with passed(1) that(1) show thesis by (auto simp: only_nonce_def)
  next
    case (committed q row)
    from committed(2) show thesis
    proof (cases rule: revoke_commit_cases)
      case refused
      with passed(1) that(1) show thesis by (auto simp: only_nonce_def)
    next
      case again
      with passed(1) that(2) committed(1) show thesis by blast
    next
      case revoked
      with passed(1) that(3) committed(1) show thesis by blast
    qed
  qed
qed

section \<open>Both keep the invariant of the database\<close>

lemma record_ack_ok: "record_ack w q db = Inr db' \<Longrightarrow> db_ok db \<Longrightarrow> db_ok db'"
  by (auto simp: record_ack_def elim: insert_ack_ok split: option.split_asm if_split_asm)

lemma record_ack_files: "record_ack w q db = Inr db' \<Longrightarrow> files db' = files db \<and> seen_nonces db' = seen_nonces db"
  by (auto simp: record_ack_def insert_ack_def rbind_Inr_iff split: option.split_asm if_split_asm)

lemma acked_ok: "acked w q s s' \<Longrightarrow> db_ok (sdb s) \<Longrightarrow> db_ok (sdb s')"
  by (auto simp: acked_def STATUSES_def intro!: set_status_ok elim: record_ack_ok)

lemma half_acked_ok: "half_acked w q s s' \<Longrightarrow> db_ok (sdb s) \<Longrightarrow> db_ok (sdb s')"
  by (auto simp: half_acked_def elim: record_ack_ok)

lemma handle_ack_ok:
  assumes "handle_download_ack w s sess e = (s', acts, ex)" "db_ok (sdb s)"
  shows "db_ok (sdb s')"
  using assms(1)
proof (cases rule: handle_ack_cases)
  case refused
  from only_nonce_ok [OF this(1) assms(2)] show ?thesis .
next
  case (half s1 q row)
  from half_acked_ok [OF half(3) gate_passed_ok [OF half(1) assms(2)]] show ?thesis .
next
  case (acknowledged s1 q row)
  from acked_ok [OF acknowledged(3) gate_passed_ok [OF acknowledged(1) assms(2)]] show ?thesis .
qed

lemma handle_revoke_ok:
  assumes "handle_revoke_request w s sess e = (s', acts, ex)" "db_ok (sdb s)"
  shows "db_ok (sdb s')"
  using assms(1)
proof (cases rule: handle_revoke_cases)
  case refused
  from only_nonce_ok [OF this(1) assms(2)] show ?thesis .
next
  case (again q row)
  from gate_passed_ok [OF again(1) assms(2)] show ?thesis .
next
  case (revoked s1 q row)
  have "db_ok (sdb s1)" using revoked(1) assms(2) by (rule gate_passed_ok)
  with revoked(6) show ?thesis by (simp add: set_status_ok STATUSES_def)
qed

section \<open>An authorised request takes effect\<close>

lemma parse_signed_wf: "parse_signed p = Inr q \<Longrightarrow> wf_str (r_file_id q)"
  using parse_signed_Inr uuid_wf by blast

lemma ack_commit_stores:
  assumes "ack_authorised w s sess e q row" "ack_fault w = None" "mark_fault w = None"
    and "int64 (the (as_int (r_timestamp q)))"
  shows "\<exists>s' acts. ack_commit w q s = (s', acts, None) \<and> acked w q s s'
    \<and> sends acts = [(lit ''ACK_OK'', [(lit ''file_id'', JStr (r_file_id q))])]"
proof -
  have f: "wf_str (r_file_id q)" using assms(1) parse_signed_wf by (auto simp: ack_authorised_def)
  then obtain db1 where r: "record_ack w q (sdb s) = Inr db1"
    using assms(2,4) by (simp add: record_ack_def insert_ack_def rbind_Inr_iff bind_str_def bind_int_def wf_str_def)
  then show ?thesis
    using f assms(3) by (simp add: ack_commit_def ack_mark_def acked_def with_fault_def mark_status_def bind_text_def
        bind_str_def wf_str_def STATUSES_def)
qed

lemma handle_ack_accepts:
  assumes g: "gate_passed w e s s1" and a: "ack_authorised w s1 sess e q row"
    and f: "get_fault w = None" "ack_fault w = None" "mark_fault w = None"
    and t: "int64 (the (as_int (r_timestamp q)))"
  shows "\<exists>s' acts. handle_download_ack w s sess e = (s', acts, None) \<and> acked w q s1 s'
    \<and> sends acts = [(lit ''ACK_OK'', [(lit ''file_id'', JStr (r_file_id q))])]"
proof -
  have p: "parse_signed (e_payload e) = Inr q" "lookup_file (sdb s1) (r_file_id q) = Some row"
      "peer_subject sess = JStr (recipient_id row)"
    using a by (simp_all add: ack_authorised_def)
  have "get_file (real_text w) (sdb s1) (JStr (r_file_id q)) = Inr (Some row)"
    using p parse_signed_wf by (simp add: get_file_JStr)
  then have "ack_fresh w sess e s1 = ack_commit w q s1"
    using a p f by (simp add: ack_fresh_def ack_authorised_def receipt_verified_def verify_struct_True)
  then have "handle_download_ack w s sess e = ack_commit w q s1"
    by (simp add: handle_download_ack_def replay_gate_passed [OF g])
  with ack_commit_stores [OF a f(2,3) t] show ?thesis by simp
qed

lemma handle_revoke_accepts:
  assumes g: "gate_passed w e s s1" and a: "revoke_authorised w s1 sess e q row"
    and f: "get_fault w = None" "mark_fault w = None" and st: "status row = lit ''pending''"
  shows "\<exists>acts. handle_revoke_request w s sess e =
      (s1\<lparr>sdb := set_status (r_file_id q) (lit ''revoked'') (sdb s1)\<rparr>, acts, None)
    \<and> sends acts = [revoke_reply q]"
proof -
  have p: "parse_signed (e_payload e) = Inr q" "lookup_file (sdb s1) (r_file_id q) = Some row"
      "peer_subject sess = JStr (sender_id row)"
    using a by (simp_all add: revoke_authorised_def)
  have w: "wf_str (r_file_id q)" using p parse_signed_wf by simp
  then have "get_file (real_text w) (sdb s1) (JStr (r_file_id q)) = Inr (Some row)"
    using p by (simp add: get_file_JStr)
  then have "revoke_fresh w sess e s1 = revoke_commit w sess e q row s1"
    using a p f by (simp add: revoke_fresh_def revoke_owned_def revoke_authorised_def verify_revoke_struct_True [symmetric])
  moreover have "mark_status (real_text w) (sdb s1) (JStr (r_file_id q)) (lit ''revoked'') =
      Inr (set_status (r_file_id q) (lit ''revoked'') (sdb s1))"
    using w by (simp add: mark_status_JStr STATUSES_def)
  moreover have "map_of REVOKE_TERMINAL_STATES (lit ''pending'') = None"
    by (simp add: REVOKE_TERMINAL_STATES_def)
  ultimately show ?thesis
    using f st by (simp add: handle_revoke_request_def replay_gate_passed [OF g] revoke_commit_def revoke_mark_def Let_def finish_def)
qed

end
