(* ===== verification/Handshake.thy ===== *)
theory Handshake
  imports Server
begin

text \<open>
  The mutual handshake: \<open>server/handshake.py\<close> and \<open>client/handshake.py\<close>.  Each side is a
  program over its half of the socket: it reads from the stream of what the peer sent,
  and its sends and log calls come out in program order together with the session or the
  exception it ends with.
\<close>

section \<open>Programs that act and may raise\<close>

text \<open>The type of what is raised is a parameter: library exceptions here, exceptions with their
  messages in the client's programs.\<close>

type_synonym ('e, 'a) prog = "act list \<times> ('e + 'a)"
type_synonym 'a io = "(exc, 'a) prog"

definition ret :: "'a \<Rightarrow> ('e, 'a) prog" where
  "ret x = ([], Inr x)"

definition throw :: "'e \<Rightarrow> ('e, 'a) prog" where
  "throw e = ([], Inl e)"

definition hbind :: "('e, 'a) prog \<Rightarrow> ('a \<Rightarrow> ('e, 'b) prog) \<Rightarrow> ('e, 'b) prog" where
  "hbind m f = (case m of
     (acts, Inl e) \<Rightarrow> (acts, Inl e)
   | (acts, Inr x) \<Rightarrow> (acts @ fst (f x), snd (f x)))"

definition lift_res :: "'e + 'a \<Rightarrow> ('e, 'a) prog" where
  "lift_res r = ([], r)"

definition log_act :: "act \<Rightarrow> unit io" where
  "log_act a = ([a], Inr ())"

text \<open>\<open>send_message\<close>; a fault is the exception that packing or \<open>sendall\<close> raises.\<close>

definition send_msg :: "exc option \<Rightarrow> pystr \<Rightarrow> jdict \<Rightarrow> unit io" where
  "send_msg fault t p = (case fault of
     None \<Rightarrow> ([Send t p], Inr ())
   | Some e \<Rightarrow> ([Send t p], Inl e))"

lemma hbind_simps [simp]:
  "hbind (acts, Inl e) f = (acts, Inl e)"
  "hbind (acts, Inr x) f = (acts @ fst (f x), snd (f x))"
  by (simp_all add: hbind_def)

lemma snd_hbind_Inr:
  "snd (hbind m f) = Inr y \<longleftrightarrow> (\<exists>x. snd m = Inr x \<and> snd (f x) = Inr y)"
  by (cases m; cases "snd m") auto

lemma io_simps [simp]:
  "snd (ret x) = Inr y \<longleftrightarrow> x = y" "snd (throw e) \<noteq> Inr y" "snd (lift_res r) = r"
  "snd (log_act a) = Inr u" "snd (send_msg f t p) = Inr v \<longleftrightarrow> f = None"
  by (auto simp: ret_def throw_def lift_res_def log_act_def send_msg_def split: option.splits)

section \<open>The parties\<close>

text \<open>
  What one side brings to one run: its credentials and its peer's trust anchor, the
  random values it draws, its clock, the faults of its sends, and \<open>str(exc)\<close>.
\<close>

record party =
  hs_lib :: crypto
  hs_ca :: bytes
  own_cert :: jdict
  own_priv :: bytes
  own_password :: bytes
  own_nonce :: bytes
  pre_master_rand :: bytes
  oaep_seed :: bytes
  sign_salt :: bytes
  hs_now :: int
  send_fault :: "nat \<Rightarrow> exc option"
  err_text :: "exc \<Rightarrow> pystr"

definition HKDF_INFO :: bytes where
  "HKDF_INFO = map b8 (lit ''zerotrust-v1'')"

definition HKDF_OUTPUT_BYTES :: int where
  "HKDF_OUTPUT_BYTES = 64"

definition SESSION_KEY_BYTES :: nat where
  "SESSION_KEY_BYTES = 32"

definition PRE_MASTER_BYTES :: nat where
  "PRE_MASTER_BYTES = 32"

definition recv_envelope :: "sock \<Rightarrow> (envelope \<times> sock) res" where
  "recv_envelope s =
     rbind (recv_message s) (\<lambda>(d, s'). rbind (validate_envelope (JObj d)) (\<lambda>e. Inr (e, s')))"

text \<open>\<open>base64.b64decode(d[k], validate=True)\<close> with the class name of its exception.\<close>

definition b64_error :: "json \<Rightarrow> pystr" where
  "b64_error v = (case as_str v of
     None \<Rightarrow> lit ''TypeError''
   | Some s \<Rightarrow> if list_all (\<lambda>c. c < 128) s then lit ''Error'' else lit ''ValueError'')"

definition b64_item :: "jdict \<Rightarrow> pystr \<Rightarrow> pystr + bytes" where
  "b64_item d k = (case map_of d k of
     None \<Rightarrow> Inl (lit ''KeyError'')
   | Some v \<Rightarrow> (case b64_field v of None \<Rightarrow> Inl (b64_error v) | Some bs \<Rightarrow> Inr bs))"

lemma b64_item_Inr: "b64_item d k = Inr bs \<longleftrightarrow> (\<exists>v. map_of d k = Some v \<and> b64_field v = Some bs)"
  by (auto simp: b64_item_def split: option.splits)

definition session_of :: "json \<Rightarrow> json \<Rightarrow> bytes \<Rightarrow> bytes \<Rightarrow> session" where
  "session_of subject cert okm transcript =
     \<lparr>peer_subject = subject, peer_cert = cert, c2s_key = take SESSION_KEY_BYTES okm,
      s2c_key = drop SESSION_KEY_BYTES okm, transcript_hash = transcript\<rparr>"

section \<open>The server's side\<close>

text \<open>\<open>_fail\<close>: log the reason, send the generic error (a socket error is swallowed), raise.\<close>

definition hs_fail :: "pystr \<Rightarrow> pystr option \<Rightarrow> json \<Rightarrow> json \<Rightarrow> 'a io" where
  "hs_fail reason err_type peer fp =
     ([Log WARNING (lit ''handshake_fail'')
         [(lit ''reason'', Val (JStr reason)), (lit ''peer'', Val peer), (lit ''fp'', Val fp),
          (lit ''err_type'', Val (case err_type of None \<Rightarrow> JNull | Some t \<Rightarrow> JStr t))],
       send_error (lit ''AUTH_FAILED'')],
      Inl AuthError)"

definition quoted_type :: "pystr \<Rightarrow> pystr" where
  "quoted_type t = [39] @ t @ [39]"

definition server_recv :: "party \<Rightarrow> sock \<Rightarrow> pystr \<Rightarrow> pystr \<Rightarrow> (envelope \<times> sock) io" where
  "server_recv h s label expected =
     (case recv_envelope s of
        Inl e \<Rightarrow>
          if e = ProtocolError then
            hs_fail (lit ''malformed '' @ label @ lit '': '' @ err_text h e) (Some (exc_name e)) JNull JNull
          else throw e
      | Inr (e, s') \<Rightarrow>
          if e_type e \<noteq> expected then
            hs_fail (lit ''expected '' @ expected @ lit '', got '' @ quoted_type (e_type e)) None JNull JNull
          else ret (e, s'))"

definition b64_or_fail :: "pystr + bytes \<Rightarrow> pystr \<Rightarrow> bytes io" where
  "b64_or_fail r reason = (case r of
     Inl t \<Rightarrow> hs_fail reason (Some t) JNull JNull
   | Inr bs \<Rightarrow> ret bs)"

text \<open>Steps 1 and 2: the client's HELLO and its certificate.  The result is the client's
  nonce, certificate and public key.\<close>

definition server_hello :: "party \<Rightarrow> sock \<Rightarrow> (bytes \<times> jdict \<times> bytes \<times> sock) io" where
  "server_hello h s =
     hbind (server_recv h s (lit ''client HELLO'') (lit ''HELLO'')) (\<lambda>(hello, s1).
     let p = e_payload hello in
     if map_of p (lit ''cert'') = None \<or> map_of p (lit ''nonce'') = None then
       hs_fail (lit ''client HELLO payload missing cert/nonce'') None JNull JNull
     else
       hbind (b64_or_fail (b64_item p (lit ''nonce'')) (lit ''client nonce not valid base64'')) (\<lambda>nonce_c.
       if length nonce_c \<noteq> NONCE_BYTES then
         hs_fail (lit ''client nonce wrong length: '' @ dec (length nonce_c)) None JNull JNull
       else
         hbind (lift_res (verify_certificate (hs_lib h) (hs_now h) (jget p (lit ''cert'')) (hs_ca h) None)) (\<lambda>ok.
         if \<not> ok then hs_fail (lit ''client cert verification failed'') None JNull JNull
         else
           hbind (lift_res (some_or TypeError (as_dict (jget p (lit ''cert''))))) (\<lambda>cert.
           hbind (lift_res (cert_pem cert)) (\<lambda>pem.
           hbind (log_act (Log INFO (lit ''handshake_hello'')
                    [(lit ''peer'', Val (jget cert (lit ''subject''))),
                     (lit ''fp'', Val (JStr (fingerprint pem)))])) (\<lambda>_.
             ret (nonce_c, cert, pem, s1)))))))"

text \<open>The decryption of the pre-master and the check of its length.\<close>

definition server_pre_master :: "party \<Rightarrow> bytes \<Rightarrow> bytes io" where
  "server_pre_master h ct =
     (case rsa_oaep_decrypt (hs_lib h) (own_priv h) (own_password h) ct of
        Inl e \<Rightarrow>
          if e = CryptoError then
            hs_fail (lit ''pre_master OAEP decryption failed'') (Some (exc_name e)) JNull JNull
          else throw e
      | Inr pre_master \<Rightarrow>
          if length pre_master \<noteq> PRE_MASTER_BYTES then
            hs_fail (lit ''pre_master wrong length: '' @ dec (length pre_master)) None JNull JNull
          else ret pre_master)"

text \<open>Steps 3 to 5: the server's HELLO, the client's pre-master, the transcript.\<close>

definition server_key_exchange :: "party \<Rightarrow> bytes \<Rightarrow> sock \<Rightarrow> (bytes \<times> bytes \<times> sock) io" where
  "server_key_exchange h nonce_c s1 =
     hbind (send_msg (send_fault h 0) (lit ''HELLO'')
              [(lit ''cert'', JObj (own_cert h)), (lit ''nonce'', JStr (b64encode (own_nonce h)))]) (\<lambda>_.
     hbind (server_recv h s1 (lit ''KEY_EXCHANGE'') (lit ''KEY_EXCHANGE'')) (\<lambda>(key_ex, s2).
     hbind (b64_or_fail (b64_item (e_payload key_ex) (lit ''pre_master_ct''))
              (lit ''pre_master_ct not valid base64'')) (\<lambda>ct.
     hbind (server_pre_master h ct) (\<lambda>pre_master.
     hbind (lift_res (build_transcript_hash nonce_c (own_nonce h) ct)) (\<lambda>transcript.
       ret (pre_master, transcript, s2))))))"

text \<open>Steps 6 to 8: the client's proof of possession, the keys, the server's own proof.\<close>

definition server_auth ::
    "party \<Rightarrow> bytes \<Rightarrow> jdict \<Rightarrow> bytes \<Rightarrow> bytes \<Rightarrow> bytes \<Rightarrow> sock \<Rightarrow> (session \<times> sock) io" where
  "server_auth h nonce_c cert pem pre_master transcript s2 =
     hbind (server_recv h s2 (lit ''AUTH_RESPONSE'') (lit ''AUTH_RESPONSE'')) (\<lambda>(auth, s3).
     hbind (b64_or_fail (b64_item (e_payload auth) (lit ''signature''))
              (lit ''client signature not valid base64'')) (\<lambda>sig.
     hbind (lift_res (rsa_verify (hs_lib h) pem transcript sig)) (\<lambda>ok.
     let subject = jget cert (lit ''subject'') in
     if \<not> ok then
       hs_fail (lit ''client_pop_signature_invalid'') None subject (JStr (fingerprint pem))
     else
       hbind (lift_res (hkdf_derive (hs_lib h) pre_master (nonce_c @ own_nonce h) HKDF_INFO HKDF_OUTPUT_BYTES)) (\<lambda>okm.
       hbind (lift_res (rsa_sign (hs_lib h) (sign_salt h) (own_priv h) (own_password h) transcript)) (\<lambda>server_sig.
       hbind (send_msg (send_fault h 1) (lit ''SESSION_OK'')
                [(lit ''signature'', JStr (b64encode server_sig))]) (\<lambda>_.
       hbind (log_act (Log INFO (lit ''handshake_ok'')
                [(lit ''peer'', Val subject), (lit ''fp'', Val (JStr (fingerprint pem))),
                 (lit ''transcript_fp'', Val (JStr (fingerprint transcript)))])) (\<lambda>_.
         ret (session_of subject (JObj cert) okm transcript, s3))))))))"

definition perform_server_handshake :: "party \<Rightarrow> sock \<Rightarrow> (session \<times> sock) io" where
  "perform_server_handshake h s =
     hbind (server_hello h s) (\<lambda>(nonce_c, cert, pem, s1).
     hbind (server_key_exchange h nonce_c s1) (\<lambda>(pre_master, transcript, s2).
       server_auth h nonce_c cert pem pre_master transcript s2))"

section \<open>The client's side\<close>

definition client_recv :: "sock \<Rightarrow> pystr \<Rightarrow> (envelope \<times> sock) io" where
  "client_recv s expected =
     hbind (lift_res (recv_envelope s)) (\<lambda>(e, s').
       if e_type e \<noteq> expected then throw AuthError else ret (e, s'))"

text \<open>\<open>except (OSError, ProtocolError) as exc: raise AuthError\<close> around the last receive.\<close>

definition client_recv_last :: "sock \<Rightarrow> pystr \<Rightarrow> (envelope \<times> sock) io" where
  "client_recv_last s expected =
     (case recv_envelope s of
        Inl e \<Rightarrow> throw (if is_OSError e \<or> e = ProtocolError then AuthError else e)
      | Inr (e, s') \<Rightarrow> if e_type e \<noteq> expected then throw AuthError else ret (e, s'))"

definition b64_or_raise :: "pystr + bytes \<Rightarrow> bytes io" where
  "b64_or_raise r = (case r of Inl t \<Rightarrow> throw ProtocolError | Inr bs \<Rightarrow> ret bs)"

text \<open>Steps 1 and 2, up to the verified certificate of the server.\<close>

definition client_hello :: "party \<Rightarrow> json option \<Rightarrow> sock \<Rightarrow> (bytes \<times> jdict \<times> bytes \<times> sock) io" where
  "client_hello h expected s =
     hbind (send_msg (send_fault h 0) (lit ''HELLO'')
              [(lit ''cert'', JObj (own_cert h)), (lit ''nonce'', JStr (b64encode (own_nonce h)))]) (\<lambda>_.
     hbind (client_recv s (lit ''HELLO'')) (\<lambda>(hello, s1).
     let p = e_payload hello in
     if map_of p (lit ''cert'') = None \<or> map_of p (lit ''nonce'') = None then throw ProtocolError
     else
       hbind (b64_or_raise (b64_item p (lit ''nonce''))) (\<lambda>nonce_s.
       if length nonce_s \<noteq> NONCE_BYTES then throw ProtocolError
       else
         hbind (lift_res (verify_certificate (hs_lib h) (hs_now h) (jget p (lit ''cert'')) (hs_ca h) expected)) (\<lambda>ok.
         if \<not> ok then
           hbind (log_act (Plain WARNING (lit ''server cert verification failed '' @ [8212] @ lit '' aborting before KEY_EXCHANGE'') []))
             (\<lambda>_. throw AuthError)
         else
           hbind (lift_res (some_or TypeError (as_dict (jget p (lit ''cert''))))) (\<lambda>cert.
           hbind (lift_res (cert_pem cert)) (\<lambda>pem.
           hbind (log_act (Plain INFO (lit ''server HELLO verified peer=%s fp=%s'')
                    [jget cert (lit ''subject''), JStr (fingerprint pem)])) (\<lambda>_.
             ret (nonce_s, cert, pem, s1))))))))"

text \<open>Steps 3 to 5: the pre-master and the client's proof.\<close>

definition client_key_exchange :: "party \<Rightarrow> bytes \<Rightarrow> bytes \<Rightarrow> bytes io" where
  "client_key_exchange h nonce_s pem =
     hbind (lift_res (rsa_oaep_encrypt (hs_lib h) (oaep_seed h) pem (pre_master_rand h))) (\<lambda>ct.
     hbind (send_msg (send_fault h 1) (lit ''KEY_EXCHANGE'') [(lit ''pre_master_ct'', JStr (b64encode ct))]) (\<lambda>_.
     hbind (lift_res (build_transcript_hash (own_nonce h) nonce_s ct)) (\<lambda>transcript.
     hbind (lift_res (rsa_sign (hs_lib h) (sign_salt h) (own_priv h) (own_password h) transcript)) (\<lambda>sig.
     hbind (send_msg (send_fault h 2) (lit ''AUTH_RESPONSE'') [(lit ''signature'', JStr (b64encode sig))]) (\<lambda>_.
       ret transcript)))))"

text \<open>Steps 6 and 7: the server's proof and the keys.\<close>

definition client_finish :: "party \<Rightarrow> bytes \<Rightarrow> jdict \<Rightarrow> bytes \<Rightarrow> bytes \<Rightarrow> sock \<Rightarrow> (session \<times> sock) io" where
  "client_finish h nonce_s cert pem transcript s1 =
     hbind (client_recv_last s1 (lit ''SESSION_OK'')) (\<lambda>(session_ok, s2).
     hbind (b64_or_raise (b64_item (e_payload session_ok) (lit ''signature''))) (\<lambda>sig.
     hbind (lift_res (rsa_verify (hs_lib h) pem transcript sig)) (\<lambda>ok.
     if \<not> ok then
       hbind (log_act (Plain WARNING (lit ''server PoP signature invalid'') [])) (\<lambda>_. throw AuthError)
     else
       hbind (lift_res (hkdf_derive (hs_lib h) (pre_master_rand h) (own_nonce h @ nonce_s) HKDF_INFO HKDF_OUTPUT_BYTES)) (\<lambda>okm.
       hbind (log_act (Plain INFO (lit ''session established peer=%s peer_fp=%s transcript_fp=%s'')
                [jget cert (lit ''subject''), JStr (fingerprint pem), JStr (fingerprint transcript)])) (\<lambda>_.
         ret (session_of (jget cert (lit ''subject'')) (JObj cert) okm transcript, s2))))))"

definition perform_client_handshake :: "party \<Rightarrow> json option \<Rightarrow> sock \<Rightarrow> (session \<times> sock) io" where
  "perform_client_handshake h expected s =
     hbind (client_hello h expected s) (\<lambda>(nonce_s, cert, pem, s1).
     hbind (client_key_exchange h nonce_s pem) (\<lambda>transcript.
       client_finish h nonce_s cert pem transcript s1))"

section \<open>What a completed handshake proves\<close>

lemma hs_fail_Inr [simp]: "snd (hs_fail r t p f) \<noteq> Inr x"
  by (simp add: hs_fail_def)

lemma b64_or_fail_Inr [simp]: "snd (b64_or_fail r t) = Inr b \<longleftrightarrow> r = Inr b"
  by (auto simp: b64_or_fail_def split: sum.splits)

lemma b64_or_raise_Inr [simp]: "snd (b64_or_raise r) = Inr b \<longleftrightarrow> r = Inr b"
  by (auto simp: b64_or_raise_def split: sum.splits)

lemma snd_if_Inr:
  "snd (if b then x else y) = Inr z \<longleftrightarrow> (b \<and> snd x = Inr z) \<or> (\<not> b \<and> snd y = Inr z)"
  by simp

lemma jget_JObj: "jget d k = JObj v \<longleftrightarrow> map_of d k = Some (JObj v)"
  by (auto simp: jget_def split: option.splits)

lemma jget_Some: "map_of d k = Some v \<Longrightarrow> jget d k = v"
  by (simp add: jget_def)

lemma server_recv_Inr:
  "snd (server_recv h s l t) = Inr (e, s') \<longleftrightarrow> recv_envelope s = Inr (e, s') \<and> e_type e = t"
  by (auto simp: server_recv_def split: sum.splits)

lemma client_recv_Inr:
  "snd (client_recv s t) = Inr (e, s') \<longleftrightarrow> recv_envelope s = Inr (e, s') \<and> e_type e = t"
  by (auto simp: client_recv_def snd_hbind_Inr split: if_splits)

lemma client_recv_last_Inr:
  "snd (client_recv_last s t) = Inr (e, s') \<longleftrightarrow> recv_envelope s = Inr (e, s') \<and> e_type e = t"
  by (auto simp: client_recv_last_def split: sum.splits)

lemma server_hello_Inr:
  "snd (server_hello h s) = Inr (nonce_c, cert, pem, s1) \<longleftrightarrow>
     (\<exists>e. recv_envelope s = Inr (e, s1) \<and> e_type e = lit ''HELLO''
        \<and> map_of (e_payload e) (lit ''cert'') = Some (JObj cert)
        \<and> b64_item (e_payload e) (lit ''nonce'') = Inr nonce_c \<and> length nonce_c = NONCE_BYTES
        \<and> verify_certificate (hs_lib h) (hs_now h) (JObj cert) (hs_ca h) None = Inr True
        \<and> cert_pem cert = Inr pem)"
  unfolding server_hello_def Let_def
  by (auto simp: snd_hbind_Inr server_recv_Inr jget_JObj jget_Some b64_item_Inr snd_if_Inr)

lemma build_transcript_hash_Inr:
  "build_transcript_hash a b c = Inr t \<longleftrightarrow>
     length a = 16 \<and> length b = 16 \<and> c \<noteq> [] \<and> t = sha256 (a @ b @ c)"
  by (auto simp: build_transcript_hash_def NONCE_BYTES_def)

lemma server_pre_master_Inr:
  "snd (server_pre_master h ct) = Inr pm \<longleftrightarrow>
     rsa_oaep_decrypt (hs_lib h) (own_priv h) (own_password h) ct = Inr pm \<and> length pm = PRE_MASTER_BYTES"
  by (auto simp: server_pre_master_def split: sum.splits)

lemma server_key_exchange_Inr:
  "snd (server_key_exchange h nonce_c s1) = Inr (pm, transcript, s2) \<longleftrightarrow>
     (\<exists>e ct. send_fault h 0 = None \<and> recv_envelope s1 = Inr (e, s2) \<and> e_type e = lit ''KEY_EXCHANGE''
        \<and> b64_item (e_payload e) (lit ''pre_master_ct'') = Inr ct
        \<and> rsa_oaep_decrypt (hs_lib h) (own_priv h) (own_password h) ct = Inr pm
        \<and> length pm = PRE_MASTER_BYTES
        \<and> build_transcript_hash nonce_c (own_nonce h) ct = Inr transcript)"
  unfolding server_key_exchange_def
  by (auto simp: snd_hbind_Inr server_recv_Inr server_pre_master_Inr)

lemma hkdf_derive_Inr: "hkdf_derive C a b c HKDF_OUTPUT_BYTES = Inr okm \<longleftrightarrow> okm = hkdf_sha256 C a b c 64"
  by (auto simp: hkdf_derive_def HKDF_OUTPUT_BYTES_def)

lemma server_auth_Inr:
  "snd (server_auth h nonce_c cert pem pm transcript s2) = Inr (sess, s3) \<longleftrightarrow>
     (\<exists>e sig server_sig. recv_envelope s2 = Inr (e, s3) \<and> e_type e = lit ''AUTH_RESPONSE''
        \<and> b64_item (e_payload e) (lit ''signature'') = Inr sig
        \<and> rsa_verify (hs_lib h) pem transcript sig = Inr True
        \<and> rsa_sign (hs_lib h) (sign_salt h) (own_priv h) (own_password h) transcript = Inr server_sig
        \<and> send_fault h 1 = None
        \<and> sess = session_of (jget cert (lit ''subject'')) (JObj cert)
            (hkdf_sha256 (hs_lib h) pm (nonce_c @ own_nonce h) HKDF_INFO 64) transcript)"
  unfolding server_auth_def Let_def
  by (auto simp: snd_hbind_Inr server_recv_Inr hkdf_derive_Inr split: if_splits)

text \<open>
  The peer of a session: its certificate verifies under the CA, and it has signed, with
  the certified key, a transcript that contains this side's own fresh nonce.
\<close>

definition proven_peer :: "party \<Rightarrow> session \<Rightarrow> (bytes \<Rightarrow> bytes \<Rightarrow> bytes) \<Rightarrow> json option \<Rightarrow> bool" where
  "proven_peer h sess transcript_input expected \<longleftrightarrow>
     (\<exists>cert pem k nonce ct sig. peer_cert sess = JObj cert
        \<and> peer_subject sess = jget cert (lit ''subject'')
        \<and> verify_certificate (hs_lib h) (hs_now h) (JObj cert) (hs_ca h) expected = Inr True
        \<and> cert_pem cert = Inr pem \<and> load_pem_public_key (hs_lib h) pem = RsaKey k
        \<and> length nonce = 16 \<and> ct \<noteq> []
        \<and> transcript_hash sess = sha256 (transcript_input nonce ct)
        \<and> pss_verify (hs_lib h) k sig (transcript_hash sess))"

lemma server_handshake_proves:
  assumes "snd (perform_server_handshake h s) = Inr (sess, s')"
  shows "proven_peer h sess (\<lambda>nonce_c ct. nonce_c @ own_nonce h @ ct) None"
proof -
  obtain nonce_c cert pem s1 pm transcript s2 where
      a: "snd (server_hello h s) = Inr (nonce_c, cert, pem, s1)"
      and b: "snd (server_key_exchange h nonce_c s1) = Inr (pm, transcript, s2)"
      and c: "snd (server_auth h nonce_c cert pem pm transcript s2) = Inr (sess, s')"
    using assms by (auto simp: perform_server_handshake_def snd_hbind_Inr)
  from a have v: "verify_certificate (hs_lib h) (hs_now h) (JObj cert) (hs_ca h) None = Inr True"
      "cert_pem cert = Inr pem" "length nonce_c = 16"
    by (auto simp: server_hello_Inr NONCE_BYTES_def)
  from b obtain ct where t: "ct \<noteq> []" "transcript = sha256 (nonce_c @ own_nonce h @ ct)"
    by (auto simp: server_key_exchange_Inr build_transcript_hash_Inr)
  from c obtain sig where g: "rsa_verify (hs_lib h) pem transcript sig = Inr True"
      "peer_cert sess = JObj cert" "peer_subject sess = jget cert (lit ''subject'')"
      "transcript_hash sess = transcript"
    by (auto simp: server_auth_Inr session_of_def)
  from g(1) obtain k where "load_pem_public_key (hs_lib h) pem = RsaKey k"
      "pss_verify (hs_lib h) k sig transcript"
    by (auto simp: rsa_verify_Inr_iff)
  with v t g(2-4) show ?thesis
    unfolding proven_peer_def
    by (intro exI [of _ cert] exI [of _ pem] exI [of _ k] exI [of _ nonce_c] exI [of _ ct] exI [of _ sig]) simp
qed

lemma client_hello_Inr:
  "snd (client_hello h expected s) = Inr (nonce_s, cert, pem, s1) \<longleftrightarrow>
     (\<exists>e. send_fault h 0 = None \<and> recv_envelope s = Inr (e, s1) \<and> e_type e = lit ''HELLO''
        \<and> map_of (e_payload e) (lit ''cert'') = Some (JObj cert)
        \<and> b64_item (e_payload e) (lit ''nonce'') = Inr nonce_s \<and> length nonce_s = NONCE_BYTES
        \<and> verify_certificate (hs_lib h) (hs_now h) (JObj cert) (hs_ca h) expected = Inr True
        \<and> cert_pem cert = Inr pem)"
  unfolding client_hello_def Let_def
  by (auto simp: snd_hbind_Inr client_recv_Inr jget_JObj jget_Some b64_item_Inr snd_if_Inr)

lemma client_key_exchange_Inr:
  "snd (client_key_exchange h nonce_s pem) = Inr transcript \<longleftrightarrow>
     (\<exists>ct sig. rsa_oaep_encrypt (hs_lib h) (oaep_seed h) pem (pre_master_rand h) = Inr ct
        \<and> send_fault h 1 = None
        \<and> build_transcript_hash (own_nonce h) nonce_s ct = Inr transcript
        \<and> rsa_sign (hs_lib h) (sign_salt h) (own_priv h) (own_password h) transcript = Inr sig
        \<and> send_fault h 2 = None)"
  unfolding client_key_exchange_def by (auto simp: snd_hbind_Inr)

lemma client_finish_Inr:
  "snd (client_finish h nonce_s cert pem transcript s1) = Inr (sess, s2) \<longleftrightarrow>
     (\<exists>e sig. recv_envelope s1 = Inr (e, s2) \<and> e_type e = lit ''SESSION_OK''
        \<and> b64_item (e_payload e) (lit ''signature'') = Inr sig
        \<and> rsa_verify (hs_lib h) pem transcript sig = Inr True
        \<and> sess = session_of (jget cert (lit ''subject'')) (JObj cert)
            (hkdf_sha256 (hs_lib h) (pre_master_rand h) (own_nonce h @ nonce_s) HKDF_INFO 64) transcript)"
  unfolding client_finish_def
  by (auto simp: snd_hbind_Inr client_recv_last_Inr hkdf_derive_Inr split: if_splits)

lemma client_handshake_proves:
  assumes "snd (perform_client_handshake h expected s) = Inr (sess, s')"
  shows "proven_peer h sess (\<lambda>nonce_s ct. own_nonce h @ nonce_s @ ct) expected"
proof -
  obtain nonce_s cert pem s1 transcript where
      a: "snd (client_hello h expected s) = Inr (nonce_s, cert, pem, s1)"
      and b: "snd (client_key_exchange h nonce_s pem) = Inr transcript"
      and c: "snd (client_finish h nonce_s cert pem transcript s1) = Inr (sess, s')"
    using assms by (auto simp: perform_client_handshake_def snd_hbind_Inr)
  from a have v: "verify_certificate (hs_lib h) (hs_now h) (JObj cert) (hs_ca h) expected = Inr True"
      "cert_pem cert = Inr pem" "length nonce_s = 16"
    by (auto simp: client_hello_Inr NONCE_BYTES_def)
  from b obtain ct where t: "ct \<noteq> []" "transcript = sha256 (own_nonce h @ nonce_s @ ct)"
    by (auto simp: client_key_exchange_Inr build_transcript_hash_Inr)
  from c obtain sig where g: "rsa_verify (hs_lib h) pem transcript sig = Inr True"
      "peer_cert sess = JObj cert" "peer_subject sess = jget cert (lit ''subject'')"
      "transcript_hash sess = transcript"
    by (auto simp: client_finish_Inr session_of_def)
  from g(1) obtain k where "load_pem_public_key (hs_lib h) pem = RsaKey k"
      "pss_verify (hs_lib h) k sig transcript"
    by (auto simp: rsa_verify_Inr_iff)
  with v t g(2-4) show ?thesis
    unfolding proven_peer_def
    by (intro exI [of _ cert] exI [of _ pem] exI [of _ k] exI [of _ nonce_s] exI [of _ ct] exI [of _ sig]) simp
qed

section \<open>Errors before authentication\<close>

text \<open>A first message whose type is a list or an object ends the handshake before any check: no
  reply is sent, not even the generic error, and no handshake event is logged.\<close>

lemma unhashable_type_ends_handshake:
  assumes "recv_message sock = Inr (d, s1)" "list_all (\<lambda>k. map_of d k \<noteq> None) required_fields"
    and "py_eq (jget d (lit ''version'')) (JInt PROTOCOL_VERSION)" "\<not> hashable (jget d (lit ''type''))"
  shows "perform_server_handshake h sock = ([], Inl TypeError)"
proof -
  have "validate_envelope (JObj d) = Inl TypeError"
    using assms(2-4) by (simp add: validate_envelope_def ensure_def)
  then have "recv_envelope sock = Inl TypeError" using assms(1) by (simp add: recv_envelope_def)
  then show ?thesis
    by (simp add: perform_server_handshake_def server_hello_def server_recv_def throw_def)
qed

end
