(* ===== verification/Serve.thy ===== *)
theory Serve
  imports Upload Download Receipt Handshake
begin

text \<open>
  \<open>serve_connection\<close> of \<open>server/handler.py\<close>: load the server's assets, shake hands, answer
  requests until the client closes or something raises, and log how it ended.
\<close>

section \<open>One request\<close>

definition dispatch :: "env \<Rightarrow> server \<Rightarrow> session \<Rightarrow> pystr \<Rightarrow> envelope \<Rightarrow> outcome" where
  "dispatch w s sess peer e =
     (if e_type e = lit ''GET_PUBKEY'' then handle_get_pubkey w s sess e
      else if e_type e = lit ''LIST_PENDING'' then handle_list_pending w s sess e
      else if e_type e = lit ''UPLOAD_REQUEST'' then handle_upload_request w s sess e
      else if e_type e = lit ''DOWNLOAD_REQUEST'' then handle_download_request w s sess e
      else if e_type e = lit ''DOWNLOAD_ACK'' then handle_download_ack w s sess e
      else if e_type e = lit ''REVOKE_REQUEST'' then handle_revoke_request w s sess e
      else
        finish s
          [Log WARNING (lit ''unknown_message_type'')
             [(lit ''msg_type'', Val (JStr (e_type e))), (lit ''peer'', Val (JStr peer)),
              (lit ''request_id'', request_id e), (lit ''subject'', Val (peer_subject sess))],
           send_error (lit ''MALFORMED'')])"

text \<open>\<open>pack_message(make_envelope(t, p))\<close>\<close>

definition wire :: "stamp \<Rightarrow> pystr \<Rightarrow> jdict \<Rightarrow> bytes res" where
  "wire st t p = rbind (make_envelope st t p) (\<lambda>d. pack_message (JObj d))"

text \<open>
  Carrying out a handler's actions in order.  The first send that fails (it does not pack,
  or the socket refuses) ends the handler there: what comes after it is not done.
\<close>

fun deliver :: "stamp \<Rightarrow> exc option \<Rightarrow> act list \<Rightarrow> bytes list \<times> act list \<times> exc option" where
  "deliver st fault [] = ([], [], None)"
| "deliver st fault (Send t p # acts) =
     (case rbind (wire st t p) (\<lambda>bs. case fault of Some e \<Rightarrow> Inl e | None \<Rightarrow> Inr bs) of
        Inl e \<Rightarrow> ([], [], Some e)
      | Inr bs \<Rightarrow> (case deliver st fault acts of (out, logs, ex) \<Rightarrow> (bs # out, logs, ex)))"
| "deliver st fault (a # acts) =
     (case deliver st fault acts of (out, logs, ex) \<Rightarrow> (out, a # logs, ex))"

section \<open>The loop over requests\<close>

record request_world =
  rw_env :: env
  rw_stamp :: stamp
  rw_send_fault :: "exc option"

datatype ending = Closed | Raised exc | OutOfFuel

type_synonym loop_result = "server \<times> bytes list \<times> act list \<times> ending"

text \<open>\<open>W i\<close> is the world of the \<open>i\<close>-th request; the fuel bounds the number of requests.\<close>

primrec serve_loop ::
    "nat \<Rightarrow> (nat \<Rightarrow> request_world) \<Rightarrow> nat \<Rightarrow> server \<Rightarrow> session \<Rightarrow> pystr \<Rightarrow> sock \<Rightarrow> loop_result" where
  "serve_loop 0 W i s sess peer sock = (s, [], [], OutOfFuel)"
| "serve_loop (Suc fuel) W i s sess peer sock =
     (case recv_envelope sock of
        Inl e \<Rightarrow> (s, [], [], if e = ProtocolError then Closed else Raised e)
      | Inr (e, sock') \<Rightarrow>
          (case dispatch (rw_env (W i)) s sess peer e of
             (s', acts, ex) \<Rightarrow>
               (case deliver (rw_stamp (W i)) (rw_send_fault (W i)) acts of
                  (out, logs, Some e) \<Rightarrow> (s', out, logs, Raised e)
                | (out, logs, None) \<Rightarrow>
                    (case ex of
                       Some e \<Rightarrow> (s', out, logs, Raised e)
                     | None \<Rightarrow>
                         (case serve_loop fuel W (Suc i) s' sess peer sock' of
                            (s'', out', logs', en) \<Rightarrow> (s'', out @ out', logs @ logs', en))))))"

section \<open>The connection\<close>

text \<open>The part of \<open>server_state\<close> that names the server's own credentials: each is given
  directly or read from a file.\<close>

datatype password_source = PasswordBytes bytes | PasswordText pystr | PasswordUnset

record assets =
  st_server_cert :: "jdict option"
  st_cert_path :: "pystr option"
  st_server_priv :: "bytes option"
  st_key_path :: "pystr option"
  st_ca_pubkey :: "bytes option"
  st_ca_cert_path :: "pystr option"
  st_password :: password_source
  env_password :: pystr

definition DEMO_SERVER_PASSWORD :: bytes where
  "DEMO_SERVER_PASSWORD = map b8 (lit ''demo-password'')"

definition server_password :: "assets \<Rightarrow> bytes res" where
  "server_password st =
     (case st_password st of
        PasswordBytes b \<Rightarrow> Inr b
      | PasswordText s \<Rightarrow> utf8_encode s
      | PasswordUnset \<Rightarrow>
          if env_password st \<noteq> [] then utf8_encode (env_password st) else Inr DEMO_SERVER_PASSWORD)"

definition read_file :: "filesystem \<Rightarrow> pystr option \<Rightarrow> bytes res" where
  "read_file fs p =
     rbind (some_or KeyError p) (\<lambda>p. some_or FileNotFoundError (fs (mk_path p)))"

definition load_server_assets :: "filesystem \<Rightarrow> assets \<Rightarrow> (jdict \<times> bytes \<times> bytes \<times> bytes) res" where
  "load_server_assets fs st =
     rbind (case st_server_cert st of
              Some c \<Rightarrow> Inr c
            | None \<Rightarrow> rbind (read_file fs (st_cert_path st)) (read_json None)) (\<lambda>cert.
     rbind (case st_server_priv st of Some k \<Rightarrow> Inr k | None \<Rightarrow> read_file fs (st_key_path st)) (\<lambda>priv.
     rbind (case st_ca_pubkey st of
              Some k \<Rightarrow> Inr k
            | None \<Rightarrow>
                rbind (read_file fs (st_ca_cert_path st)) (\<lambda>b.
                rbind (read_json None b) (\<lambda>ca.
                rbind (some_or ProtocolError (as_str (jget ca (lit ''public_key_pem'')))) ascii_encode))) (\<lambda>ca.
     rbind (server_password st) (\<lambda>password.
       Inr (cert, priv, password, ca)))))"

text \<open>The exception clauses of \<open>serve_connection\<close>, as log calls.\<close>

definition end_logs :: "pystr \<Rightarrow> ending \<Rightarrow> act list" where
  "end_logs peer en =
     (let p = (lit ''peer'', Val (JStr peer)) in
      case en of
        Closed \<Rightarrow> []
      | OutOfFuel \<Rightarrow> []
      | Raised e \<Rightarrow>
          (let t = (lit ''err_type'', Val (JStr (exc_name e))) in
           if e = AuthError then [Log WARNING (lit ''connection_aborted'') [p, t]]
           else if e = ProtocolError then
             [Log WARNING (lit ''connection_aborted'') [p, t, (lit ''reason'', ltext ''protocol_error'')]]
           else if is_OSError e then
             [Log WARNING (lit ''connection_aborted'') [p, t, (lit ''reason'', ltext ''socket_error'')]]
           else
             [Plain ERROR (lit ''[-] %s: unexpected handler error'') [JStr peer],
              Log ERROR (lit ''handler_internal_error'') [p, t]]))"

text \<open>The sends of the handshake are already on the wire when it ends; \<open>acts\<close> are its
  actions.\<close>

definition serve_connection ::
    "nat \<Rightarrow> (nat \<Rightarrow> request_world) \<Rightarrow> party \<Rightarrow> assets \<Rightarrow> exc option \<Rightarrow> server \<Rightarrow> pystr \<Rightarrow> sock \<Rightarrow>
     server \<times> act list \<times> bytes list \<times> act list \<times> ending" where
  "serve_connection fuel W h st open_fault s peer sock =
     (let opened = [Log INFO (lit ''connection_open'') [(lit ''peer'', Val (JStr peer))]];
          closed = [Log INFO (lit ''connection_close'') [(lit ''peer'', Val (JStr peer))]];
          stop = (\<lambda>acts en. (s, acts, [], opened @ end_logs peer en @ closed, en)) in
      case load_server_assets (sfs s) st of
        Inl e \<Rightarrow> stop [] (Raised e)
      | Inr (cert, priv, password, ca) \<Rightarrow>
          (case open_fault of
             Some e \<Rightarrow> stop [] (Raised e)
           | None \<Rightarrow>
               (case perform_server_handshake
                       (h\<lparr>own_cert := cert, own_priv := priv, own_password := password, hs_ca := ca\<rparr>) sock of
                  (acts, Inl e) \<Rightarrow> stop acts (Raised e)
                | (acts, Inr (sess, sock')) \<Rightarrow>
                    (case serve_loop fuel W 0 s sess peer sock' of
                       (s', out, logs, en) \<Rightarrow>
                         (s', acts, out, opened @ logs @ end_logs peer en @ closed, en)))))"

section \<open>The loop ends\<close>

lemma sock_recv_stream:
  "sock_recv k s = Inr (chunk, s') \<Longrightarrow> stream s = chunk @ stream s' \<and> length chunk \<le> k"
  by (cases "(k, s)" rule: sock_recv.cases) (auto simp: stream_def split: if_splits)

lemma recvall_loop_stream:
  assumes "recvall_loop n buf s = Inr (b, s')" "length buf \<le> n"
  shows "length b = n \<and> b @ stream s' = buf @ stream s"
  using assms
proof (induction n buf s rule: recvall_loop.induct)
  case (1 n buf s)
  show ?case
  proof (cases "length buf < n")
    case False
    with "1.prems" show ?thesis by (subst (asm) recvall_loop.simps) simp
  next
    case True
    have u: "recvall_loop n buf s = (case sock_recv (n - length buf) s of Inl e \<Rightarrow> Inl e
        | Inr (chunk, s') \<Rightarrow> if chunk = [] then Inl ProtocolError else recvall_loop n (buf @ chunk) s')"
      using True by (subst recvall_loop.simps) simp
    obtain chunk s1 where c: "sock_recv (n - length buf) s = Inr (chunk, s1)" "chunk \<noteq> []"
        "recvall_loop n (buf @ chunk) s1 = Inr (b, s')"
      using "1.prems"(1) unfolding u by (auto split: sum.split_asm if_split_asm)
    note r = sock_recv_stream [OF c(1)]
    have "length chunk \<le> n - length buf" using r by blast
    then have "length (buf @ chunk) \<le> n" using True by simp
    from "1.IH" [OF True c(1) refl c(2,3) this] r show ?thesis by simp
  qed
qed

lemma recvall_stream:
  assumes "recvall s (int n) = Inr (b, s')" shows "length (stream s) = n + length (stream s')"
proof -
  have "length b = n \<and> b @ stream s' = [] @ stream s"
    using assms by (intro recvall_loop_stream) (simp_all add: recvall_def)
  then have "length b = n" "length (b @ stream s') = length (stream s)" by simp_all
  then show ?thesis by simp
qed

text \<open>Every message takes at least its length header off the stream.\<close>

lemma recv_message_shorter:
  assumes "recv_message s = Inr (d, s')" shows "length (stream s') + 4 \<le> length (stream s)"
proof -
  obtain header s1 body where a: "recvall s 4 = Inr (header, s1)"
      and b: "recvall s1 (int (unpack_length header)) = Inr (body, s')"
    using assms by (auto simp: recv_message_def rbind_Inr_iff Let_def split: if_split_asm)
  from a have "length (stream s) = 4 + length (stream s1)" using recvall_stream [of s 4] by simp
  moreover from b have "length (stream s1) = unpack_length header + length (stream s')"
    by (rule recvall_stream)
  ultimately show ?thesis by simp
qed

lemma recv_envelope_shorter:
  assumes "recv_envelope s = Inr (e, s')" shows "length (stream s') + 4 \<le> length (stream s)"
  using assms recv_message_shorter by (auto simp: recv_envelope_def rbind_Inr_iff)

text \<open>With one unit of fuel more than a quarter of the bytes on the stream, the loop ends by
  itself.\<close>

lemma serve_loop_ends:
  assumes "length (stream sock) < 4 * fuel" "serve_loop fuel W i s sess peer sock = (s', out, logs, en)"
  shows "en \<noteq> OutOfFuel"
  using assms
proof (induction fuel arbitrary: i s sock s' out logs en)
  case (Suc fuel)
  show ?case
  proof (cases "recv_envelope sock")
    case (Inl e)
    with Suc.prems(2) show ?thesis by (auto split: if_split_asm)
  next
    case (Inr p)
    obtain e sock1 where p: "p = (e, sock1)" by fastforce
    obtain s1 acts ex where d: "dispatch (rw_env (W i)) s sess peer e = (s1, acts, ex)"
      by (metis prod_cases3)
    obtain o1 l1 sx where l: "deliver (rw_stamp (W i)) (rw_send_fault (W i)) acts = (o1, l1, sx)"
      by (metis prod_cases3)
    obtain s2 o2 l2 en2 where r: "serve_loop fuel W (Suc i) s1 sess peer sock1 = (s2, o2, l2, en2)"
      by (metis prod_cases4)
    have "length (stream sock1) < 4 * fuel"
      using recv_envelope_shorter [OF Inr [unfolded p]] Suc.prems(1) by simp
    from Suc.IH [OF this r] have "en2 \<noteq> OutOfFuel" .
    with Suc.prems(2) Inr p d l r show ?thesis
      by (auto split: option.split_asm)
  qed
qed simp

text \<open>More fuel changes nothing once the loop ends.\<close>

lemma serve_loop_fuel_mono:
  assumes "serve_loop fuel W i s sess peer sock = (s', out, logs, en)" "en \<noteq> OutOfFuel"
  shows "serve_loop (Suc fuel) W i s sess peer sock = (s', out, logs, en)"
  using assms
proof (induction fuel arbitrary: i s sock s' out logs en)
  case (Suc fuel)
  show ?case
  proof (cases "recv_envelope sock")
    case (Inl e)
    with Suc.prems show ?thesis by simp
  next
    case (Inr p)
    obtain e sock1 where p: "p = (e, sock1)" by fastforce
    obtain s1 acts ex where d: "dispatch (rw_env (W i)) s sess peer e = (s1, acts, ex)"
      by (metis prod_cases3)
    obtain o1 l1 sx where l: "deliver (rw_stamp (W i)) (rw_send_fault (W i)) acts = (o1, l1, sx)"
      by (metis prod_cases3)
    obtain s2 o2 l2 en2 where r: "serve_loop fuel W (Suc i) s1 sess peer sock1 = (s2, o2, l2, en2)"
      by (metis prod_cases4)
    show ?thesis
    proof (cases "sx = None \<and> ex = None")
      case True
      with Suc.prems Inr p d l r have en: "en = en2" by simp
      with Suc.prems(2) Suc.IH [OF r]
      have "serve_loop (Suc fuel) W (Suc i) s1 sess peer sock1 = (s2, o2, l2, en2)" by simp
      with True Inr p d l have "serve_loop (Suc (Suc fuel)) W i s sess peer sock = (s2, o1 @ o2, l1 @ l2, en2)"
        by (subst serve_loop.simps) simp
      with Suc.prems(1) True Inr p d l r show ?thesis by simp
    next
      case False
      with Suc.prems(1) Inr p d l show ?thesis
        by (subst serve_loop.simps) (auto split: option.split option.split_asm)
    qed
  qed
qed simp

section \<open>One reply for every request that is answered\<close>

text \<open>A handler that returns has sent one message; one that raises has sent none.\<close>

definition one_reply :: "outcome \<Rightarrow> bool" where
  "one_reply r \<longleftrightarrow> (case r of (s, acts, ex) \<Rightarrow>
     (case ex of None \<Rightarrow> length (sends acts) = 1 | Some _ \<Rightarrow> sends acts = []))"

lemma one_error_reply: "one_error acts ex \<Longrightarrow> one_reply (s, acts, ex)"
  by (auto simp: one_error_def one_reply_def split: option.split)

lemma dispatch_one_reply: "one_reply (dispatch w s sess peer e)"
proof -
  have g: "one_reply (handle_get_pubkey w s sess e)"
    unfolding handle_get_pubkey_def Let_def
    by (auto simp: one_reply_def finish_def abort_def split: sum.split option.split)
  have l: "one_reply (handle_list_pending w s sess e)"
    unfolding handle_list_pending_def Let_def
    by (auto simp: one_reply_def finish_def abort_def split: sum.split)
  obtain s1 a1 x1 where u: "handle_upload_request w s sess e = (s1, a1, x1)" by (metis prod_cases3)
  have u1: "one_reply (handle_upload_request w s sess e)" unfolding u
    using u by (cases rule: handle_upload_cases) (auto simp: one_error_reply, simp add: one_reply_def)
  obtain s2 a2 x2 where d: "handle_download_request w s sess e = (s2, a2, x2)" by (metis prod_cases3)
  have d1: "one_reply (handle_download_request w s sess e)" unfolding d
    using d by (cases rule: handle_download_cases) (auto simp: one_error_reply, simp add: one_reply_def)
  obtain s3 a3 x3 where k: "handle_download_ack w s sess e = (s3, a3, x3)" by (metis prod_cases3)
  have k1: "one_reply (handle_download_ack w s sess e)" unfolding k
    using k by (cases rule: handle_ack_cases) (auto simp: one_error_reply, simp add: one_reply_def)
  obtain s4 a4 x4 where r: "handle_revoke_request w s sess e = (s4, a4, x4)" by (metis prod_cases3)
  have r1: "one_reply (handle_revoke_request w s sess e)" unfolding r
    using r by (cases rule: handle_revoke_cases) (auto simp: one_error_reply, simp_all add: one_reply_def)
  have x: "one_reply (finish s [Log lv ev fs, send_error c])" for lv ev fs c
    by (simp add: one_reply_def finish_def)
  show ?thesis
    unfolding dispatch_def using g l u1 d1 k1 r1 x by (simp split: if_split)
qed

section \<open>The database invariant along a connection\<close>

lemma get_pubkey_state: "handle_get_pubkey w s sess e = (s', acts, ex) \<Longrightarrow> s' = s"
  unfolding handle_get_pubkey_def Let_def by (auto split: sum.split_asm option.split_asm)

lemma list_pending_state: "handle_list_pending w s sess e = (s', acts, ex) \<Longrightarrow> s' = s"
  unfolding handle_list_pending_def Let_def by (auto split: sum.split_asm)

lemma dispatch_ok:
  assumes "dispatch w s sess peer e = (s', acts, ex)" "db_ok (sdb s)"
  shows "db_ok (sdb s')"
  using assms unfolding dispatch_def
  by (auto dest: get_pubkey_state list_pending_state handle_upload_ok handle_download_ok handle_ack_ok
      handle_revoke_ok split: if_split_asm)

end
