(* ===== verification/Cleanup.thy ===== *)
theory Cleanup
  imports Replay
begin

text \<open>
  \<open>server/cleanup.py\<close>: the maintenance pass and the loop of the background thread.  A tick
  brings the two clock readings of one pass (the purge reads the global clock, the expiry
  the injected one) and the database faults it meets.
\<close>

record tick =
  global_now :: int
  clock_now :: int
  purge_fault :: "exc option"
  expire_fault :: "exc option"

text \<open>\<open>run_cleanup_pass\<close>: two transactions.  A fault of the second leaves the first done.\<close>

definition run_cleanup_pass :: "tick \<Rightarrow> db \<Rightarrow> db \<times> (nat \<times> nat) res" where
  "run_cleanup_pass k db =
     (case purge_fault k of
        Some e \<Rightarrow> (db, Inl e)
      | None \<Rightarrow>
          (case purge_old_nonces db NONCE_RETENTION_SECONDS (global_now k) of
             (db1, nonces_deleted) \<Rightarrow>
               (case expire_fault k of
                  Some e \<Rightarrow> (db1, Inl e)
                | None \<Rightarrow>
                    (case mark_expired db1 (clock_now k) of
                       (db2, files_expired) \<Rightarrow> (db2, Inr (nonces_deleted, files_expired))))))"

text \<open>
  The loop body: every exception is logged and the loop goes on.  The list of ticks is the
  life of the thread up to its stop event.
\<close>

datatype pass_log = PassComplete nat nat | PassFailed | PassUnexpected

definition log_pass :: "(nat \<times> nat) res \<Rightarrow> pass_log" where
  "log_pass r = (case r of
     Inr (n, f) \<Rightarrow> PassComplete n f
   | Inl e \<Rightarrow> if is_sqlite_Error e then PassFailed else PassUnexpected)"

primrec cleanup_loop :: "tick list \<Rightarrow> db \<Rightarrow> db \<times> pass_log list" where
  "cleanup_loop [] db = (db, [])"
| "cleanup_loop (k # ks) db =
     (let (db1, r) = run_cleanup_pass k db; (db2, logs) = cleanup_loop ks db1 in
      (db2, log_pass r # logs))"

section \<open>What a pass does\<close>

lemma run_cleanup_pass_ok: "db_ok db \<Longrightarrow> db_ok (fst (run_cleanup_pass k db))"
  using purge_ok [of db NONCE_RETENTION_SECONDS "global_now k"]
    mark_expired_ok [OF purge_ok [of db NONCE_RETENTION_SECONDS "global_now k"], of "clock_now k"]
  by (auto simp: run_cleanup_pass_def split: option.split prod.split)

lemma cleanup_loop_ok: "db_ok db \<Longrightarrow> db_ok (fst (cleanup_loop ks db))"
proof (induction ks arbitrary: db)
  case (Cons k ks)
  from Cons.IH [OF run_cleanup_pass_ok [OF Cons.prems, of k]] show ?case
    by (simp add: split_def Let_def)
qed simp

lemma cleanup_loop_length: "length (snd (cleanup_loop ks db)) = length ks"
  by (induction ks arbitrary: db) (simp_all add: split_def Let_def)

lemma purge_files [simp]: "files (fst (purge_old_nonces db r now)) = files db"
  by (simp add: purge_old_nonces_def Let_def)

lemma lookup_purge [simp]: "lookup_file (fst (purge_old_nonces db r now)) f = lookup_file db f"
  by (simp add: lookup_file_def)

text \<open>A row is kept, or it was pending and past its expiration and is now expired.\<close>

lemma run_cleanup_pass_rows:
  "lookup_file (fst (run_cleanup_pass k db)) f = lookup_file db f
   \<or> lookup_file (fst (run_cleanup_pass k db)) f =
       map_option (\<lambda>r. if expires (clock_now k) r then r\<lparr>status := lit ''expired''\<rparr> else r)
         (lookup_file db f)"
proof -
  obtain db1 n where p: "purge_old_nonces db NONCE_RETENTION_SECONDS (global_now k) = (db1, n)"
    by fastforce
  have l: "lookup_file db1 f = lookup_file db f"
    using lookup_purge [of db NONCE_RETENTION_SECONDS "global_now k" f] p by simp
  obtain db2 m where q: "mark_expired db1 (clock_now k) = (db2, m)" by fastforce
  have "lookup_file db2 f =
      map_option (\<lambda>r. if expires (clock_now k) r then r\<lparr>status := lit ''expired''\<rparr> else r)
        (lookup_file db1 f)"
    using lookup_mark_expired [of db1 "clock_now k" f] q by simp
  with p q l show ?thesis
    by (simp add: run_cleanup_pass_def split: option.split)
qed

end
