(* ===== verification/Lifecycle.thy ===== *)
theory Lifecycle
  imports Serve Cleanup
begin

text \<open>
  The server as a system of steps: requests of any sessions and passes of the cleanup
  thread, in any order.  The contracts \<open>status_system\<close> and \<open>lifecycle\<close> say how the status
  of a file may move; their consequences are proved once, and the interpretation shows
  that the handlers and the cleanup keep them.

  Each handler is one step here; handlers that interleave inside each other are the subject
  of \<open>Interleave\<close>.
\<close>

section \<open>The system\<close>

inductive sys_step :: "crypto \<Rightarrow> bytes \<Rightarrow> server \<Rightarrow> server \<Rightarrow> bool" for C ca where
  request: "lib w = C \<Longrightarrow> ca_pubkey w = ca \<Longrightarrow> dispatch w s sess peer e = (s', acts, ex) \<Longrightarrow>
     sys_step C ca s s'"
| cleanup: "sys_step C ca s (s\<lparr>sdb := fst (run_cleanup_pass k (sdb s))\<rparr>)"

inductive_cases sys_stepE [elim]: "sys_step C ca s s'"

definition abs_status :: "server \<Rightarrow> pystr \<Rightarrow> pystr option" where
  "abs_status s f = map_option status (lookup_file (sdb s) f)"

section \<open>The contract\<close>

text \<open>A system whose steps keep an invariant and move statuses as \<open>move\<close> says.\<close>

locale status_system =
  fixes step :: "'s \<Rightarrow> 's \<Rightarrow> bool" and st :: "'s \<Rightarrow> 'f \<Rightarrow> pystr option" and inv :: "'s \<Rightarrow> bool"
    and move :: "pystr option \<Rightarrow> pystr option \<Rightarrow> bool"
  assumes step_inv: "inv s \<Longrightarrow> step s s' \<Longrightarrow> inv s'"
    and step_move: "inv s \<Longrightarrow> step s s' \<Longrightarrow> move (st s f) (st s' f)"
begin

lemma reach_inv: "step\<^sup>*\<^sup>* s s' \<Longrightarrow> inv s \<Longrightarrow> inv s'"
  by (induction rule: rtranclp_induct) (auto intro: step_inv)

text \<open>A property of statuses that \<open>move\<close> keeps holds for good.\<close>

lemma reach_keeps:
  assumes "step\<^sup>*\<^sup>* s s'" "inv s" "P (st s f)" and "\<And>x y. move x y \<Longrightarrow> P x \<Longrightarrow> P y"
  shows "P (st s' f)"
  using assms(1-3)
proof (induction rule: rtranclp_induct)
  case (step y z)
  have "inv y" using step.hyps(1) step.prems(1) by (rule reach_inv)
  from step_move [OF this step.hyps(2)] step.IH [OF step.prems] show ?case by (rule assms(4))
qed

end

text \<open>
  A file appears as pending; a pending file expires or is revoked; an acknowledged file is
  downloaded, from whatever status it had.
\<close>

inductive life :: "pystr option \<Rightarrow> pystr option \<Rightarrow> bool" where
  stay: "life x x"
| appear: "life None (Some (lit ''pending''))"
| expire: "life (Some (lit ''pending'')) (Some (lit ''expired''))"
| revoke: "life (Some (lit ''pending'')) (Some (lit ''revoked''))"
| acknowledge: "life (Some x) (Some (lit ''downloaded''))"

inductive_simps life_None [simp]: "life None y"
inductive_simps life_Some: "life (Some x) y"

locale lifecycle = status_system step st inv life
  for step :: "'s \<Rightarrow> 's \<Rightarrow> bool" and st :: "'s \<Rightarrow> 'f \<Rightarrow> pystr option" and inv :: "'s \<Rightarrow> bool"
begin

lemma present_for_good: "step\<^sup>*\<^sup>* s s' \<Longrightarrow> inv s \<Longrightarrow> st s f \<noteq> None \<Longrightarrow> st s' f \<noteq> None"
  by (rule reach_keeps [where P = "\<lambda>x. x \<noteq> None"]) (auto simp: life_Some)

lemma downloaded_for_good:
  "step\<^sup>*\<^sup>* s s' \<Longrightarrow> inv s \<Longrightarrow> st s f = Some (lit ''downloaded'') \<Longrightarrow> st s' f = Some (lit ''downloaded'')"
  by (rule reach_keeps [where P = "\<lambda>x. x = Some (lit ''downloaded'')"]) (auto simp: life_Some)

lemma never_pending_again:
  assumes "step\<^sup>*\<^sup>* s s'" "inv s" "st s f = Some x" "x \<noteq> lit ''pending''"
  shows "st s' f \<noteq> Some (lit ''pending'')"
proof -
  have "st s' f \<noteq> None \<and> st s' f \<noteq> Some (lit ''pending'')"
    using assms(1,2)
  proof (rule reach_keeps)
    show "st s f \<noteq> None \<and> st s f \<noteq> Some (lit ''pending'')" using assms(3,4) by simp
  qed (auto simp: life_Some)
  then show ?thesis by blast
qed

end

section \<open>The handlers keep the contract\<close>

definition same_db_files :: "server \<Rightarrow> server \<Rightarrow> bool" where
  "same_db_files s s' \<longleftrightarrow> files (sdb s') = files (sdb s)"

lemma abs_status_same: "same_db_files s s' \<Longrightarrow> abs_status s' f = abs_status s f"
  by (simp add: same_db_files_def abs_status_def lookup_file_def)

lemma same_gate: "gate_passed w e s s1 \<Longrightarrow> same_db_files s s1"
  by (auto simp: same_db_files_def dest: gate_passed_same)

lemma same_only_nonce: "only_nonce w e s s' \<Longrightarrow> same_db_files s s'"
  by (auto simp: same_db_files_def)

lemma lookup_append_row:
  "lookup_file (db\<lparr>files := files db @ [row]\<rparr>) f =
     (case lookup_file db f of Some r \<Rightarrow> Some r | None \<Rightarrow> if file_id row = f then Some row else None)"
proof -
  have "find P (xs @ [row]) = (case find P xs of Some r \<Rightarrow> Some r | None \<Rightarrow> if P row then Some row else None)"
    for P and xs :: "frow list"
    by (induction xs) auto
  then show ?thesis by (simp add: lookup_file_def)
qed

lemma upload_done_life:
  assumes "upload_done w sess u s s'"
  shows "life (abs_status s f) (abs_status s' f)"
proof -
  obtain sender aad where r: "sdb s' = (sdb s)\<lparr>files := files (sdb s) @ [uploaded_row u sess sender aad]\<rparr>"
      "lookup_file (sdb s) (u_file_id u) = None"
    using assms by (rule upload_done_row) blast
  have "status (uploaded_row u sess sender aad) = lit ''pending''"
    by (simp add: uploaded_row_def row_of_def upload_values_def)
  then show ?thesis
    by (cases "lookup_file (sdb s) f") (auto simp: abs_status_def r(1) lookup_append_row intro: life.intros)
qed

lemma set_status_life:
  assumes "\<And>r. lookup_file db g = Some r \<Longrightarrow> life (Some (status r)) (Some st)"
  shows "life (map_option status (lookup_file db f)) (map_option status (lookup_file (set_status g st db) f))"
  using assms by (cases "lookup_file db f") (auto simp: lookup_set_status intro: life.stay)

lemma expiry_only_life:
  assumes "expiry_only w sess (sdb s) (sdb s')" "db_ok (sdb s)"
  shows "life (abs_status s f) (abs_status s' f)"
  using assms(1) unfolding expiry_only_def
proof (elim disjE bexE conjE)
  assume "sdb s' = sdb s"
  then show ?thesis by (simp add: abs_status_def life.stay)
next
  fix row
  assume r: "row \<in> set (files (sdb s))" "status row = lit ''pending''"
    and e: "sdb s' = set_status (file_id row) (lit ''expired'') (sdb s)"
  have "lookup_file (sdb s) (file_id row) = Some row"
    using r(1) assms(2) by (simp add: lookup_file_Some_iff db_ok_def)
  then show ?thesis
    unfolding abs_status_def e using r(2) by (intro set_status_life) (auto intro: life.expire)
qed

lemma acked_life:
  assumes "acked w q s s'" shows "life (abs_status s f) (abs_status s' f)"
proof -
  obtain db1 where d: "record_ack w q (sdb s) = Inr db1"
      "sdb s' = set_status (r_file_id q) (lit ''downloaded'') db1"
    using assms by (auto simp: acked_def)
  have l: "lookup_file (sdb s) f = lookup_file db1 f"
    using record_ack_files [OF d(1)] by (simp add: lookup_file_def)
  show ?thesis
    unfolding abs_status_def d(2) l by (intro set_status_life) (rule life.acknowledge)
qed

lemma half_acked_same: "half_acked w q s s' \<Longrightarrow> same_db_files s s'"
  by (auto simp: half_acked_def same_db_files_def dest: record_ack_files)

lemma upload_life:
  assumes "handle_upload_request w s sess e = (s', acts, ex)"
  shows "life (abs_status s f) (abs_status s' f)"
  using assms
proof (cases rule: handle_upload_cases)
  case refused
  from abs_status_same [OF same_only_nonce [OF this(1)]] show ?thesis by (simp add: life.stay)
next
  case (accepted s1 u)
  from upload_done_life [OF accepted(3)] abs_status_same [OF same_gate [OF accepted(1)]]
  show ?thesis by simp
qed

lemma download_life:
  assumes "handle_download_request w s sess e = (s', acts, ex)" "db_ok (sdb s)"
  shows "life (abs_status s f) (abs_status s' f)"
  using assms(1)
proof (cases rule: handle_download_cases)
  case (refused s1)
  then have "same_db_files s s1" by (auto simp: same_db_files_def dest: gate_passed_same)
  moreover have "db_ok (sdb s1)" using refused(1) assms(2) gate_passed_ok by blast
  ultimately show ?thesis
    using expiry_only_life [OF refused(2)] abs_status_same by metis
next
  case (answered g row ct)
  from abs_status_same [OF same_gate [OF answered(1)]] show ?thesis by (simp add: life.stay)
qed

lemma ack_life:
  assumes "handle_download_ack w s sess e = (s', acts, ex)"
  shows "life (abs_status s f) (abs_status s' f)"
  using assms
proof (cases rule: handle_ack_cases)
  case refused
  from abs_status_same [OF same_only_nonce [OF this(1)]] show ?thesis by (simp add: life.stay)
next
  case (half s1 q row)
  from abs_status_same [OF half_acked_same [OF half(3)]] abs_status_same [OF same_gate [OF half(1)]]
  show ?thesis by (simp add: life.stay)
next
  case (acknowledged s1 q row)
  from acked_life [OF acknowledged(3)] abs_status_same [OF same_gate [OF acknowledged(1)]]
  show ?thesis by simp
qed

lemma revoke_life:
  assumes "handle_revoke_request w s sess e = (s', acts, ex)"
  shows "life (abs_status s f) (abs_status s' f)"
  using assms
proof (cases rule: handle_revoke_cases)
  case refused
  from abs_status_same [OF same_only_nonce [OF this(1)]] show ?thesis by (simp add: life.stay)
next
  case (again q row)
  from abs_status_same [OF same_gate [OF again(1)]] show ?thesis by (simp add: life.stay)
next
  case (revoked s1 q row)
  have "lookup_file (sdb s1) (r_file_id q) = Some row" using revoked(2) by (simp add: revoke_authorised_def)
  then have "life (abs_status s1 f) (abs_status s' f)"
    unfolding abs_status_def revoked(6) using revoked(3)
    by (simp del: map_option_eq_Some) (intro set_status_life, auto intro: life.revoke)
  then show ?thesis using abs_status_same [OF same_gate [OF revoked(1)]] by simp
qed

lemma dispatch_life:
  assumes "dispatch w s sess peer e = (s', acts, ex)" "db_ok (sdb s)"
  shows "life (abs_status s f) (abs_status s' f)"
  using assms unfolding dispatch_def
  by (auto dest: get_pubkey_state list_pending_state upload_life ack_life revoke_life
      intro: life.stay download_life split: if_split_asm)

lemma cleanup_life: "life (abs_status s f) (abs_status (s\<lparr>sdb := fst (run_cleanup_pass k (sdb s))\<rparr>) f)"
  using run_cleanup_pass_rows [of k "sdb s" f]
  by (cases "lookup_file (sdb s) f") (auto simp: abs_status_def expires_def intro: life.intros)

interpretation files: lifecycle "sys_step C ca" abs_status "\<lambda>s. db_ok (sdb s)" for C ca
proof
  fix s s'
  assume "db_ok (sdb s)" "sys_step C ca s s'"
  then show "db_ok (sdb s')"
    by (elim sys_stepE) (auto dest: dispatch_ok intro: run_cleanup_pass_ok)
next
  fix s s' f
  assume "db_ok (sdb s)" "sys_step C ca s s'"
  then show "life (abs_status s f) (abs_status s' f)"
    by (elim sys_stepE) (auto dest: dispatch_life intro: cleanup_life)
qed

section \<open>The provenance of every row\<close>

text \<open>
  A row carries what its sender signed: under a certificate the CA signed, the signature
  verifies over exactly the stored routing, times and digests.
\<close>

definition row_signed :: "crypto \<Rightarrow> bytes \<Rightarrow> frow \<Rightarrow> bool" where
  "row_signed C ca r \<longleftrightarrow>
     (\<exists>cert subject wk ts ex. ca_signed C ca cert
        \<and> (\<exists>rt. bind_text rt subject = Inr (Some (sender_id r)))
        \<and> py_eq (jget cert (lit ''subject'')) subject
        \<and> wk = sha256_hex (wrapped_key r)
        \<and> as_int ts = Some (upload_timestamp r) \<and> as_int ex = Some (expiration r)
        \<and> signed_by C (JObj cert) (sender_signature r)
            (origin_struct subject (JStr (recipient_id r)) (JStr (file_id r)) (ciphertext_sha256 r) wk ts ex)
        \<and> sender_cert_json r = dumps default_opts (sort_keys (JObj cert)))"

definition all_signed :: "crypto \<Rightarrow> bytes \<Rightarrow> server \<Rightarrow> bool" where
  "all_signed C ca s \<longleftrightarrow> (\<forall>r \<in> set (files (sdb s)). row_signed C ca r)"

lemma row_signed_status [simp]: "row_signed C ca (r\<lparr>status := st\<rparr>) = row_signed C ca r"
  by (simp add: row_signed_def)

lemma all_signed_same: "same_db_files s s' \<Longrightarrow> all_signed C ca s' = all_signed C ca s"
  by (simp add: all_signed_def same_db_files_def)

lemma all_signed_set_status:
  "all_signed C ca s \<Longrightarrow> sdb s' = set_status f st (sdb s) \<Longrightarrow> all_signed C ca s'"
  by (auto simp: all_signed_def set_status_def)

lemma uploaded_row_signed:
  assumes a: "upload_authorised w s0 sess e u" and l: "lib w = C" "ca_pubkey w = ca"
    and b: "bind_text (real_text w) (peer_subject sess) = Inr (Some sender)"
  shows "row_signed C ca (uploaded_row u sess sender aad)"
proof -
  have "peer_subject sess \<noteq> JNull" using b by (auto simp: bind_text_def)
  then obtain cert where c: "peer_cert sess = JObj cert" "ca_signed C ca cert"
      "py_eq (jget cert (lit ''subject'')) (peer_subject sess)"
    using a l by (auto simp: upload_authorised_def verify_certificate_iff expected_of_def)
  have p: "parse_upload (e_payload e) = Inr u" using a by (simp add: upload_authorised_def)
  obtain ts ex where i: "as_int (u_timestamp u) = Some ts" "as_int (u_expiration u) = Some ex"
    using parse_upload_Inr [OF p] by blast
  have "\<exists>rt. bind_text rt (peer_subject sess) = Inr (Some sender)" using b by blast
  with a l c i show ?thesis
    unfolding row_signed_def
    by (intro exI [of _ cert] exI [of _ "peer_subject sess"] exI [of _ "sha256_hex (u_wrapped_key u)"]
        exI [of _ "u_timestamp u"] exI [of _ "u_expiration u"])
      (simp add: upload_authorised_def uploaded_row_def row_of_def upload_values_def)
qed

lemma upload_done_signed:
  assumes "upload_done w sess u s s'" "upload_authorised w s0 sess e u" "lib w = C" "ca_pubkey w = ca"
    and "all_signed C ca s"
  shows "all_signed C ca s'"
proof -
  obtain sender aad where "bind_text (real_text w) (peer_subject sess) = Inr (Some sender)"
      "sdb s' = (sdb s)\<lparr>files := files (sdb s) @ [uploaded_row u sess sender aad]\<rparr>"
    using assms(1) by (rule upload_done_row) blast
  with uploaded_row_signed [OF assms(2-4)] assms(5) show ?thesis by (simp add: all_signed_def)
qed

lemma dispatch_signed:
  assumes d: "dispatch w s sess peer e = (s', acts, ex)" and l: "lib w = C" "ca_pubkey w = ca"
    and s: "all_signed C ca s"
  shows "all_signed C ca s'"
proof -
  have u: "all_signed C ca s'" if "handle_upload_request w s sess e = (s', acts, ex)"
    using that
  proof (cases rule: handle_upload_cases)
    case refused
    then show ?thesis using s all_signed_same [OF same_only_nonce] by blast
  next
    case (accepted s1 u)
    have "all_signed C ca s1" using s all_signed_same [OF same_gate [OF accepted(1)]] by simp
    with accepted(3,2) l show ?thesis by (rule upload_done_signed)
  qed
  have dl: "all_signed C ca s'" if "handle_download_request w s sess e = (s', acts, ex)"
    using that
  proof (cases rule: handle_download_cases)
    case (refused s1)
    then have "all_signed C ca s1" using s all_signed_same [OF same_gate] by blast
    with refused(2) show ?thesis
      unfolding expiry_only_def by (auto simp: all_signed_def set_status_def)
  next
    case (answered g row ct)
    then show ?thesis using s all_signed_same [OF same_gate] by blast
  qed
  have k: "all_signed C ca s'" if "handle_download_ack w s sess e = (s', acts, ex)"
    using that
  proof (cases rule: handle_ack_cases)
    case refused
    then show ?thesis using s all_signed_same [OF same_only_nonce] by blast
  next
    case (half s1 q row)
    then show ?thesis using s all_signed_same [OF half_acked_same] all_signed_same [OF same_gate] by blast
  next
    case (acknowledged s1 q row)
    then have "all_signed C ca s1" using s all_signed_same [OF same_gate] by blast
    moreover obtain db1 where d: "record_ack w q (sdb s1) = Inr db1"
        "sdb s' = set_status (r_file_id q) (lit ''downloaded'') db1"
      using acknowledged(3) by (auto simp: acked_def)
    moreover have "files db1 = files (sdb s1)" using record_ack_files [OF d(1)] by simp
    ultimately show ?thesis by (auto simp: all_signed_def set_status_def)
  qed
  have r: "all_signed C ca s'" if "handle_revoke_request w s sess e = (s', acts, ex)"
    using that
  proof (cases rule: handle_revoke_cases)
    case refused
    then show ?thesis using s all_signed_same [OF same_only_nonce] by blast
  next
    case (again q row)
    then show ?thesis using s all_signed_same [OF same_gate] by blast
  next
    case (revoked s1 q row)
    then have "all_signed C ca s1" using s all_signed_same [OF same_gate] by blast
    then show ?thesis by (rule all_signed_set_status) (simp add: revoked(6))
  qed
  show ?thesis
    using d s u dl k r unfolding dispatch_def
    by (auto dest: get_pubkey_state list_pending_state split: if_split_asm)
qed

lemma cleanup_signed:
  "all_signed C ca s \<Longrightarrow> all_signed C ca (s\<lparr>sdb := fst (run_cleanup_pass k (sdb s))\<rparr>)"
  unfolding all_signed_def run_cleanup_pass_def
  by (auto simp: purge_old_nonces_def mark_expired_def Let_def split: option.split)

lemma sys_step_signed: "sys_step C ca s s' \<Longrightarrow> all_signed C ca s \<Longrightarrow> all_signed C ca s'"
  by (elim sys_stepE) (auto dest: dispatch_signed intro: cleanup_signed)

end
