(* ===== verification/Examples.thy ===== *)
theory Examples
  imports Lifecycle
begin

text \<open>
  Concrete states, sessions and requests, on which the properties are instantiated: the
  users alice and bob, a CA, and a file on its way from one to the other, with the
  library of \<open>plain_crypto\<close>.
\<close>

section \<open>Certificates and signatures\<close>

definition bytes_of :: "json \<Rightarrow> bytes" where
  "bytes_of v = (case canonical_json v of Inr b \<Rightarrow> b | Inl _ \<Rightarrow> [])"

lemma canonical_bytes_of: "wf_json v \<Longrightarrow> canonical_json v = Inr (bytes_of v)"
  by (elim canonical_json_wf) (simp add: bytes_of_def)

definition alice :: pystr where "alice = lit ''alice''"
definition bob :: pystr where "bob = lit ''bob''"

text \<open>A user's PEM is the one character \<open>key\<close>; the CA's is \<open>C\<close>.\<close>

definition demo_cert :: "pystr \<Rightarrow> nat \<Rightarrow> jdict" where
  "demo_cert name key =
     unsigned_cert name [key] 0 365 (lit ''serial'') @
     [(lit ''signature'',
       JStr (b64encode (b8 67 # bytes_of (JObj (unsigned_cert name [key] 0 365 (lit ''serial''))))))]"

lemma length_dec: "n < 10 ^ Suc k \<Longrightarrow> length (dec n) \<le> Suc k"
proof (induction k arbitrary: n)
  case 0
  then show ?case by (subst dec.simps) simp
next
  case (Suc k)
  show ?case
  proof (cases "n < 10")
    case True
    then show ?thesis by (subst dec.simps) simp
  next
    case False
    have "n div 10 < 10 ^ Suc k" using Suc.prems by (simp add: less_mult_imp_div_less)
    with Suc.IH [of "n div 10"] False show ?thesis by (subst dec.simps) simp
  qed
qed

lemma wf_int64: "int64 i \<Longrightarrow> wf_int i"
proof -
  assume "int64 i"
  then have "\<bar>i\<bar> < 10 ^ Suc 18" by (auto simp: int64_def abs_less_iff)
  then have "nat \<bar>i\<bar> < 10 ^ Suc 18" by (simp add: nat_less_iff)
  then have "length (dec (nat \<bar>i\<bar>)) \<le> Suc 18" by (rule length_dec)
  then show ?thesis by (simp add: wf_int_def max_int_digits_def)
qed

lemma wf_unsigned: "wf_str name \<Longrightarrow> key < 128 \<Longrightarrow> wf_json (JObj (unsigned_cert name [key] 0 365 (lit ''serial'')))"
  by (auto simp: unsigned_cert_def ISSUER_NAME_def int64_def intro!: wf_int64 wf_str_ascii)

lemma demo_cert_issued:
  assumes "wf_str name" "name \<noteq> []" "key < 128"
  shows "issue_certificate plain_crypto 0 (lit ''serial'') [] name [b8 key] [b8 67] [] 365 = Inr (demo_cert name key)"
proof -
  have "ascii_decode [b8 key] = Inr [key]" using assms(3) by (simp add: ascii_decode_def)
  moreover have "canonical_json (JObj (unsigned_cert name [key] 0 365 (lit ''serial''))) =
      Inr (bytes_of (JObj (unsigned_cert name [key] 0 365 (lit ''serial''))))"
    using assms by (intro canonical_bytes_of wf_unsigned)
  moreover have "rsa_sign plain_crypto [] [b8 67] [] d = Inr (b8 67 # d)" for d
    by (simp add: rsa_sign_def load_private_def rsa_key_of_def plain_crypto_def)
  ultimately show ?thesis
    using assms by (simp add: issue_certificate_def demo_cert_def unsigned_cert_def)
qed

lemma load_plain: "key < 128 \<Longrightarrow> load_pem_public_key plain_crypto [b8 key] = RsaKey key"
  "key < 128 \<Longrightarrow> load_pem_private_key plain_crypto [b8 key] pw = RsaKey key"
  by (simp_all add: plain_crypto_def)

lemma demo_cert_verifies:
  assumes "wf_str name" "name \<noteq> []" "key < 128" "0 \<le> t" "t \<le> 1000000"
  shows "verify_certificate plain_crypto t (JObj (demo_cert name key)) [b8 67] (Some (JStr name)) = Inr True"
  using verify_issued [OF demo_cert_issued [OF assms(1-3)] plain_crypto_correct(1) load_plain(2) load_plain(1)]
    assms(4,5) by simp

lemma demo_cert_pem: "key < 128 \<Longrightarrow> cert_pem (demo_cert name key) = Inr [b8 key]"
  by (simp add: cert_pem_Inr_iff demo_cert_def unsigned_cert_def ascii_encode_def)

lemma demo_cert_wf:
  assumes "wf_str name" "key < 128" shows "wf_json (JObj (demo_cert name key))"
proof -
  have "wf_str (b64encode b)" for b
    using b64encode_ascii by (intro wf_str_ascii) (auto simp: list_all_set)
  with wf_unsigned [OF assms] show ?thesis by (auto simp: demo_cert_def unsigned_cert_def)
qed

text \<open>The signature of the user with key \<open>key\<close> over a struct.\<close>

definition demo_sig :: "nat \<Rightarrow> json \<Rightarrow> bytes" where
  "demo_sig key struct = b8 key # bytes_of struct"

lemma demo_signed:
  assumes "wf_json struct" "key < 128"
  shows "signed_by plain_crypto (JObj (demo_cert name key)) (demo_sig key struct) struct"
  unfolding signed_by_def
  using canonical_bytes_of [OF assms(1)] load_plain(1) [OF assms(2)] demo_cert_pem [OF assms(2), of name]
  by (auto simp: cert_value_pem_def demo_sig_def plain_crypto_def)

lemma wf_names [simp]: "wf_str alice" "wf_str bob" "alice \<noteq> []" "bob \<noteq> []" "alice \<noteq> bob" "bob \<noteq> alice"
  by (simp_all add: alice_def bob_def)

section \<open>The server and its world\<close>

definition demo_layout :: layout where
  "demo_layout = \<lparr>cfg_db_path = None, cfg_storage_dir = None, cfg_pubkeys_dir = None, cfg_files_dir = None\<rparr>"

definition demo_world :: env where
  "demo_world = \<lparr>lib = plain_crypto, real_text = (\<lambda>_. []), repr_of = (\<lambda>_. []), ca_pubkey = [b8 67],
     cfg = demo_layout, t_replay = 1000, t_cert = 1000, t_dir = 1000, t_list = 1000, t_auth = 1000,
     disk = DiskOk, dir_fault = None, stat_fails = (\<lambda>_. False), blob_fault = None, nonce_fault = None,
     get_fault = None, list_fault = None, insert_fault = None, mark_fault = None, ack_fault = None\<rparr>"

definition demo_fs :: filesystem where
  "demo_fs = [path_join (pubkeys_dir demo_layout) (bob @ lit ''.json'') \<mapsto>
     (case utf8_encode (dumps compact_opts (JObj (demo_cert bob 66))) of Inl _ \<Rightarrow> [] | Inr bs \<Rightarrow> bs)]"

definition demo_file :: pystr where "demo_file = uuid_str 1"

definition demo_session :: "pystr \<Rightarrow> nat \<Rightarrow> session" where
  "demo_session name key = \<lparr>peer_subject = JStr name, peer_cert = JObj (demo_cert name key),
     c2s_key = [], s2c_key = [], transcript_hash = []\<rparr>"

definition demo_envelope :: "pystr \<Rightarrow> jdict \<Rightarrow> envelope" where
  "demo_envelope t p = \<lparr>e_type = t, e_nonce = JStr (b64encode (replicate 16 7)), e_timestamp = JInt 990,
     e_request_id = JStr (lit ''request''), e_payload = p\<rparr>"

definition demo_start :: server where
  "demo_start = \<lparr>sdb = empty_db, sfs = demo_fs\<rparr>"

lemma demo_lookup_bob: "load_verified_pubkey_cert demo_world demo_fs (JStr bob) = Inr (Some (demo_cert bob 66))"
proof -
  have v: "valid_username (JStr bob)"
    by (simp add: valid_username_iff bob_def lit_def username_char_def)
  have w: "wf_json (JObj (demo_cert bob 66))" by (rule demo_cert_wf) simp_all
  obtain bs where b: "utf8_encode (dumps compact_opts (JObj (demo_cert bob 66))) = Inr bs"
    using utf8_encode_wf [OF wf_str_dumps [OF text_opts_simps(2) w]] by blast
  have r: "read_json None bs = Inr (demo_cert bob 66)"
    using utf8_decode_encode [OF b] w
    by (simp add: read_json_def universal_newlines_dumps json_loads_dumps del: dumps.simps wf_json.simps)
  have c: "verify_certificate plain_crypto 1000 (JObj (demo_cert bob 66)) [b8 67] (Some (JStr bob)) = Inr True"
    by (rule demo_cert_verifies) simp_all
  show ?thesis
    using v b r c
    by (simp add: load_verified_pubkey_cert_def pubkey_path_for_def demo_fs_def demo_world_def expected_of_def)
qed

text \<open>Only the entry of bob matters for that.\<close>

definition bob_path :: path where
  "bob_path = path_join (pubkeys_dir demo_layout) (bob @ lit ''.json'')"

lemma load_cert_cong:
  assumes "\<And>p. pubkey_path_for (cfg w) v = Some p \<Longrightarrow> fs p = fs' p"
  shows "load_verified_pubkey_cert w fs v = load_verified_pubkey_cert w fs' v"
  using assms by (auto simp: load_verified_pubkey_cert_def split: option.split)

lemma demo_bob_path: "pubkey_path_for demo_layout (JStr bob) = Some bob_path"
  by (simp add: pubkey_path_for_def bob_path_def valid_username_iff bob_def lit_def username_char_def)

lemma demo_lookup_bob_fs:
  assumes "fs bob_path = demo_fs bob_path"
  shows "load_verified_pubkey_cert demo_world fs (JStr bob) = Inr (Some (demo_cert bob 66))"
proof -
  have "load_verified_pubkey_cert demo_world fs (JStr bob) = load_verified_pubkey_cert demo_world demo_fs (JStr bob)"
    using assms demo_bob_path by (intro load_cert_cong) (simp add: demo_world_def)
  then show ?thesis by (simp add: demo_lookup_bob)
qed

lemma demo_file_ok: "check_file_id (JStr demo_file) = Inr demo_file"
  by (auto simp: check_file_id_iff demo_file_def intro!: exI [of _ 1])

lemma demo_file_wf [simp]: "wf_str demo_file"
  using demo_file_ok by (rule uuid_wf)

lemma demo_path_differs [simp]: "bob_path \<noteq> file_blob_path_for demo_layout demo_file"
proof -
  have "47 \<notin> set demo_file" using demo_file_ok by (rule uuid_no_slash)
  from pubkey_not_blob [OF this demo_bob_path] show ?thesis by simp
qed

section \<open>An upload\<close>

definition demo_origin :: "json" where
  "demo_origin = origin_struct (JStr alice) (JStr bob) (JStr demo_file) (sha256_hex [1, 2, 3]) (sha256_hex [4, 5])
     (JInt 990) (JInt 5000)"

definition demo_upload_payload :: jdict where
  "demo_upload_payload =
     [(lit ''file_id'', JStr demo_file), (lit ''recipient'', JStr bob),
      (lit ''ciphertext'', JStr (b64encode [1, 2, 3])), (lit ''nonce'', JStr (b64encode [6])),
      (lit ''wrapped_key'', JStr (b64encode [4, 5])),
      (lit ''signature'', JStr (b64encode (demo_sig 65 demo_origin))),
      (lit ''timestamp'', JInt 990), (lit ''expiration'', JInt 5000)]"

definition demo_upload :: envelope where
  "demo_upload = demo_envelope (lit ''UPLOAD_REQUEST'') demo_upload_payload"

definition demo_fields :: upload_fields where
  "demo_fields = \<lparr>u_file_id = demo_file, u_recipient = bob, u_timestamp = JInt 990, u_expiration = JInt 5000,
     u_ciphertext = [1, 2, 3], u_aes_nonce = [6], u_wrapped_key = [4, 5],
     u_signature = demo_sig 65 demo_origin\<rparr>"

definition gated :: "server \<Rightarrow> server" where
  "gated s = s\<lparr>sdb := (sdb s)\<lparr>seen_nonces := seen_nonces (sdb s) @ [(replicate 16 7, 1000)]\<rparr>\<rparr>"

lemma demo_gate:
  "seen_nonces (sdb s) = [] \<Longrightarrow> gate_passed demo_world (demo_envelope t p) s (gated s)"
  by (simp add: gate_passed_def demo_envelope_def b64_field_def check_and_record_def demo_world_def
      TIMESTAMP_WINDOW_SECONDS_def gated_def)

lemma sha_hex_wf [simp]: "wf_str (sha256_hex b)"
  by (intro wf_str_ascii) auto

lemma wf_int_simps [simp]: "wf_int 990" "wf_int 5000" "wf_int 995"
  by (auto simp: int64_def intro!: wf_int64)

lemma demo_parse: "parse_upload demo_upload_payload = Inr demo_fields"
proof -
  have "valid_username (JStr bob)"
    by (simp add: valid_username_iff bob_def lit_def username_char_def)
  then show ?thesis
    using demo_file_ok
    by (simp add: parse_upload_def demo_upload_payload_def jitem_def decode_b64_field_def jget_def
        check_username_def demo_fields_def del: b64encode.simps)
qed

lemma demo_cert_valid: "name = alice \<and> key = 65 \<or> name = bob \<and> key = 66 \<Longrightarrow>
    verify_certificate (lib demo_world) (t_cert demo_world) (peer_cert (demo_session name key))
      (ca_pubkey demo_world) (Some (JStr name)) = Inr True"
  by (auto simp: demo_world_def demo_session_def intro!: demo_cert_verifies)

lemma demo_authorised:
  assumes "sfs s bob_path = demo_fs bob_path"
  shows "upload_authorised demo_world s (demo_session alice 65) demo_upload demo_fields"
proof -
  have "wf_json demo_origin" by (simp add: demo_origin_def wf_origin_struct)
  then have "signed_by plain_crypto (JObj (demo_cert alice 65)) (demo_sig 65 demo_origin) demo_origin"
    by (rule demo_signed) simp
  moreover have "verify_certificate (lib demo_world) (t_cert demo_world) (peer_cert (demo_session alice 65))
      (ca_pubkey demo_world) (Some (JStr alice)) = Inr True"
    by (rule demo_cert_valid) simp
  ultimately show ?thesis
    using demo_parse demo_lookup_bob_fs [of "sfs s"] assms
    by (simp add: upload_authorised_def demo_upload_def demo_envelope_def demo_session_def demo_fields_def
        demo_origin_def demo_world_def)
qed

lemma demo_storable:
  assumes "files (sdb s) = []"
  shows "upload_storable demo_world s (demo_session alice 65) demo_fields"
  using assms demo_cert_wf [of alice 65]
  by (simp add: upload_storable_def demo_world_def demo_session_def demo_fields_def lookup_file_def int64_def)

lemma demo_upload_accepted:
  "\<exists>s' acts. handle_upload_request demo_world demo_start (demo_session alice 65) demo_upload = (s', acts, None)
     \<and> upload_done demo_world (demo_session alice 65) demo_fields (gated demo_start) s'"
proof (rule handle_upload_accepts)
  show "gate_passed demo_world demo_upload demo_start (gated demo_start)"
    unfolding demo_upload_def by (rule demo_gate) (simp add: demo_start_def empty_db_def)
  show "upload_authorised demo_world (gated demo_start) (demo_session alice 65) demo_upload demo_fields"
    by (rule demo_authorised) (simp add: gated_def demo_start_def)
  show "upload_storable demo_world (gated demo_start) (demo_session alice 65) demo_fields"
    by (rule demo_storable) (simp add: gated_def demo_start_def empty_db_def)
qed

section \<open>A stored file, in any status\<close>

definition demo_row :: "pystr \<Rightarrow> frow" where
  "demo_row st = \<lparr>file_id = demo_file, sender_id = alice, recipient_id = bob, upload_timestamp = 990,
     expiration = 5000, status = st, ciphertext_path = demo_file @ lit ''.bin'',
     ciphertext_sha256 = sha256_hex [1, 2, 3], wrapped_key = [4, 5], aes_nonce = [6], aes_aad = [7],
     sender_signature = demo_sig 65 demo_origin, sender_cert_json = lit ''{}''\<rparr>"

definition demo_stored :: "pystr \<Rightarrow> server" where
  "demo_stored st = \<lparr>sdb = \<lparr>files = [demo_row st], seen_nonces = [], acks = []\<rparr>,
     sfs = demo_fs(file_blob_path_for demo_layout demo_file \<mapsto> [1, 2, 3])\<rparr>"

lemma demo_stored_ok: "st \<in> set STATUSES \<Longrightarrow> db_ok (sdb (demo_stored st))"
  by (simp add: db_ok_def demo_stored_def demo_row_def int64_def)

lemma demo_lookup [simp]:
  "lookup_file (sdb (demo_stored st)) demo_file = Some (demo_row st)"
  "lookup_file (sdb (gated (demo_stored st))) demo_file = Some (demo_row st)"
  by (simp_all add: lookup_file_def demo_stored_def demo_row_def gated_def)

text \<open>Bob asks for it.\<close>

definition demo_download :: envelope where
  "demo_download = demo_envelope (lit ''DOWNLOAD_REQUEST'') [(lit ''file_id'', JStr demo_file)]"

lemma demo_download_served:
  "\<exists>acts. handle_download_request demo_world (demo_stored (lit ''pending'')) (demo_session bob 66) demo_download =
     (gated (demo_stored (lit ''pending'')), acts, None)
     \<and> sends acts = [(lit ''DOWNLOAD_RESPONSE'', download_payload (JStr demo_file) (demo_row (lit ''pending'')) [1, 2, 3])]"
proof -
  have g: "get_file (real_text demo_world) (sdb (gated (demo_stored st))) (JStr demo_file) = Inr (Some (demo_row st))" for st
    by (simp add: get_file_JStr)
  have c: "check_and_record (sdb (demo_stored st)) (replicate 16 7) 990 1000 = (sdb (gated (demo_stored st)), True)" for st
    by (simp add: check_and_record_def demo_stored_def gated_def TIMESTAMP_WINDOW_SECONDS_def)
  have gg: "(demo_stored st)\<lparr>sdb := sdb (gated (demo_stored st))\<rparr> = gated (demo_stored st)" for st
    by (simp add: gated_def)
  have f: "sfs (gated (demo_stored st)) (file_blob_path_for demo_layout demo_file) = Some [1, 2, 3]" for st
    by (simp add: gated_def demo_stored_def)
  have r: "recipient_id (demo_row st) = bob" "expiration (demo_row st) = 5000" "status (demo_row st) = st" for st
    by (simp_all add: demo_row_def)
  have d: "cfg demo_world = demo_layout" "get_fault demo_world = None" "blob_fault demo_world = None"
      "t_auth demo_world = 1000" "nonce_fault demo_world = None" "t_replay demo_world = 1000"
    by (simp_all add: demo_world_def)
  have rc: "replay_check demo_world (sdb (demo_stored st)) (replicate 16 7) (JInt 990) = Inr (sdb (gated (demo_stored st)), True)" for st
    using c d by (simp add: replay_check_def TIMESTAMP_WINDOW_SECONDS_def)
  show ?thesis
    by (simp add: handle_download_request_def replay_gate_def demo_download_def demo_envelope_def b64_field_def
        rc gg download_fresh_def download_answer_def authorise_download_def expire_mark_def g r d demo_session_def serve_blob_def py_str_def f)
qed

text \<open>Bob's receipt and alice's revocation.\<close>

definition demo_ack_request :: signed_request where
  "demo_ack_request = \<lparr>r_file_id = demo_file, r_timestamp = JInt 995,
     r_signature = demo_sig 66 (ack_struct (JStr demo_file) (JInt 995))\<rparr>"

definition demo_revoke_request :: signed_request where
  "demo_revoke_request = \<lparr>r_file_id = demo_file, r_timestamp = JInt 995,
     r_signature = demo_sig 65 (revoke_struct (JStr alice) (JStr demo_file) (JInt 995))\<rparr>"

definition signed_payload :: "signed_request \<Rightarrow> jdict" where
  "signed_payload q = [(lit ''file_id'', JStr (r_file_id q)), (lit ''timestamp'', r_timestamp q),
     (lit ''signature'', JStr (b64encode (r_signature q)))]"

lemma signed_payload_parses:
  "r_file_id q = demo_file \<Longrightarrow> r_timestamp q = JInt i \<Longrightarrow> parse_signed (signed_payload q) = Inr q"
  using demo_file_ok
  by (simp add: parse_signed_def signed_payload_def jitem_def decode_b64_field_def jget_def)

lemma demo_ack_authorised:
  "ack_authorised demo_world (gated (demo_stored st)) (demo_session bob 66)
     (demo_envelope t (signed_payload demo_ack_request)) demo_ack_request (demo_row st)"
proof -
  have "wf_json (ack_struct (JStr demo_file) (JInt 995))" by (simp add: wf_ack_struct)
  then have "signed_by plain_crypto (JObj (demo_cert bob 66)) (demo_sig 66 (ack_struct (JStr demo_file) (JInt 995)))
      (ack_struct (JStr demo_file) (JInt 995))"
    by (rule demo_signed) simp
  moreover have "verify_certificate (lib demo_world) (t_cert demo_world) (peer_cert (demo_session bob 66))
      (ca_pubkey demo_world) (Some (JStr bob)) = Inr True"
    by (rule demo_cert_valid) simp
  moreover have "parse_signed (signed_payload demo_ack_request) = Inr demo_ack_request"
    by (rule signed_payload_parses) (simp_all add: demo_ack_request_def)
  ultimately show ?thesis
    by (simp add: ack_authorised_def demo_envelope_def demo_ack_request_def demo_session_def demo_row_def
        demo_world_def)
qed

lemma demo_revoke_authorised:
  "revoke_authorised demo_world (gated (demo_stored st)) (demo_session alice 65)
     (demo_envelope t (signed_payload demo_revoke_request)) demo_revoke_request (demo_row st)"
proof -
  have "wf_json (revoke_struct (JStr alice) (JStr demo_file) (JInt 995))" by (simp add: wf_revoke_struct)
  then have "signed_by plain_crypto (JObj (demo_cert alice 65))
      (demo_sig 65 (revoke_struct (JStr alice) (JStr demo_file) (JInt 995)))
      (revoke_struct (JStr alice) (JStr demo_file) (JInt 995))"
    by (rule demo_signed) simp
  moreover have "verify_certificate (lib demo_world) (t_cert demo_world) (peer_cert (demo_session alice 65))
      (ca_pubkey demo_world) (Some (JStr alice)) = Inr True"
    by (rule demo_cert_valid) simp
  moreover have "parse_signed (signed_payload demo_revoke_request) = Inr demo_revoke_request"
    by (rule signed_payload_parses) (simp_all add: demo_revoke_request_def)
  ultimately show ?thesis
    by (simp add: revoke_authorised_def demo_envelope_def demo_revoke_request_def demo_session_def demo_row_def
        demo_world_def)
qed

end
