(* ===== verification/Agreement.thy ===== *)
theory Agreement
  imports Serve
begin

text \<open>
  The two sides of the handshake against each other: when each reads what the other sends
  over a faultless connection, both complete, with the same keys and the same transcript,
  each knowing the other's certified name.
\<close>

section \<open>A message on the wire is received as it was made\<close>

definition stamp_ok :: "stamp \<Rightarrow> bool" where
  "stamp_ok st \<longleftrightarrow> length (st_nonce st) = 16 \<and> wf_int (st_time st) \<and> wf_str (st_uuid st)"

lemma recv_wire:
  assumes "clean s" "stream s = bs @ rest" "wire st t p = Inr bs" "stamp_ok st" "wf_json (JObj p)"
  shows "\<exists>e s'. recv_envelope s = Inr (e, s') \<and> e_type e = t \<and> e_payload e = p
    \<and> clean s' \<and> stream s' = rest"
proof -
  obtain d where d: "make_envelope st t p = Inr d" "pack_message (JObj d) = Inr bs"
    using assms(3) by (auto simp: wire_def rbind_Inr_iff)
  have "wf_json (JObj d)"
    using make_envelope_wf [OF d(1)] assms(4,5) by (simp add: stamp_ok_def)
  then obtain s' where s': "recv_message s = Inr (d, s')" "clean s'" "stream s' = rest"
    using recv_packed [OF assms(1,2) d(2)] by blast
  moreover have "length (st_nonce st) = 16" using assms(4) by (simp add: stamp_ok_def)
  ultimately show ?thesis
    using validate_made [OF d(1)] by (simp add: recv_envelope_def)
qed

section \<open>The exchange\<close>

text \<open>The payloads of the five messages.\<close>

definition hello_payload :: "party \<Rightarrow> jdict" where
  "hello_payload h = [(lit ''cert'', JObj (own_cert h)), (lit ''nonce'', JStr (b64encode (own_nonce h)))]"

definition key_payload :: "bytes \<Rightarrow> jdict" where
  "key_payload ct = [(lit ''pre_master_ct'', JStr (b64encode ct))]"

definition sig_payload :: "bytes \<Rightarrow> jdict" where
  "sig_payload sig = [(lit ''signature'', JStr (b64encode sig))]"

text \<open>
  Two honest parties: one library and one CA key, each with a certificate that the other
  accepts and the private key that belongs to it, random values of the right lengths and
  no send faults.
\<close>

definition party_ok :: "party \<Rightarrow> nat \<Rightarrow> bytes \<Rightarrow> bool" where
  "party_ok h k pem \<longleftrightarrow>
     cert_pem (own_cert h) = Inr pem \<and> load_pem_public_key (hs_lib h) pem = RsaKey k
     \<and> load_pem_private_key (hs_lib h) (own_priv h) (own_password h) = RsaKey k
     \<and> length (own_nonce h) = 16 \<and> length (pre_master_rand h) = 32
     \<and> wf_json (JObj (own_cert h)) \<and> (\<forall>i. send_fault h i = None)"

definition accepts_cert :: "party \<Rightarrow> json option \<Rightarrow> party \<Rightarrow> bool" where
  "accepts_cert h expected peer \<longleftrightarrow>
     verify_certificate (hs_lib h) (hs_now h) (JObj (own_cert peer)) (hs_ca h) expected = Inr True"

definition transcript_of :: "party \<Rightarrow> party \<Rightarrow> bytes \<Rightarrow> bytes" where
  "transcript_of c s ct = sha256 (own_nonce c @ own_nonce s @ ct)"

definition okm_of :: "party \<Rightarrow> party \<Rightarrow> bytes" where
  "okm_of c s = hkdf_sha256 (hs_lib s) (pre_master_rand c) (own_nonce c @ own_nonce s) HKDF_INFO 64"

lemma wf_payload: "wf_json (JObj (own_cert h)) \<Longrightarrow> wf_json (JObj (hello_payload h))"
  "wf_json (JObj (key_payload b))" "wf_json (JObj (sig_payload b))"
proof -
  have "wf_str (b64encode b)" for b
    using b64encode_ascii by (intro wf_str_ascii) (auto simp: list_all_set)
  then show "wf_json (JObj (own_cert h)) \<Longrightarrow> wf_json (JObj (hello_payload h))"
    "wf_json (JObj (key_payload b))" "wf_json (JObj (sig_payload b))"
    by (simp_all add: hello_payload_def key_payload_def sig_payload_def)
qed

lemma b64_item_payload:
  "b64_item (hello_payload h) (lit ''nonce'') = Inr (own_nonce h)"
  "b64_item (key_payload b) (lit ''pre_master_ct'') = Inr b"
  "b64_item (sig_payload b) (lit ''signature'') = Inr b"
  by (simp_all add: b64_item_def hello_payload_def key_payload_def sig_payload_def b64_field_def)

text \<open>The server's run: it reads HELLO, KEY_EXCHANGE and AUTH_RESPONSE of the client.\<close>

lemma server_completes:
  assumes laws: "pss_correct C" "oaep_correct C" and lib: "hs_lib h = C" "hs_lib c = C"
    and ok: "party_ok c kc pemc" "party_ok h ks pems" and acc: "accepts_cert h None c"
    and ct: "oaep_encrypt C ks (oaep_seed c) (pre_master_rand c) = Some ct" "ct \<noteq> []"
    and sig: "pss_sign C kc (sign_salt c) (transcript_of c h ct) = Some sigc"
      "pss_sign C ks (sign_salt h) (transcript_of c h ct) = Some sigs"
    and st: "stamp_ok st1" "stamp_ok st2" "stamp_ok st3"
    and w: "wire st1 (lit ''HELLO'') (hello_payload c) = Inr b1"
      "wire st2 (lit ''KEY_EXCHANGE'') (key_payload ct) = Inr b2"
      "wire st3 (lit ''AUTH_RESPONSE'') (sig_payload sigc) = Inr b3"
    and s: "clean sock" "stream sock = b1 @ b2 @ b3 @ rest"
  shows "\<exists>sock'. snd (perform_server_handshake h sock) =
    Inr (session_of (jget (own_cert c) (lit ''subject'')) (JObj (own_cert c)) (okm_of c h)
      (transcript_of c h ct), sock') \<and> clean sock' \<and> stream sock' = rest"
proof -
  note pc = ok(1) [unfolded party_ok_def] and ph = ok(2) [unfolded party_ok_def]
  obtain e1 s1 where m1: "recv_envelope sock = Inr (e1, s1)" "e_type e1 = lit ''HELLO''"
      "e_payload e1 = hello_payload c" "clean s1" "stream s1 = b2 @ b3 @ rest"
    using recv_wire [OF s(1) s(2) w(1) st(1) wf_payload(1)] pc by blast
  obtain e2 s2 where m2: "recv_envelope s1 = Inr (e2, s2)" "e_type e2 = lit ''KEY_EXCHANGE''"
      "e_payload e2 = key_payload ct" "clean s2" "stream s2 = b3 @ rest"
    using recv_wire [OF m1(4,5) w(2) st(2) wf_payload(2)] by blast
  obtain e3 s3 where m3: "recv_envelope s2 = Inr (e3, s3)" "e_type e3 = lit ''AUTH_RESPONSE''"
      "e_payload e3 = sig_payload sigc" "clean s3" "stream s3 = rest"
    using recv_wire [OF m2(4,5) w(3) st(3) wf_payload(3)] by blast
  have "map_of (hello_payload c) (lit ''cert'') = Some (JObj (own_cert c))"
    by (simp add: hello_payload_def)
  then have h1: "snd (server_hello h sock) = Inr (own_nonce c, own_cert c, pemc, s1)"
    using m1 acc pc by (simp add: server_hello_Inr accepts_cert_def b64_item_payload NONCE_BYTES_def)
  have "rsa_oaep_decrypt C (own_priv h) (own_password h) ct = Inr (pre_master_rand c)"
    using laws(2) ct(1) ph lib
    by (auto simp: rsa_oaep_decrypt_def load_private_def rsa_key_of_def oaep_correct_def)
  then have h2: "snd (server_key_exchange h (own_nonce c) s1) =
      Inr (pre_master_rand c, transcript_of c h ct, s2)"
    using m2 pc ph ct(2) lib
    by (simp add: server_key_exchange_Inr b64_item_payload PRE_MASTER_BYTES_def
        build_transcript_hash_Inr transcript_of_def)
  have v: "rsa_verify C pemc (transcript_of c h ct) sigc = Inr True"
    using laws(1) sig(1) pc lib by (auto simp: rsa_verify_Inr_iff pss_correct_def)
  have g: "rsa_sign C (sign_salt h) (own_priv h) (own_password h) (transcript_of c h ct) = Inr sigs"
    using sig(2) ph lib by (simp add: rsa_sign_Inr_iff)
  have h3: "snd (server_auth h (own_nonce c) (own_cert c) pemc (pre_master_rand c) (transcript_of c h ct) s2) =
      Inr (session_of (jget (own_cert c) (lit ''subject'')) (JObj (own_cert c)) (okm_of c h)
        (transcript_of c h ct), s3)"
    using m3 v g ph lib by (simp add: server_auth_Inr b64_item_payload okm_of_def)
  show ?thesis
    using h1 h2 h3 m3(4,5)
    by (auto simp: perform_server_handshake_def snd_hbind_Inr)
qed

text \<open>The client's run: it reads HELLO and SESSION_OK of the server.\<close>

lemma client_completes:
  assumes laws: "pss_correct C" and lib: "hs_lib h = C" "hs_lib c = C"
    and ok: "party_ok c kc pemc" "party_ok h ks pems" and acc: "accepts_cert c expected h"
    and ct: "oaep_encrypt C ks (oaep_seed c) (pre_master_rand c) = Some ct" "ct \<noteq> []"
    and sig: "pss_sign C kc (sign_salt c) (transcript_of c h ct) = Some sigc"
      "pss_sign C ks (sign_salt h) (transcript_of c h ct) = Some sigs"
    and st: "stamp_ok st1" "stamp_ok st2"
    and w: "wire st1 (lit ''HELLO'') (hello_payload h) = Inr b1"
      "wire st2 (lit ''SESSION_OK'') (sig_payload sigs) = Inr b2"
    and s: "clean sock" "stream sock = b1 @ b2 @ rest"
  shows "\<exists>sock'. snd (perform_client_handshake c expected sock) =
    Inr (session_of (jget (own_cert h) (lit ''subject'')) (JObj (own_cert h)) (okm_of c h)
      (transcript_of c h ct), sock') \<and> clean sock' \<and> stream sock' = rest"
proof -
  note pc = ok(1) [unfolded party_ok_def] and ph = ok(2) [unfolded party_ok_def]
  obtain e1 s1 where m1: "recv_envelope sock = Inr (e1, s1)" "e_type e1 = lit ''HELLO''"
      "e_payload e1 = hello_payload h" "clean s1" "stream s1 = b2 @ rest"
    using recv_wire [OF s(1) s(2) w(1) st(1) wf_payload(1)] ph by blast
  obtain e2 s2 where m2: "recv_envelope s1 = Inr (e2, s2)" "e_type e2 = lit ''SESSION_OK''"
      "e_payload e2 = sig_payload sigs" "clean s2" "stream s2 = rest"
    using recv_wire [OF m1(4,5) w(2) st(2) wf_payload(3)] by blast
  have "map_of (hello_payload h) (lit ''cert'') = Some (JObj (own_cert h))"
    by (simp add: hello_payload_def)
  then have h1: "snd (client_hello c expected sock) = Inr (own_nonce h, own_cert h, pems, s1)"
    using m1 acc pc ph by (simp add: client_hello_Inr accepts_cert_def b64_item_payload NONCE_BYTES_def)
  have e: "rsa_oaep_encrypt C (oaep_seed c) pems (pre_master_rand c) = Inr ct"
    using ct(1) ph lib by (simp add: rsa_oaep_encrypt_def load_public_def rsa_key_of_def)
  have g: "rsa_sign C (sign_salt c) (own_priv c) (own_password c) (transcript_of c h ct) = Inr sigc"
    using sig(1) pc lib by (simp add: rsa_sign_Inr_iff)
  have h2: "snd (client_key_exchange c (own_nonce h) pems) = Inr (transcript_of c h ct)"
    using e g pc ph ct(2) lib
    by (simp add: client_key_exchange_Inr build_transcript_hash_Inr transcript_of_def)
  have v: "rsa_verify C pems (transcript_of c h ct) sigs = Inr True"
    using laws sig(2) ph lib by (auto simp: rsa_verify_Inr_iff pss_correct_def)
  have h3: "snd (client_finish c (own_nonce h) (own_cert h) pems (transcript_of c h ct) s1) =
      Inr (session_of (jget (own_cert h) (lit ''subject'')) (JObj (own_cert h)) (okm_of c h)
        (transcript_of c h ct), s2)"
    using m2 v lib by (simp add: client_finish_Inr b64_item_payload okm_of_def)
  show ?thesis
    using h1 h2 h3 m2(4,5)
    by (auto simp: perform_client_handshake_def snd_hbind_Inr)
qed

section \<open>The sends of a completed client run\<close>

lemma fst_hbind: "snd m = Inr x \<Longrightarrow> fst (hbind m f) = fst m @ fst (f x)"
  by (cases m) auto

text \<open>The pre-master leaves the client only after the server's certificate has verified.\<close>

lemma fst_lift [simp]: "fst (lift_res r) = []" "fst (ret x) = []" "fst (throw e) = []"
  by (simp_all add: lift_res_def ret_def throw_def)

lemma fst_hbind_cases: "fst (hbind m f) = fst m @ (case snd m of Inl e \<Rightarrow> [] | Inr x \<Rightarrow> fst (f x))"
  by (cases m; cases "snd m") auto

lemma fst_client_recv [simp]: "fst (client_recv s t) = []"
  by (auto simp: client_recv_def fst_hbind_cases split: sum.split)

lemma fst_b64_or_raise [simp]: "fst (b64_or_raise r) = []"
  by (auto simp: b64_or_raise_def split: sum.split)

lemma sends_client_hello: "set (sends (fst (client_hello h expected s))) \<subseteq> {(lit ''HELLO'', hello_payload h)}"
  unfolding client_hello_def Let_def hello_payload_def
  by (auto simp: fst_hbind_cases send_msg_def log_act_def split: sum.splits option.splits if_split_asm)

lemma key_exchange_needs_cert:
  assumes "was_sent (fst (perform_client_handshake h expected s)) (lit ''KEY_EXCHANGE'')"
  shows "\<exists>nonce_s cert pem s1. snd (client_hello h expected s) = Inr (nonce_s, cert, pem, s1)"
proof (cases "snd (client_hello h expected s)")
  case (Inl e)
  then have "fst (perform_client_handshake h expected s) = fst (client_hello h expected s)"
    by (simp add: perform_client_handshake_def fst_hbind_cases)
  with assms sends_client_hello [of h expected s] show ?thesis by (auto simp: was_sent_def)
next
  case (Inr x)
  then show ?thesis by (cases x) auto
qed

lemma client_key_exchange_sends:
  assumes "snd (client_key_exchange h nonce_s pem) = Inr transcript"
  shows "was_sent (fst (client_key_exchange h nonce_s pem)) (lit ''KEY_EXCHANGE'')"
proof -
  obtain ct sig where "rsa_oaep_encrypt (hs_lib h) (oaep_seed h) pem (pre_master_rand h) = Inr ct"
      "send_fault h 1 = None" "build_transcript_hash (own_nonce h) nonce_s ct = Inr transcript"
      "rsa_sign (hs_lib h) (sign_salt h) (own_priv h) (own_password h) transcript = Inr sig" "send_fault h 2 = None"
    using assms by (auto simp: client_key_exchange_Inr)
  then show ?thesis
    by (simp add: client_key_exchange_def lift_res_def ret_def send_msg_def was_sent_def)
qed

lemma was_sent_append: "was_sent (a @ b) t \<longleftrightarrow> was_sent a t \<or> was_sent b t"
  by (auto simp: was_sent_def)

lemma completed_sends_key_exchange:
  assumes "snd (perform_client_handshake h expected s) = Inr r"
  shows "was_sent (fst (perform_client_handshake h expected s)) (lit ''KEY_EXCHANGE'')"
proof -
  obtain nonce_s cert pem s1 tr where "snd (client_hello h expected s) = Inr (nonce_s, cert, pem, s1)"
      "snd (client_key_exchange h nonce_s pem) = Inr tr"
    using assms by (cases r) (auto simp: perform_client_handshake_def snd_hbind_Inr)
  with client_key_exchange_sends [OF this(2)] show ?thesis
    by (simp add: perform_client_handshake_def fst_hbind_cases was_sent_append)
qed

end
