(* ===== verification/Shell.thy ===== *)
theory Shell
  imports Prelude
begin

text \<open>
  What the command-line programs share: exceptions that keep the message they are shown
  with, and how a command ends and what it prints.
\<close>

section \<open>Exceptions with their messages\<close>

text \<open>
  \<open>Threw\<close>: an exception of the library or of a callee, with the library's message;
  \<open>Said\<close>: one the client raises with a message of its own; \<open>Asset\<close>: a
  \<open>ClientAssetError\<close>.
\<close>

datatype failure = Threw exc | Said exc pystr | Asset pystr

definition raised :: "'a res \<Rightarrow> failure + 'a" where
  "raised r = (case r of Inl e \<Rightarrow> Inl (Threw e) | Inr x \<Rightarrow> Inr x)"

lemma raised_simps [simp]: "raised (Inl e) = Inl (Threw e)" "raised (Inr x) = Inr x"
  by (simp_all add: raised_def)

lemma raised_Inr [simp]: "raised r = Inr x \<longleftrightarrow> r = Inr x"
  by (cases r) simp_all

lemma translated_Inr: "(case r of Inl e \<Rightarrow> Inl (f e) | Inr v \<Rightarrow> Inr v) = Inr x \<longleftrightarrow> r = Inr x"
  by (simp split: sum.split)

section \<open>How a command ends\<close>

datatype ended = Exit int | Crash failure

text \<open>What a command leaves: how it ended, and its lines on the two streams.\<close>

record shell =
  sh_end :: ended
  sh_out :: "pystr list"
  sh_err :: "pystr list"

definition crashed :: "failure \<Rightarrow> shell" where
  "crashed f = \<lparr>sh_end = Crash f, sh_out = [], sh_err = []\<rparr>"

text \<open>Lines printed one after the other, until one cannot be built.\<close>

fun print_lines :: "(failure + pystr) list \<Rightarrow> shell" where
  "print_lines [] = \<lparr>sh_end = Exit 0, sh_out = [], sh_err = []\<rparr>"
| "print_lines (Inl f # ls) = crashed f"
| "print_lines (Inr s # ls) = print_lines ls\<lparr>sh_out := s # sh_out (print_lines ls)\<rparr>"

end
