(* ===== verification/Client.thy ===== *)
theory Client
  imports Agreement Download Receipt Shell
begin

text \<open>
  The client's requests: \<open>client/peer.py\<close>, \<open>client/upload.py\<close>, \<open>client/download.py\<close> and
  \<open>client/revoke.py\<close>.  A request is a program over the stream of what the server sends: it
  yields its sends in program order and a result or an exception.  Sending is exact: the
  message is packed, so what is too large or has no UTF-8 form raises here.
\<close>

section \<open>Programs that end in a result or a failure\<close>

type_synonym 'a cio = "(failure, 'a) prog"

abbreviation protocol_error :: "string \<Rightarrow> failure" where
  "protocol_error m \<equiv> Said ProtocolError (lit m)"

definition call :: "'a res \<Rightarrow> 'a cio" where
  "call r = lift_res (raised r)"

definition need :: "failure \<Rightarrow> 'a option \<Rightarrow> 'a cio" where
  "need f v = lift_res (some_or f v)"

lemma call_Inr [simp]: "snd (call r) = Inr x \<longleftrightarrow> r = Inr x"
  by (simp add: call_def)

lemma need_Inr [simp]: "snd (need f v) = Inr x \<longleftrightarrow> v = Some x"
  by (simp add: need_def)

lemma need_Some [simp]: "need f (Some x) = ret x"
  by (simp add: need_def lift_res_def ret_def)

lemma call_Inr_ret [simp]: "call (Inr x) = ret x"
  by (simp add: call_def lift_res_def ret_def)

lemma hbind_ret [simp]: "hbind (ret x) f = f x"
  by (simp add: ret_def)

lemma hbind_done: "snd m = Inr y \<Longrightarrow> hbind m f = (fst m @ fst (f y), snd (f y))"
  by (cases m) simp

section \<open>The live session and what one command draws\<close>

text \<open>
  The entries of the session dictionary; \<open>None\<close> is a missing entry or one of another
  type, and \<open>l_sock\<close> says whether there is a socket.
\<close>

record live =
  l_sock :: bool
  l_username :: "pystr option"
  l_priv :: "bytes option"
  l_password :: "bytes option"
  l_ca :: "bytes option"

text \<open>
  The outside of one command: the library, the stamps of its envelopes, the faults of its
  sends, its random values and its clocks, and how the local disk behaves.
\<close>

record outside =
  o_lib :: crypto
  o_repr :: "json \<Rightarrow> pystr"
  o_stamp :: "nat \<Rightarrow> stamp"
  o_send_fault :: "nat \<Rightarrow> exc option"
  o_uuid :: nat
  o_aes_key :: bytes
  o_aes_nonce :: bytes
  o_seed :: bytes
  o_salt :: bytes
  o_time :: int
  o_cert_time :: int
  o_read_fault :: "exc option"
  o_disk :: disk

section \<open>One message out, one message in\<close>

definition client_send :: "outside \<Rightarrow> nat \<Rightarrow> pystr \<Rightarrow> jdict \<Rightarrow> unit cio" where
  "client_send o' i t p =
     (case wire (o_stamp o' i) t p of
        Inl e \<Rightarrow> throw (Threw e)
      | Inr bs \<Rightarrow>
          (case o_send_fault o' i of
             None \<Rightarrow> ([Send t p], Inr ())
           | Some e \<Rightarrow> ([Send t p], Inl (Threw e))))"

text \<open>\<open>payload.get("code", "ERROR")\<close> as \<open>str\<close> shows it.\<close>

definition error_code :: "(json \<Rightarrow> pystr) \<Rightarrow> jdict \<Rightarrow> pystr" where
  "error_code repr p =
     (case map_of p (lit ''code'') of None \<Rightarrow> lit ''ERROR'' | Some v \<Rightarrow> py_str repr v)"

text \<open>A reply that must be of one type: an \<open>ERROR\<close> raises its code.\<close>

definition client_reply :: "(json \<Rightarrow> pystr) \<Rightarrow> sock \<Rightarrow> pystr \<Rightarrow> (jdict \<times> sock) cio" where
  "client_reply repr s expected =
     hbind (call (recv_envelope s)) (\<lambda>(reply, s').
       if e_type reply = lit ''ERROR'' then
         throw (Said ProtocolError (error_code repr (e_payload reply)))
       else if e_type reply \<noteq> expected then
         throw (Said ProtocolError (lit ''expected '' @ expected @ lit '', got '' @ quoted_type (e_type reply)))
       else ret (e_payload reply, s'))"

section \<open>The recipient's certificate (\<open>peer.py\<close>)\<close>

definition fetch_peer_cert :: "outside \<Rightarrow> live \<Rightarrow> nat \<Rightarrow> pystr \<Rightarrow> sock \<Rightarrow> (jdict \<times> sock) cio" where
  "fetch_peer_cert o' l i username s =
     (if \<not> l_sock l \<or> l_ca l = None then throw (protocol_error ''live client session is required'')
      else
        hbind (client_send o' i (lit ''GET_PUBKEY'') [(lit ''username'', JStr username)]) (\<lambda>_.
        hbind (client_reply (o_repr o') s (lit ''PUBKEY_RESPONSE'')) (\<lambda>(payload, s1).
        hbind (need (protocol_error ''PUBKEY_RESPONSE missing cert'') (as_dict (jget payload (lit ''cert'')))) (\<lambda>cert.
        hbind (call (verify_certificate (o_lib o') (o_cert_time o') (JObj cert) (the (l_ca l))
                      (Some (JStr username)))) (\<lambda>ok.
          if \<not> ok then throw (Said AuthError (lit ''recipient cert verification failed''))
          else ret (cert, s1))))))"

section \<open>Uploading (\<open>upload.py\<close>)\<close>

definition DEFAULT_EXPIRATION_SECONDS :: int where
  "DEFAULT_EXPIRATION_SECONDS = 7 * 86400"

text \<open>What goes on the wire for one file.\<close>

definition upload_payload :: "pystr \<Rightarrow> pystr \<Rightarrow> bytes \<Rightarrow> bytes \<Rightarrow> bytes \<Rightarrow> bytes \<Rightarrow> int \<Rightarrow> int \<Rightarrow> jdict" where
  "upload_payload f recipient ciphertext nonce wk signature timestamp ex =
     [(lit ''file_id'', JStr f),
      (lit ''recipient'', JStr recipient),
      (lit ''ciphertext'', b64_json ciphertext),
      (lit ''nonce'', b64_json nonce),
      (lit ''wrapped_key'', b64_json wk),
      (lit ''signature'', b64_json signature),
      (lit ''timestamp'', JInt timestamp),
      (lit ''expiration'', JInt ex)]"

text \<open>The package: encrypt, wrap the key, sign the origin struct.\<close>

definition build_package ::
    "outside \<Rightarrow> bytes \<Rightarrow> bytes \<Rightarrow> pystr \<Rightarrow> pystr \<Rightarrow> jdict \<Rightarrow> bytes \<Rightarrow> int \<Rightarrow> jdict res" where
  "build_package o' priv password sender recipient recipient_cert plaintext expiration_seconds =
     (let f = uuid_str (o_uuid o'); timestamp = o_time o'; ex = timestamp + expiration_seconds in
      rbind (encrypt_file_blob (o_lib o') (o_aes_key o') (o_aes_nonce o') plaintext f sender recipient)
        (\<lambda>(nonce, ciphertext, aes_key).
      rbind (wrap_aes_key_for (o_lib o') (o_seed o') recipient_cert aes_key) (\<lambda>wk.
      rbind (sign_origin_struct (o_lib o') (o_salt o') priv password sender recipient f
               (sha256_hex ciphertext) (sha256_hex wk) timestamp ex) (\<lambda>signature.
        Inr (upload_payload f recipient ciphertext nonce wk signature timestamp ex)))))"

definition upload_file ::
    "outside \<Rightarrow> live \<Rightarrow> filesystem \<Rightarrow> pystr \<Rightarrow> pystr \<Rightarrow> int \<Rightarrow> sock \<Rightarrow> (jdict \<times> sock) cio" where
  "upload_file o' l fs recipient file_path expiration_seconds s =
     hbind (need (Said FileNotFoundError (lit ''FILE_NOT_FOUND'')) (fs (mk_path file_path))) (\<lambda>plaintext.
     if MAX_MESSAGE_BYTES < length plaintext then throw (protocol_error ''MESSAGE_TOO_LARGE'')
     else if \<not> l_sock l then throw (protocol_error ''live client session is required'')
     else
       hbind (need (protocol_error ''live client session is required'') (l_username l)) (\<lambda>sender.
       hbind (need (protocol_error ''sender private key missing from session'') (l_priv l)) (\<lambda>priv.
       hbind (need (protocol_error ''sender password missing from session'') (l_password l)) (\<lambda>password.
       hbind (fetch_peer_cert o' l 0 recipient s) (\<lambda>(cert, s1).
       hbind (call (with_fault (o_read_fault o') (Inr ()))) (\<lambda>_.
       hbind (call (build_package o' priv password sender recipient cert plaintext expiration_seconds)) (\<lambda>payload.
       hbind (client_send o' 1 (lit ''UPLOAD_REQUEST'') payload) (\<lambda>_.
         client_reply (o_repr o') s1 (lit ''UPLOAD_ACK'')))))))))"

section \<open>The inbox and revocation\<close>

primrec as_list :: "json \<Rightarrow> json list option" where
  "as_list JNull = None"
| "as_list (JBool b) = None"
| "as_list (JInt i) = None"
| "as_list (JFloat f) = None"
| "as_list (JStr s) = None"
| "as_list (JArr xs) = Some xs"
| "as_list (JObj kvs) = None"

definition list_pending :: "outside \<Rightarrow> live \<Rightarrow> sock \<Rightarrow> (jdict list \<times> sock) cio" where
  "list_pending o' l s =
     (if \<not> l_sock l then throw (protocol_error ''live client session is required'')
      else
        hbind (client_send o' 0 (lit ''LIST_PENDING'') []) (\<lambda>_.
        hbind (client_reply (o_repr o') s (lit ''PENDING_LIST'')) (\<lambda>(payload, s1).
        hbind (need (protocol_error ''PENDING_LIST files must be a list'')
                 (Option.bind (as_list (jget payload (lit ''files''))) (\<lambda>xs. those (map as_dict xs)))) (\<lambda>rows.
          ret (rows, s1)))))"

definition revoke_file :: "outside \<Rightarrow> live \<Rightarrow> pystr \<Rightarrow> sock \<Rightarrow> (jdict \<times> sock) cio" where
  "revoke_file o' l f s =
     (if f = [] then throw (protocol_error ''file_id must be a non-empty string'')
      else if \<not> l_sock l then throw (protocol_error ''live client session is required'')
      else
        hbind (need (protocol_error ''live client session is required'') (l_username l)) (\<lambda>sender.
        hbind (need (protocol_error ''sender private key missing from session'') (l_priv l)) (\<lambda>priv.
        hbind (need (protocol_error ''sender password missing from session'') (l_password l)) (\<lambda>password.
        hbind (call (sign_revoke_struct (o_lib o') (o_salt o') priv password sender f (o_time o'))) (\<lambda>signature.
        hbind (client_send o' 0 (lit ''REVOKE_REQUEST'')
                 [(lit ''file_id'', JStr f), (lit ''timestamp'', JInt (o_time o')),
                  (lit ''signature'', b64_json signature)]) (\<lambda>_.
          client_reply (o_repr o') s (lit ''REVOKE_ACK'')))))))"

section \<open>Downloading (\<open>download.py\<close>)\<close>

text \<open>\<open>hmac.compare_digest\<close> of two texts raises on anything but ASCII.\<close>

definition compare_digest :: "pystr \<Rightarrow> pystr \<Rightarrow> bool res" where
  "compare_digest a b =
     (if list_all (\<lambda>c. c < 128) a \<and> list_all (\<lambda>c. c < 128) b then Inr (a = b) else Inl TypeError)"

definition client_b64_field :: "jdict \<Rightarrow> string \<Rightarrow> failure + bytes" where
  "client_b64_field payload name =
     rbind (some_or (Said ProtocolError (lit ''missing '' @ lit name)) (as_str (jget payload (lit name)))) (\<lambda>s.
       some_or (Said ProtocolError (lit name @ lit '' is not valid base64'')) (b64decode s))"

text \<open>Only a syntax error of \<open>json.loads\<close> is translated.\<close>

definition load_sender_cert :: "jdict \<Rightarrow> failure + jdict" where
  "load_sender_cert payload =
     rbind (some_or (protocol_error ''missing sender_cert_json'') (as_str (jget payload (lit ''sender_cert_json'')))) (\<lambda>raw.
     rbind (case json_loads raw of
              Inr v \<Rightarrow> Inr v
            | Inl e \<Rightarrow> Inl (if e = JSONDecodeError then protocol_error ''sender_cert_json is not valid JSON'' else Threw e))
       (\<lambda>cert. some_or (protocol_error ''sender_cert_json must be a JSON object'') (as_dict cert)))"

text \<open>The routing fields of a response: file id, sender, timestamp and expiration.  \<open>f = None\<close>
  is the caller that passes no file id of its own.\<close>

definition response_head :: "jdict \<Rightarrow> pystr option \<Rightarrow> failure + (pystr \<times> pystr \<times> json \<times> json)" where
  "response_head payload f =
     (let bad = protocol_error ''malformed DOWNLOAD_RESPONSE'' in
      rbind (some_or bad (as_str (jget payload (lit ''file_id'')))) (\<lambda>got.
      let wanted = (case f of None \<Rightarrow> got | Some f' \<Rightarrow> f') in
      rbind (raised (compare_digest got wanted)) (\<lambda>same.
      rbind (ensure bad same) (\<lambda>_.
      rbind (some_or bad (as_str (jget payload (lit ''sender_id'')))) (\<lambda>sender.
      rbind (ensure bad (as_int (jget payload (lit ''timestamp'')) \<noteq> None)) (\<lambda>_.
      rbind (ensure bad (as_int (jget payload (lit ''expiration'')) \<noteq> None)) (\<lambda>_.
        Inr (wanted, sender, jget payload (lit ''timestamp''), jget payload (lit ''expiration'')))))))))"

record package =
  k_ciphertext :: bytes
  k_wrapped_key :: bytes
  k_nonce :: bytes
  k_aad :: bytes
  k_signature :: bytes
  k_cert :: jdict

definition response_package :: "jdict \<Rightarrow> failure + package" where
  "response_package payload =
     rbind (client_b64_field payload ''ciphertext'') (\<lambda>ct.
     rbind (client_b64_field payload ''wrapped_key'') (\<lambda>wk.
     rbind (client_b64_field payload ''aes_nonce'') (\<lambda>nonce.
     rbind (client_b64_field payload ''aes_aad'') (\<lambda>aad.
     rbind (client_b64_field payload ''sender_signature'') (\<lambda>sig.
     rbind (load_sender_cert payload) (\<lambda>cert.
       Inr \<lparr>k_ciphertext = ct, k_wrapped_key = wk, k_nonce = nonce, k_aad = aad, k_signature = sig,
            k_cert = cert\<rparr>))))))"

text \<open>The certificate, the origin signature and the AAD, in this order.\<close>

definition auth_failed :: failure where
  "auth_failed = Said AuthError (lit ''AUTH_FAILED'')"

definition check_package ::
    "outside \<Rightarrow> bytes \<Rightarrow> pystr \<Rightarrow> pystr \<Rightarrow> pystr \<Rightarrow> json \<Rightarrow> json \<Rightarrow> package \<Rightarrow> failure + unit" where
  "check_package o' ca username f sender timestamp ex k =
     rbind (raised (verify_certificate (o_lib o') (o_cert_time o') (JObj (k_cert k)) ca (Some (JStr sender)))) (\<lambda>ok.
     rbind (ensure auth_failed ok) (\<lambda>_.
     rbind (raised (verify_origin_struct (o_lib o') (JObj (k_cert k)) (k_signature k) (JStr sender) (JStr username)
                      (JStr f) (sha256_hex (k_ciphertext k)) (sha256_hex (k_wrapped_key k)) timestamp ex)) (\<lambda>good.
     rbind (ensure auth_failed good) (\<lambda>_.
     rbind (raised (file_aad f sender username)) (\<lambda>aad.
       ensure (Said CryptoError (lit ''AES-GCM AAD mismatch'')) (k_aad k = aad))))))"

definition verify_and_decrypt_download ::
    "outside \<Rightarrow> live \<Rightarrow> jdict \<Rightarrow> pystr option \<Rightarrow> failure + bytes" where
  "verify_and_decrypt_download o' l payload f =
     rbind (some_or (protocol_error ''live client session is required'') (l_username l)) (\<lambda>username.
     rbind (some_or (protocol_error ''client private key missing from session'') (l_priv l)) (\<lambda>priv.
     rbind (some_or (protocol_error ''client password missing from session'') (l_password l)) (\<lambda>password.
     rbind (some_or (protocol_error ''CA trust anchor missing from session'') (l_ca l)) (\<lambda>ca.
     rbind (response_head payload f) (\<lambda>(wanted, sender, timestamp, ex).
     rbind (response_package payload) (\<lambda>k.
     rbind (check_package o' ca username wanted sender timestamp ex k) (\<lambda>_.
     rbind (raised (unwrap_aes_key (o_lib o') priv password (k_wrapped_key k))) (\<lambda>aes_key.
       raised (decrypt_file_blob (o_lib o') aes_key (k_nonce k) (k_ciphertext k) wanted sender username)))))))))"

text \<open>Up to the write: request, response, verification, receipt, and whatever the server answers
  to the receipt.  The result is the plaintext.\<close>

definition fetch_file :: "outside \<Rightarrow> live \<Rightarrow> pystr \<Rightarrow> sock \<Rightarrow> (bytes \<times> sock) cio" where
  "fetch_file o' l f s =
     hbind (client_send o' 0 (lit ''DOWNLOAD_REQUEST'') [(lit ''file_id'', JStr f)]) (\<lambda>_.
     hbind (client_reply (o_repr o') s (lit ''DOWNLOAD_RESPONSE'')) (\<lambda>(payload, s1).
     hbind (lift_res (verify_and_decrypt_download o' l payload (Some f))) (\<lambda>plaintext.
     hbind (call (sign_struct (o_lib o') (o_salt o') (the (l_priv l)) (the (l_password l))
                    (ack_struct (JStr f) (JInt (o_time o'))))) (\<lambda>signature.
     hbind (client_send o' 1 (lit ''DOWNLOAD_ACK'')
              [(lit ''file_id'', JStr f), (lit ''timestamp'', JInt (o_time o')),
               (lit ''signature'', b64_json signature)]) (\<lambda>_.
     hbind (call (recv_envelope s1)) (\<lambda>(_, s2).
       ret (plaintext, s2)))))))"

text \<open>\<open>Path(f"client_{username}") / "downloads" / file_id\<close>, and \<open>with_name\<close>, which refuses a
  path without a name.\<close>

definition download_path :: "pystr \<Rightarrow> pystr \<Rightarrow> path" where
  "download_path username f =
     path_join (path_join (mk_path (lit ''client_'' @ username)) (lit ''downloads'')) f"

definition with_tmp_name :: "path \<Rightarrow> path res" where
  "with_tmp_name p =
     (if path_name p = [] then Inl ValueError
      else Inr (Path (root_of p) (butlast (parts_of p) @ [path_name p @ lit ''.tmp''])))"

text \<open>A failing write unlinks the temporary file again.\<close>

definition atomic_write :: "disk \<Rightarrow> filesystem \<Rightarrow> path \<Rightarrow> bytes \<Rightarrow> filesystem \<times> (failure + unit)" where
  "atomic_write dk fs path data =
     (if dk = MkdirFails then (fs, Inl (Threw OSError))
      else
        (case with_tmp_name path of
           Inl e \<Rightarrow> (fs, Inl (Threw e))
         | Inr tmp \<Rightarrow>
             if dk = DiskOk then ((fs(tmp := None))(path \<mapsto> data), Inr ())
             else (fs(tmp := None), Inl (Threw OSError))))"

definition download_file ::
    "outside \<Rightarrow> live \<Rightarrow> filesystem \<Rightarrow> pystr \<Rightarrow> sock \<Rightarrow> filesystem \<times> (path \<times> sock) cio" where
  "download_file o' l fs f s =
     (if \<not> l_sock l \<or> l_username l = None then
        (fs, throw (protocol_error ''live client session is required''))
      else
        (case fetch_file o' l f s of
           (acts, Inl e) \<Rightarrow> (fs, (acts, Inl e))
         | (acts, Inr (plaintext, s')) \<Rightarrow>
             (let out = download_path (the (l_username l)) f;
                  (fs', r) = atomic_write (o_disk o') fs out plaintext in
              (fs', (acts, rbind r (\<lambda>_. Inr (out, s')))))))"

section \<open>What was sent, and what was received\<close>

lemma fst_call [simp]: "fst (call r) = []" "fst (need e v) = []"
  by (simp_all add: call_def need_def)

lemma client_send_Inr:
  "snd (client_send o' i t p) = Inr u \<longleftrightarrow> (\<exists>bs. wire (o_stamp o' i) t p = Inr bs) \<and> o_send_fault o' i = None"
  by (auto simp: client_send_def split: sum.splits option.splits)

lemma client_send_sends:
  "sends (fst (client_send o' i t p)) = (if \<exists>bs. wire (o_stamp o' i) t p = Inr bs then [(t, p)] else [])"
  by (auto simp: client_send_def split: sum.splits option.splits)

lemma client_reply_Inr:
  "snd (client_reply repr s t) = Inr (p, s') \<longleftrightarrow>
     (\<exists>e. recv_envelope s = Inr (e, s') \<and> e_type e = t \<and> e_payload e = p \<and> t \<noteq> lit ''ERROR'')"
  by (auto simp: client_reply_def snd_hbind_Inr split: if_splits)

lemma client_reply_fst [simp]: "fst (client_reply repr s t) = []"
  by (auto simp: client_reply_def fst_hbind_cases split: sum.split)

lemma fetch_peer_cert_Inr:
  "snd (fetch_peer_cert o' l i username s) = Inr (cert, s1) \<longleftrightarrow>
     (\<exists>ca bs e. l_sock l \<and> l_ca l = Some ca
        \<and> wire (o_stamp o' i) (lit ''GET_PUBKEY'') [(lit ''username'', JStr username)] = Inr bs
        \<and> o_send_fault o' i = None \<and> recv_envelope s = Inr (e, s1) \<and> e_type e = lit ''PUBKEY_RESPONSE''
        \<and> jget (e_payload e) (lit ''cert'') = JObj cert
        \<and> verify_certificate (o_lib o') (o_cert_time o') (JObj cert) ca (Some (JStr username)) = Inr True)"
  unfolding fetch_peer_cert_def
  by (auto simp: snd_hbind_Inr client_send_Inr client_reply_Inr snd_if_Inr)

lemma fetch_peer_cert_sends:
  "set (sends (fst (fetch_peer_cert o' l i username s))) \<subseteq> {(lit ''GET_PUBKEY'', [(lit ''username'', JStr username)])}"
  by (auto simp: fetch_peer_cert_def fst_hbind_cases client_send_sends split: sum.split)

text \<open>The certificate an upload encrypts to.\<close>

definition cert_for :: "outside \<Rightarrow> live \<Rightarrow> pystr \<Rightarrow> sock \<Rightarrow> jdict \<Rightarrow> sock \<Rightarrow> bool" where
  "cert_for o' l recipient s cert s1 \<longleftrightarrow>
     (\<exists>ca e. l_ca l = Some ca \<and> recv_envelope s = Inr (e, s1) \<and> jget (e_payload e) (lit ''cert'') = JObj cert
        \<and> verify_certificate (o_lib o') (o_cert_time o') (JObj cert) ca (Some (JStr recipient)) = Inr True)"

text \<open>What an upload puts on the wire is a package for the file's content, built for a
  certificate of the recipient that this client has verified.\<close>

definition packs :: "outside \<Rightarrow> live \<Rightarrow> filesystem \<Rightarrow> pystr \<Rightarrow> pystr \<Rightarrow> int \<Rightarrow> sock \<Rightarrow> jdict \<Rightarrow> bytes \<Rightarrow> bool" where
  "packs o' l fs recipient file_path secs s payload m \<longleftrightarrow>
     (\<exists>sender priv password cert s1.
        fs (mk_path file_path) = Some m \<and> length m \<le> MAX_MESSAGE_BYTES \<and> l_sock l
        \<and> l_username l = Some sender \<and> l_priv l = Some priv \<and> l_password l = Some password
        \<and> cert_for o' l recipient s cert s1
        \<and> build_package o' priv password sender recipient cert m secs = Inr payload
        \<and> (\<exists>bs. wire (o_stamp o' 1) (lit ''UPLOAD_REQUEST'') payload = Inr bs))"

lemma upload_file_sends:
  assumes "(lit ''UPLOAD_REQUEST'', payload) \<in> set (sends (fst (upload_file o' l fs recipient file_path secs s)))"
  obtains m where "packs o' l fs recipient file_path secs s payload m"
proof -
  have get: "(lit ''UPLOAD_REQUEST'', payload) \<notin> set (sends (fst (fetch_peer_cert o' l 0 recipient s)))"
    using fetch_peer_cert_sends [of o' l 0 recipient s] by auto
  show thesis
    using assms get that unfolding upload_file_def packs_def cert_for_def
    by (auto simp: fst_hbind_cases client_send_sends fetch_peer_cert_Inr split: sum.split_asm if_split_asm)
qed

section \<open>A file too large to be sent\<close>

lemma length_join_item: "x \<in> set xs \<Longrightarrow> length x \<le> length (join sep xs)"
  by (induction sep xs rule: join.induct) auto

lemma length_quote_ge: "length s + 2 \<le> length (quote a s)"
proof -
  have e: "1 \<le> length (escape_char a c)" for c
    by (auto simp: escape_char_def u_escape_def split: option.split)
  have "length s \<le> length (concat (map (escape_char a) s))"
  proof (induction s)
    case (Cons c s)
    then show ?case using add_mono [OF e [of c] Cons] by simp
  qed simp
  then show ?thesis by (simp add: quote_def)
qed

text \<open>A printed object is at least as long as each of its values.\<close>

lemma length_dumps_member:
  assumes "(k, v) \<in> set kvs"
  shows "length (dumps opts v) \<le> length (dumps opts (JObj kvs))"
proof -
  let ?item = "quote (ascii_only opts) k @ key_sep opts @ dumps opts v"
  have "?item \<in> set (map (\<lambda>(k, d). quote (ascii_only opts) k @ key_sep opts @ d)
      (map (map_prod id (dumps opts)) kvs))"
    using assms by force
  from length_join_item [OF this, of "item_sep opts"] show ?thesis by simp
qed

lemma length_utf8_ge: "utf8_chars s = Some bs \<Longrightarrow> length s \<le> length bs"
proof (induction s arbitrary: bs)
  case (Cons c s)
  obtain b r where br: "utf8_char c = Some b" "utf8_chars s = Some r" "bs = b @ r"
    using Cons.prems by (auto split: option.split_asm)
  have "1 \<le> length b" using br(1) by (auto simp: utf8_char_def split: if_split_asm)
  with Cons.IH [OF br(2)] br(3) show ?case by simp
qed simp

lemma wire_field_fits:
  assumes "wire st t p = Inr bs" "(k, JStr v) \<in> set p"
  shows "length v + 2 \<le> MAX_MESSAGE_BYTES"
proof -
  obtain d where d: "make_envelope st t p = Inr d" "pack_message (JObj d) = Inr bs"
    using assms(1) by (auto simp: wire_def rbind_Inr_iff)
  obtain body where b: "utf8_encode (dumps compact_opts (JObj d)) = Inr body" "length body \<le> MAX_MESSAGE_BYTES"
    using d(2) by (rule pack_message_Inr) blast
  have "(lit ''payload'', JObj p) \<in> set d" using d(1) by (auto simp: make_envelope_def split: if_splits)
  from length_dumps_member [OF this] length_dumps_member [OF assms(2)]
  have "length (dumps compact_opts (JStr v)) \<le> length (dumps compact_opts (JObj d))"
    by (rule order_trans [rotated])
  also have "\<dots> \<le> length body" using b(1) unfolding utf8_encode_def by (intro length_utf8_ge) simp
  finally show ?thesis using b(2) length_quote_ge [of v "ascii_only compact_opts"] by simp
qed

text \<open>The ciphertext of AES-GCM is the plaintext's length and a tag.\<close>

definition gcm_not_shorter :: "crypto \<Rightarrow> bool" where
  "gcm_not_shorter C \<longleftrightarrow> (\<forall>k n m a. length m \<le> length (gcm_encrypt C k n m a))"

text \<open>The parts of a package.\<close>

lemma build_package_Inr:
  assumes "build_package o' priv password sender recipient cert m secs = Inr payload"
  obtains aad ct wk sig where "file_aad (uuid_str (o_uuid o')) sender recipient = Inr aad"
    "length (o_aes_key o') = AES_KEY_BYTES" "ct = gcm_encrypt (o_lib o') (o_aes_key o') (o_aes_nonce o') m aad"
    "wrap_aes_key_for (o_lib o') (o_seed o') cert (o_aes_key o') = Inr wk"
    "sign_origin_struct (o_lib o') (o_salt o') priv password sender recipient (uuid_str (o_uuid o'))
       (sha256_hex ct) (sha256_hex wk) (o_time o') (o_time o' + secs) = Inr sig"
    "payload = upload_payload (uuid_str (o_uuid o')) recipient ct (o_aes_nonce o') wk sig (o_time o') (o_time o' + secs)"
  using assms
  by (auto simp: build_package_def encrypt_file_blob_def aes_gcm_encrypt_def rbind_Inr_iff Let_def split: if_splits)

lemma packs_fits:
  assumes "packs o' l fs recipient file_path secs s payload m" "gcm_not_shorter (o_lib o')"
  shows "4 * length m < 3 * MAX_MESSAGE_BYTES"
proof -
  obtain sender priv password cert bs where p:
      "build_package o' priv password sender recipient cert m secs = Inr payload"
      "wire (o_stamp o' 1) (lit ''UPLOAD_REQUEST'') payload = Inr bs"
    using assms(1) by (auto simp: packs_def)
  obtain ct aad where ct: "ct = gcm_encrypt (o_lib o') (o_aes_key o') (o_aes_nonce o') m aad"
      "(lit ''ciphertext'', JStr (b64encode ct)) \<in> set payload"
    using p(1) by (rule build_package_Inr) (simp add: upload_payload_def b64_json_def)
  then have c: "length m \<le> length ct" "(lit ''ciphertext'', JStr (b64encode ct)) \<in> set payload"
    using assms(2) by (simp_all add: gcm_not_shorter_def)
  have "length (b64encode ct) + 2 \<le> MAX_MESSAGE_BYTES" using p(2) c(2) by (rule wire_field_fits)
  then show ?thesis using c(1) by (simp add: length_b64encode)
qed

section \<open>What a verified download is\<close>

text \<open>
  The response \<open>payload\<close> opens to \<open>m\<close> for the file \<open>f\<close>: its certificate verifies for the
  sender it names, that sender's key has signed exactly this file for this user, the AAD is
  the one of this routing, and \<open>m\<close> is what the unwrapped key decrypts.
\<close>

definition opens_to :: "outside \<Rightarrow> live \<Rightarrow> jdict \<Rightarrow> pystr \<Rightarrow> bytes \<Rightarrow> bool" where
  "opens_to o' l payload f m \<longleftrightarrow>
     (\<exists>username priv password ca sender k aes_key.
        l_username l = Some username \<and> l_priv l = Some priv \<and> l_password l = Some password \<and> l_ca l = Some ca
        \<and> jget payload (lit ''file_id'') = JStr f \<and> jget payload (lit ''sender_id'') = JStr sender
        \<and> response_package payload = Inr k
        \<and> verify_certificate (o_lib o') (o_cert_time o') (JObj (k_cert k)) ca (Some (JStr sender)) = Inr True
        \<and> signed_by (o_lib o') (JObj (k_cert k)) (k_signature k)
            (origin_struct (JStr sender) (JStr username) (JStr f) (sha256_hex (k_ciphertext k))
              (sha256_hex (k_wrapped_key k)) (jget payload (lit ''timestamp'')) (jget payload (lit ''expiration'')))
        \<and> file_aad f sender username = Inr (k_aad k)
        \<and> unwrap_aes_key (o_lib o') priv password (k_wrapped_key k) = Inr aes_key
        \<and> decrypt_file_blob (o_lib o') aes_key (k_nonce k) (k_ciphertext k) f sender username = Inr m)"

lemma compare_digest_Inr:
  "compare_digest a b = Inr r \<longleftrightarrow> list_all (\<lambda>c. c < 128) a \<and> list_all (\<lambda>c. c < 128) b \<and> r = (a = b)"
  by (auto simp: compare_digest_def)

lemma response_head_Inr:
  "response_head payload (Some f) = Inr (wanted, sender, ts, ex) \<longleftrightarrow>
     wanted = f \<and> list_all (\<lambda>c. c < 128) f \<and> jget payload (lit ''file_id'') = JStr f
     \<and> jget payload (lit ''sender_id'') = JStr sender
     \<and> ts = jget payload (lit ''timestamp'') \<and> ex = jget payload (lit ''expiration'')
     \<and> as_int ts \<noteq> None \<and> as_int ex \<noteq> None"
  by (auto simp: response_head_def rbind_Inr_iff Let_def compare_digest_Inr simp del: not_None_eq)

lemma check_package_Inr:
  "check_package o' ca username f sender ts ex k = Inr u \<longleftrightarrow>
     verify_certificate (o_lib o') (o_cert_time o') (JObj (k_cert k)) ca (Some (JStr sender)) = Inr True
     \<and> signed_by (o_lib o') (JObj (k_cert k)) (k_signature k)
         (origin_struct (JStr sender) (JStr username) (JStr f) (sha256_hex (k_ciphertext k))
           (sha256_hex (k_wrapped_key k)) ts ex)
     \<and> file_aad f sender username = Inr (k_aad k)"
  by (simp add: check_package_def rbind_check_Inr verify_origin_struct_True) (auto simp: rbind_Inr_iff)

lemma verify_and_decrypt_iff:
  "verify_and_decrypt_download o' l payload (Some f) = Inr m \<longleftrightarrow>
     opens_to o' l payload f m \<and> list_all (\<lambda>c. c < 128) f
     \<and> as_int (jget payload (lit ''timestamp'')) \<noteq> None \<and> as_int (jget payload (lit ''expiration'')) \<noteq> None"
  unfolding verify_and_decrypt_download_def opens_to_def
  by (auto simp: rbind_Inr_iff response_head_Inr check_package_Inr simp del: not_None_eq)

text \<open>What the program up to the write has done when it returns a plaintext.\<close>

lemma fetch_file_Inr:
  "snd (fetch_file o' l f s) = Inr (m, s2) \<longleftrightarrow>
     (\<exists>e s1 e2 sig. snd (client_send o' 0 (lit ''DOWNLOAD_REQUEST'') [(lit ''file_id'', JStr f)]) = Inr ()
        \<and> recv_envelope s = Inr (e, s1) \<and> e_type e = lit ''DOWNLOAD_RESPONSE''
        \<and> verify_and_decrypt_download o' l (e_payload e) (Some f) = Inr m
        \<and> sign_struct (o_lib o') (o_salt o') (the (l_priv l)) (the (l_password l))
            (ack_struct (JStr f) (JInt (o_time o'))) = Inr sig
        \<and> snd (client_send o' 1 (lit ''DOWNLOAD_ACK'') [(lit ''file_id'', JStr f),
            (lit ''timestamp'', JInt (o_time o')), (lit ''signature'', b64_json sig)]) = Inr ()
        \<and> recv_envelope s1 = Inr (e2, s2))"
  unfolding fetch_file_def by (auto simp: snd_hbind_Inr client_reply_Inr)

text \<open>Writing touches the file and its temporary neighbour, and the file only on success.\<close>

lemma atomic_write_cases:
  assumes "atomic_write dk fs p data = (fs', r)"
  obtains (failed) e where "r = Inl e" "fs' = fs \<or> (\<exists>tmp. with_tmp_name p = Inr tmp \<and> fs' = fs(tmp := None))"
  | (written) tmp where "r = Inr ()" "with_tmp_name p = Inr tmp" "fs' = (fs(tmp := None))(p \<mapsto> data)"
  using assms by (auto simp: atomic_write_def split: if_split_asm sum.split_asm)

lemma with_tmp_name_neq: "with_tmp_name p = Inr tmp \<Longrightarrow> tmp \<noteq> p"
proof
  assume t: "with_tmp_name p = Inr tmp" and "tmp = p"
  then have "last (parts_of p) = last (parts_of p) @ lit ''.tmp'' \<and> parts_of p \<noteq> []"
    by (cases p) (auto simp: with_tmp_name_def path_name_def split: if_splits dest: arg_cong [where f = last])
  then show False by simp
qed

text \<open>Nothing but the downloaded file appears on the disk, and it only with a verified plaintext.\<close>

lemma download_file_cases:
  assumes "download_file o' l fs f s = (fs', acts, r)"
  obtains (failed) e where "r = Inl e"
      "fs' = fs \<or> (\<exists>tmp. with_tmp_name (download_path (the (l_username l)) f) = Inr tmp \<and> fs' = fs(tmp := None))"
  | (saved) m s' tmp where "r = Inr (download_path (the (l_username l)) f, s')" "fetch_file o' l f s = (acts, Inr (m, s'))"
      "with_tmp_name (download_path (the (l_username l)) f) = Inr tmp"
      "fs' = (fs(tmp := None))(download_path (the (l_username l)) f \<mapsto> m)" "l_username l \<noteq> None"
proof -
  consider (no) "\<not> l_sock l \<or> l_username l = None"
    | (fail) a e where "l_sock l" "l_username l \<noteq> None" "fetch_file o' l f s = (a, Inl e)"
    | (got) a m s' where "l_sock l" "l_username l \<noteq> None" "fetch_file o' l f s = (a, Inr (m, s'))"
    by (metis prod.exhaust sum.exhaust)
  then show thesis
  proof cases
    case no
    with assms failed show thesis by (auto simp: download_file_def throw_def)
  next
    case fail
    with assms failed show thesis by (auto simp: download_file_def)
  next
    case got
    obtain fs1 q where w: "atomic_write (o_disk o') fs (download_path (the (l_username l)) f) m = (fs1, q)"
      by fastforce
    have r: "fs' = fs1" "acts = a" "r = rbind q (\<lambda>_. Inr (download_path (the (l_username l)) f, s'))"
      using assms got w by (simp_all add: download_file_def Let_def)
    from w show thesis
    proof (cases rule: atomic_write_cases)
      case failed
      with r that(1) show thesis by simp
    next
      case written
      with r that(2) got show thesis by simp
    qed
  qed
qed

end
