(* ===== verification/Cert_Sorted.thy ===== *)
theory Cert_Sorted
  imports Origin
begin

text \<open>
  A certificate and its copy with sorted keys.  The server stores the sender's certificate,
  and the certificate authority writes its files, printed with sorted keys; who reads them
  verifies what it parses from that text.
\<close>

definition sorted_obj :: "jdict \<Rightarrow> jdict" where
  "sorted_obj d = sort_key fst (map (map_prod id sort_keys) d)"

lemma sort_keys_JObj: "sort_keys (JObj d) = JObj (sorted_obj d)"
  by (simp add: sorted_obj_def)

lemma map_of_sorted_obj:
  assumes "distinct (map fst d)" shows "map_of (sorted_obj d) k = map_option sort_keys (map_of d k)"
  using obj_at_sort_keys [OF assms, of k] by (simp add: obj_at_def sort_keys_JObj del: sort_keys.simps)

lemma sort_keys_leaf [simp]: "sort_keys v = JStr s \<longleftrightarrow> v = JStr s" "sort_keys v = JInt i \<longleftrightarrow> v = JInt i"
  by (cases v; simp)+

lemma sort_key_idem: "sort_key f (sort_key f xs) = sort_key f xs"
  by (intro sort_key_id_if_sorted) simp

lemma sort_keys_idem: "sort_keys (sort_keys v) = sort_keys v"
proof (induction v)
  case (JArr xs)
  then show ?case by simp
next
  case (JObj kvs)
  let ?g = "map_prod id sort_keys :: pystr \<times> json \<Rightarrow> pystr \<times> json"
  have "map ?g (sort_key fst (map ?g kvs)) = sort_key fst (map ?g kvs)"
    using JObj.IH by (intro map_idI) (auto simp: snds.simps)
  then show ?case by (simp only: sort_keys.simps sort_key_idem)
qed simp_all

lemma strip_sorted_obj: "strip_signature (sorted_obj d) = sorted_obj (strip_signature d)"
proof -
  have "filter (\<lambda>(k, v). k \<noteq> lit ''signature'') (map (map_prod id sort_keys) d) =
      map (map_prod id sort_keys) (filter (\<lambda>(k, v). k \<noteq> lit ''signature'') d)"
    by (induction d) auto
  then show ?thesis by (simp add: strip_signature_def sorted_obj_def filter_sort)
qed

lemma canonical_sorted: "canonical_json (JObj (sorted_obj d)) = canonical_json (JObj d)"
  using sort_keys_idem [of "JObj d"] by (simp only: canonical_json_def sort_keys_JObj)

lemma json_le_sorted: "json_le_int (sort_keys v) n = json_le_int v n" "int_le_json n (sort_keys v) = int_le_json n v"
  by (cases v; simp)+

lemma jget_sorted_obj: "distinct (map fst d) \<Longrightarrow> jget (sorted_obj d) k = sort_keys (jget d k)"
  by (simp add: jget_def map_of_sorted_obj split: option.split)

lemma b64_field_sorted [simp]: "b64_field (sort_keys v) = b64_field v"
  by (cases v) (simp_all add: b64_field_def)

lemma verify_sorted:
  assumes d: "distinct (map fst cert)"
    and v: "verify_certificate C now (JObj cert) ca (Some (JStr s)) = Inr True"
  shows "verify_certificate C now (JObj (sorted_obj cert)) ca (Some (JStr s)) = Inr True"
  using v unfolding verify_certificate_iff ca_signed_def in_validity_True
  by (simp add: jget_sorted_obj [OF d] map_of_sorted_obj [OF d] strip_sorted_obj canonical_sorted json_le_sorted)

lemma cert_pem_sorted: "distinct (map fst cert) \<Longrightarrow> cert_pem (sorted_obj cert) = Inr pem \<longleftrightarrow> cert_pem cert = Inr pem"
  by (simp add: cert_pem_Inr_iff map_of_sorted_obj)

text \<open>A certificate and a private key that belong together.\<close>

definition key_pair :: "crypto \<Rightarrow> jdict \<Rightarrow> bytes \<Rightarrow> bytes \<Rightarrow> bool" where
  "key_pair C cert priv password \<longleftrightarrow>
     (\<exists>pem k. cert_pem cert = Inr pem \<and> load_pem_public_key C pem = RsaKey k
        \<and> load_pem_private_key C priv password = RsaKey k)"

lemma key_pair_sorted: "distinct (map fst cert) \<Longrightarrow> key_pair C cert priv pw \<Longrightarrow> key_pair C (sorted_obj cert) priv pw"
  by (simp add: key_pair_def cert_pem_sorted)

end
