(* ===== verification/Delivery.thy ===== *)
theory Delivery
  imports Client Lifecycle Cert_Sorted
begin

text \<open>
  Client and server together: what one client uploads and the server stores and serves,
  the other client opens to the same plaintext.
\<close>

section \<open>Signatures by the owner of a certificate\<close>

lemma signed_by_signer:
  assumes "pss_correct C" "key_pair C cert priv pw" "sign_struct C salt priv pw st = Inr sig"
  shows "signed_by C (JObj cert) sig st"
  using assms
  by (auto simp: key_pair_def sign_struct_def signed_by_def rbind_Inr_iff rsa_sign_Inr_iff pss_correct_def cert_value_pem_def)

section \<open>What the server stores of a package\<close>

lemma upload_payload_fields:
  "jget (upload_payload f r ct n wk sig ts ex) (lit ''file_id'') = JStr f"
  "map_of (upload_payload f r ct n wk sig ts ex) (lit ''file_id'') = Some (JStr f)"
  "map_of (upload_payload f r ct n wk sig ts ex) (lit ''recipient'') = Some (JStr r)"
  "map_of (upload_payload f r ct n wk sig ts ex) (lit ''timestamp'') = Some (JInt ts)"
  "map_of (upload_payload f r ct n wk sig ts ex) (lit ''expiration'') = Some (JInt ex)"
  "jget (upload_payload f r ct n wk sig ts ex) (lit ''ciphertext'') = b64_json ct"
  "jget (upload_payload f r ct n wk sig ts ex) (lit ''nonce'') = b64_json n"
  "jget (upload_payload f r ct n wk sig ts ex) (lit ''wrapped_key'') = b64_json wk"
  "jget (upload_payload f r ct n wk sig ts ex) (lit ''signature'') = b64_json sig"
  by (simp_all add: upload_payload_def jget_def)

lemma parse_upload_payload:
  assumes "parse_upload (upload_payload f r ct n wk sig ts ex) = Inr u"
  shows "u = \<lparr>u_file_id = f, u_recipient = r, u_timestamp = JInt ts, u_expiration = JInt ex,
    u_ciphertext = ct, u_aes_nonce = n, u_wrapped_key = wk, u_signature = sig\<rparr>"
  using assms
  by (auto simp: parse_upload_def rbind_Inr_iff upload_payload_fields decode_b64_field_Inr b64_json_def
      dest: check_file_id_JStr)

text \<open>The row and the response that come of it.\<close>

definition package_row :: "json \<Rightarrow> pystr \<Rightarrow> pystr \<Rightarrow> pystr \<Rightarrow> bytes \<Rightarrow> bytes \<Rightarrow> bytes \<Rightarrow> bytes \<Rightarrow> bytes \<Rightarrow> int \<Rightarrow> int \<Rightarrow> frow" where
  "package_row cert sender r f ct n wk sig aad ts ex =
     \<lparr>file_id = f, sender_id = sender, recipient_id = r, upload_timestamp = ts, expiration = ex,
      status = lit ''pending'', ciphertext_path = f @ lit ''.bin'', ciphertext_sha256 = sha256_hex ct,
      wrapped_key = wk, aes_nonce = n, aes_aad = aad, sender_signature = sig,
      sender_cert_json = dumps default_opts (sort_keys cert)\<rparr>"

lemma uploaded_package_row:
  "uploaded_row \<lparr>u_file_id = f, u_recipient = r, u_timestamp = JInt ts, u_expiration = JInt ex,
     u_ciphertext = ct, u_aes_nonce = n, u_wrapped_key = wk, u_signature = sig\<rparr> sess sender aad =
   package_row (peer_cert sess) sender r f ct n wk sig aad ts ex"
  by (simp add: uploaded_row_def row_of_def upload_values_def package_row_def)

lemma response_package_row:
  assumes "wf_json (JObj cert)"
  shows "response_package (download_payload (JStr f) (package_row (JObj cert) sender r f ct n wk sig aad ts ex) ct) =
    Inr \<lparr>k_ciphertext = ct, k_wrapped_key = wk, k_nonce = n, k_aad = aad, k_signature = sig, k_cert = sorted_obj cert\<rparr>"
proof -
  have "json_loads (dumps default_opts (sort_keys (JObj cert))) = Inr (JObj (sorted_obj cert))"
    using json_loads_dumps [OF _ wf_sort_keys [OF assms], of default_opts] by (simp only: ok_opts_simps sort_keys_JObj)
  then show ?thesis
    by (simp add: response_package_def client_b64_field_def load_sender_cert_def download_payload_def package_row_def
        jget_def b64_json_def del: sort_keys.simps dumps.simps)
qed

text \<open>The response to the recipient opens to the plaintext of the package.\<close>

lemma opens_to_package:
  assumes laws: "pss_correct C" "oaep_correct C" "gcm_correct C" and lib: "o_lib a = C" "o_lib b = C"
    and nonce: "length (o_aes_nonce a) = AES_NONCE_BYTES"
    and pk: "build_package a priv pw sender r cert_r m secs = Inr payload"
    and keys: "key_pair C cert priv pw" "key_pair C cert_r priv_r pw_r"
    and b: "l_username lb = Some r" "l_priv lb = Some priv_r" "l_password lb = Some pw_r" "l_ca lb = Some ca"
    and v: "verify_certificate C (o_cert_time b) (JObj cert) ca (Some (JStr sender)) = Inr True"
    and wf: "wf_json (JObj cert)"
  obtains ct wk sig aad where
    "payload = upload_payload (uuid_str (o_uuid a)) r ct (o_aes_nonce a) wk sig (o_time a) (o_time a + secs)"
    "file_aad (uuid_str (o_uuid a)) sender r = Inr aad"
    "opens_to b lb (download_payload (JStr (uuid_str (o_uuid a)))
       (package_row (JObj cert) sender r (uuid_str (o_uuid a)) ct (o_aes_nonce a) wk sig aad (o_time a) (o_time a + secs)) ct)
       (uuid_str (o_uuid a)) m"
proof -
  let ?f = "uuid_str (o_uuid a)"
  obtain aad ct wk sig where p: "file_aad ?f sender r = Inr aad" "length (o_aes_key a) = AES_KEY_BYTES"
      "ct = gcm_encrypt C (o_aes_key a) (o_aes_nonce a) m aad"
      "wrap_aes_key_for C (o_seed a) cert_r (o_aes_key a) = Inr wk"
      "sign_origin_struct C (o_salt a) priv pw sender r ?f (sha256_hex ct) (sha256_hex wk) (o_time a) (o_time a + secs) = Inr sig"
      "payload = upload_payload ?f r ct (o_aes_nonce a) wk sig (o_time a) (o_time a + secs)"
    using pk unfolding lib(1) [symmetric] by (rule build_package_Inr)
  have d: "distinct (map fst cert)" using wf by simp
  have sg: "signed_by C (JObj (sorted_obj cert)) sig (origin_struct (JStr sender) (JStr r) (JStr ?f) (sha256_hex ct)
      (sha256_hex wk) (JInt (o_time a)) (JInt (o_time a + secs)))"
    using signed_by_signer [OF laws(1) key_pair_sorted [OF d keys(1)]] p(5) by (simp add: sign_origin_struct_def)
  have un: "unwrap_aes_key C priv_r pw_r wk = Inr (o_aes_key a)"
    using keys(2) unwrap_wrapped [OF laws(2) p(4)] by (auto simp: key_pair_def)
  have de: "decrypt_file_blob C (o_aes_key a) (o_aes_nonce a) ct ?f sender r = Inr m"
    using decrypt_encrypted_blob [OF laws(3) nonce, of "o_aes_key a" m ?f sender r] p(1-3)
    by (simp add: encrypt_file_blob_def aes_gcm_encrypt_def)
  let ?row = "package_row (JObj cert) sender r ?f ct (o_aes_nonce a) wk sig aad (o_time a) (o_time a + secs)"
  let ?q = "download_payload (JStr ?f) ?row ct"
  have j: "jget ?q (lit ''file_id'') = JStr ?f" "jget ?q (lit ''sender_id'') = JStr sender"
      "jget ?q (lit ''timestamp'') = JInt (o_time a)" "jget ?q (lit ''expiration'') = JInt (o_time a + secs)"
    by (simp_all add: download_payload_def jget_def package_row_def)
  have "opens_to b lb ?q ?f m"
    unfolding opens_to_def lib(2)
    using b verify_sorted [OF d v] sg p(1) un de
    by (intro exI [of _ r] exI [of _ priv_r] exI [of _ pw_r] exI [of _ ca] exI [of _ sender]
        exI [of _ "\<lparr>k_ciphertext = ct, k_wrapped_key = wk, k_nonce = o_aes_nonce a, k_aad = aad,
          k_signature = sig, k_cert = sorted_obj cert\<rparr>"] exI [of _ "o_aes_key a"])
      (simp add: j response_package_row [OF wf])
  with p(1,6) that show thesis by blast
qed

section \<open>A package the server accepts\<close>

lemma parse_upload_package:
  assumes "check_file_id (JStr f) = Inr f" "valid_username (JStr r)"
  shows "parse_upload (upload_payload f r ct n wk sig ts ex) = Inr \<lparr>u_file_id = f, u_recipient = r,
    u_timestamp = JInt ts, u_expiration = JInt ex, u_ciphertext = ct, u_aes_nonce = n, u_wrapped_key = wk,
    u_signature = sig\<rparr>"
  using assms
  by (simp add: parse_upload_def jitem_def upload_payload_fields decode_b64_field_def check_username_def b64_json_def)

text \<open>A session of the sender, at the server of a recipient it knows.\<close>

definition sender_known :: "env \<Rightarrow> server \<Rightarrow> session \<Rightarrow> pystr \<Rightarrow> jdict \<Rightarrow> pystr \<Rightarrow> bool" where
  "sender_known w s sess sender cert r \<longleftrightarrow>
     peer_subject sess = JStr sender \<and> peer_cert sess = JObj cert
     \<and> verify_certificate (lib w) (t_cert w) (JObj cert) (ca_pubkey w) (Some (JStr sender)) = Inr True
     \<and> valid_username (JStr r) \<and> (\<exists>c. load_verified_pubkey_cert w (sfs s) (JStr r) = Inr (Some c))"

lemma package_authorised:
  assumes "build_package a priv pw sender r cert_r m secs = Inr payload"
    and "pss_correct C" "o_lib a = C" "lib w = C" "key_pair C cert priv pw" "o_uuid a < 2 ^ 128"
    and "sender_known w s sess sender cert r" "e_payload e = payload"
  obtains u where "upload_authorised w s sess e u" "u_file_id u = uuid_str (o_uuid a)" "u_timestamp u = JInt (o_time a)"
    "u_expiration u = JInt (o_time a + secs)"
proof -
  let ?f = "uuid_str (o_uuid a)"
  obtain aad ct wk sig where p: "sign_origin_struct C (o_salt a) priv pw sender r ?f (sha256_hex ct) (sha256_hex wk)
        (o_time a) (o_time a + secs) = Inr sig"
      "payload = upload_payload ?f r ct (o_aes_nonce a) wk sig (o_time a) (o_time a + secs)"
    using assms(1) unfolding assms(3) [symmetric] by (rule build_package_Inr)
  have "signed_by C (JObj cert) sig (origin_struct (JStr sender) (JStr r) (JStr ?f) (sha256_hex ct) (sha256_hex wk)
      (JInt (o_time a)) (JInt (o_time a + secs)))"
    using signed_by_signer [OF assms(2,5)] p(1) by (simp add: sign_origin_struct_def)
  moreover have "check_file_id (JStr ?f) = Inr ?f" using assms(6) by (auto simp: check_file_id_iff)
  ultimately show thesis
    using that [of "\<lparr>u_file_id = ?f, u_recipient = r, u_timestamp = JInt (o_time a),
        u_expiration = JInt (o_time a + secs), u_ciphertext = ct, u_aes_nonce = o_aes_nonce a, u_wrapped_key = wk,
        u_signature = sig\<rparr>"] assms(4,7,8) p(2)
    by (auto simp: upload_authorised_def sender_known_def parse_upload_package)
qed

text \<open>The package an upload has sent, in terms of the sender's session.\<close>

lemma upload_sends_package:
  assumes "(lit ''UPLOAD_REQUEST'', payload) \<in> set (sends (fst (upload_file a la fs r file_path secs sock)))"
    and "l_username la = Some sender" "l_priv la = Some priv" "l_password la = Some pw"
  obtains m cert_r sock1 where "fs (mk_path file_path) = Some m" "length m \<le> MAX_MESSAGE_BYTES"
    "cert_for a la r sock cert_r sock1" "build_package a priv pw sender r cert_r m secs = Inr payload"
proof -
  obtain m where "packs a la fs r file_path secs sock payload m" using assms(1) by (rule upload_file_sends)
  with assms(2-4) that show thesis by (auto simp: packs_def)
qed

lemma upload_file_packs:
  assumes "packs a la fs r file_path secs sock payload m" "o_read_fault a = None" "o_send_fault a 0 = None"
    and "wire (o_stamp a 0) (lit ''GET_PUBKEY'') [(lit ''username'', JStr r)] = Inr bs"
    and "recv_envelope sock = Inr (e, sock1)" "e_type e = lit ''PUBKEY_RESPONSE''"
  shows "(lit ''UPLOAD_REQUEST'', payload) \<in> set (sends (fst (upload_file a la fs r file_path secs sock)))"
proof -
  obtain sender priv pw cert bs' where p: "fs (mk_path file_path) = Some m" "length m \<le> MAX_MESSAGE_BYTES" "l_sock la"
      "l_username la = Some sender" "l_priv la = Some priv" "l_password la = Some pw"
      "snd (fetch_peer_cert a la 0 r sock) = Inr (cert, sock1)"
      "build_package a priv pw sender r cert m secs = Inr payload"
      "wire (o_stamp a 1) (lit ''UPLOAD_REQUEST'') payload = Inr bs'"
    using assms by (auto simp: packs_def cert_for_def fetch_peer_cert_Inr)
  then show ?thesis
    using assms(2) by (simp add: upload_file_def hbind_done [OF p(7)] fst_hbind_cases client_send_sends ret_def del: One_nat_def)
qed

section \<open>Through the server\<close>

text \<open>A pending row whose blob is there is served to its recipient.\<close>

lemma download_serves:
  assumes g: "gate_passed w e s s1" and ok: "get_fault w = None" "blob_fault w = None"
    and p: "map_of (e_payload e) (lit ''file_id'') = Some (JStr f)" "wf_str f"
    and row: "lookup_file (sdb s) f = Some row" "status row = lit ''pending''"
      "peer_subject sess = JStr (recipient_id row)" "t_auth w < expiration row"
    and b: "sfs s (file_blob_path_for (cfg w) f) = Some ct"
  shows "\<exists>acts. handle_download_request w s sess e = (s1, acts, None)
    \<and> sends acts = [(lit ''DOWNLOAD_RESPONSE'', download_payload (JStr f) row ct)]"
proof -
  have s1: "sfs s1 = sfs s" "files (sdb s1) = files (sdb s)" using gate_passed_same [OF g] by simp_all
  then have "get_file (real_text w) (sdb s1) (JStr f) = Inr (Some row)"
    using row(1) p(2) by (simp add: get_file_JStr lookup_file_def)
  then have "download_fresh w sess e s1 = serve_blob w s1 sess e (JStr f) row"
    using ok p row by (simp add: download_fresh_def download_answer_def authorise_download_def expire_mark_def split: prod.split)
  moreover have "handle_download_request w s sess e = download_fresh w sess e s1"
    unfolding handle_download_request_def by (rule replay_gate_passed) (rule g)
  ultimately show ?thesis
    using b ok(2) s1(1) by (auto simp: serve_blob_def py_str_def finish_def)
qed

text \<open>An acknowledged upload leaves its row and its blob.\<close>

lemma upload_leaves:
  assumes h: "handle_upload_request w s sess e = (s', acts, None)" "was_sent acts (lit ''UPLOAD_ACK'')"
    and p: "parse_upload (e_payload e) = Inr u"
    and sub: "peer_subject sess = JStr sender"
  obtains aad where "file_aad (u_file_id u) sender (u_recipient u) = Inr aad"
    "lookup_file (sdb s') (u_file_id u) = Some (uploaded_row u sess sender aad)"
    "sfs s' (file_blob_path_for (cfg w) (u_file_id u)) = Some (u_ciphertext u)"
  using h(1)
proof (cases rule: handle_upload_cases)
  case refused
  then show thesis using h(2) by (auto simp: one_error_def was_sent_def)
next
  case (accepted s1 u')
  have u: "u' = u" using accepted(2) p by (simp add: upload_authorised_def)
  from accepted(3) obtain sender' aad where r: "bind_text (real_text w) (peer_subject sess) = Inr (Some sender')"
      "upload_aad w u (peer_subject sess) = Inr aad" "lookup_file (sdb s1) (u_file_id u) = None"
      "sdb s' = (sdb s1)\<lparr>files := files (sdb s1) @ [uploaded_row u sess sender' aad]\<rparr>"
    unfolding u by (rule upload_done_row)
  have "sender' = sender" using r(1) sub by (auto simp: bind_text_def bind_str_def rbind_Inr_iff split: if_splits)
  moreover have "file_aad (u_file_id u) sender (u_recipient u) = Inr aad"
    using r(2) sub by (simp add: upload_aad_def py_str_def)
  moreover have "file_id (uploaded_row u sess sender' aad) = u_file_id u"
    by (simp add: uploaded_row_def row_of_def upload_values_def)
  then have "lookup_file (sdb s') (u_file_id u) = Some (uploaded_row u sess sender' aad)"
    using r(3,4) by (simp add: lookup_append_row)
  moreover have "sfs s' (file_blob_path_for (cfg w) (u_file_id u)) = Some (u_ciphertext u)"
    using accepted(3) u by (auto simp: upload_done_def)
  ultimately show thesis using that by blast
qed

text \<open>
  Everything between the file on the sender's disk and the plaintext at the recipient.
  \<open>untouched\<close>: between the acknowledgement of the upload and the request for the download,
  neither the row nor the blob of the file has changed.
\<close>

definition untouched :: "layout \<Rightarrow> pystr \<Rightarrow> server \<Rightarrow> server \<Rightarrow> bool" where
  "untouched c f s s' \<longleftrightarrow> lookup_file (sdb s') f = lookup_file (sdb s) f
     \<and> sfs s' (file_blob_path_for c f) = sfs s (file_blob_path_for c f)"

definition recipient_ready :: "outside \<Rightarrow> live \<Rightarrow> jdict \<Rightarrow> pystr \<Rightarrow> jdict \<Rightarrow> pystr \<Rightarrow> bool" where
  "recipient_ready b lb cert_r r cert sender \<longleftrightarrow>
     (\<exists>priv password ca. l_username lb = Some r \<and> l_priv lb = Some priv \<and> l_password lb = Some password
        \<and> l_ca lb = Some ca \<and> key_pair (o_lib b) cert_r priv password
        \<and> verify_certificate (o_lib b) (o_cert_time b) (JObj cert) ca (Some (JStr sender)) = Inr True)"

lemma uuid_ascii: "check_file_id v = Inr f \<Longrightarrow> list_all (\<lambda>c. c < 128) f"
  using uuid_chars_safe [of v f] by (auto simp: list_all_set is_digit_def)

lemma delivered:
  assumes laws: "pss_correct C" "oaep_correct C" "gcm_correct C" and lib: "o_lib a = C" "o_lib b = C"
    and nonce: "length (o_aes_nonce a) = AES_NONCE_BYTES"
    and pk: "build_package a priv pw sender r cert_r m secs = Inr payload"
    and keys: "key_pair C cert priv pw" and wf: "wf_json (JObj cert)"
    and ready: "recipient_ready b lb cert_r r cert sender"
    and up: "handle_upload_request w s sess e = (s', acts, None)" "was_sent acts (lit ''UPLOAD_ACK'')" "e_payload e = payload"
      "peer_subject sess = JStr sender" "peer_cert sess = JObj cert"
    and same: "untouched (cfg w) (uuid_str (o_uuid a)) s' t" "cfg w2 = cfg w"
    and ask: "gate_passed w2 e2 t t2" "get_fault w2 = None" "blob_fault w2 = None"
      "map_of (e_payload e2) (lit ''file_id'') = Some (JStr (uuid_str (o_uuid a)))"
      "peer_subject sess2 = JStr r" "t_auth w2 < o_time a + secs"
  shows "\<exists>acts2 p. handle_download_request w2 t sess2 e2 = (t2, acts2, None)
    \<and> sends acts2 = [(lit ''DOWNLOAD_RESPONSE'', p)]
    \<and> verify_and_decrypt_download b lb p (Some (uuid_str (o_uuid a))) = Inr m"
proof -
  let ?f = "uuid_str (o_uuid a)"
  obtain priv_r pw_r ca where b: "l_username lb = Some r" "l_priv lb = Some priv_r" "l_password lb = Some pw_r"
      "l_ca lb = Some ca" "key_pair C cert_r priv_r pw_r"
      "verify_certificate C (o_cert_time b) (JObj cert) ca (Some (JStr sender)) = Inr True"
    using ready lib(2) by (auto simp: recipient_ready_def)
  obtain ct wk sig aad where
      p: "payload = upload_payload ?f r ct (o_aes_nonce a) wk sig (o_time a) (o_time a + secs)"
      and aad: "file_aad ?f sender r = Inr aad"
      and o: "opens_to b lb (download_payload (JStr ?f)
        (package_row (JObj cert) sender r ?f ct (o_aes_nonce a) wk sig aad (o_time a) (o_time a + secs)) ct) ?f m"
    using opens_to_package [OF laws lib nonce pk keys b(5) b(1-4) b(6) wf] by blast
  let ?row = "package_row (JObj cert) sender r ?f ct (o_aes_nonce a) wk sig aad (o_time a) (o_time a + secs)"
  obtain u where u: "parse_upload payload = Inr u"
    using up(1)
  proof (cases rule: handle_upload_cases)
    case refused
    then show thesis using up(2) by (auto simp: one_error_def was_sent_def)
  next
    case accepted
    with up(3) that show thesis by (auto simp: upload_authorised_def)
  qed
  note u_def = parse_upload_payload [OF u [unfolded p]]
  obtain aad' where st: "file_aad (u_file_id u) sender (u_recipient u) = Inr aad'"
      "lookup_file (sdb s') (u_file_id u) = Some (uploaded_row u sess sender aad')"
      "sfs s' (file_blob_path_for (cfg w) (u_file_id u)) = Some (u_ciphertext u)"
    using upload_leaves [OF up(1,2) _ up(4)] u up(3) by auto
  have aad': "aad' = aad" using st(1) aad u_def by simp
  have l: "lookup_file (sdb t) ?f = Some ?row"
    using st(2) same(1) up(5) aad' unfolding u_def by (simp add: untouched_def uploaded_package_row)
  have bl: "sfs t (file_blob_path_for (cfg w2) ?f) = Some ct"
    using st(3) same unfolding u_def by (simp add: untouched_def)
  have id: "check_file_id (JStr ?f) = Inr ?f" using parse_upload_Inr [OF u] unfolding u_def by simp
  have row: "status ?row = lit ''pending''" "recipient_id ?row = r" "expiration ?row = o_time a + secs"
      "upload_timestamp ?row = o_time a"
    by (simp_all add: package_row_def)
  obtain acts2 where d: "handle_download_request w2 t sess2 e2 = (t2, acts2, None)"
      "sends acts2 = [(lit ''DOWNLOAD_RESPONSE'', download_payload (JStr ?f) ?row ct)]"
    using download_serves [OF ask(1-4) uuid_wf [OF id] l row(1) _ _ bl] ask(5,6) row by auto
  have "verify_and_decrypt_download b lb (download_payload (JStr ?f) ?row ct) (Some ?f) = Inr m"
    using o uuid_ascii [OF id] by (simp add: verify_and_decrypt_iff download_payload_def jget_def)
  with d show ?thesis by blast
qed

section \<open>The receipt goes out before the file is saved\<close>

definition ack_payload :: "outside \<Rightarrow> pystr \<Rightarrow> bytes \<Rightarrow> jdict" where
  "ack_payload o' f sig =
     [(lit ''file_id'', JStr f), (lit ''timestamp'', JInt (o_time o')), (lit ''signature'', b64_json sig)]"

text \<open>The download has come as far as the receipt: the request is out, the response has arrived
  and opens to \<open>m\<close>, the receipt \<open>sig\<close> is signed and sent; \<open>s1\<close> is what arrives after the response.\<close>

definition receipted :: "outside \<Rightarrow> live \<Rightarrow> pystr \<Rightarrow> sock \<Rightarrow> bytes \<Rightarrow> bytes \<Rightarrow> sock \<Rightarrow> bool" where
  "receipted o' l f s m sig s1 \<longleftrightarrow>
     (\<exists>r. snd (client_send o' 0 (lit ''DOWNLOAD_REQUEST'') [(lit ''file_id'', JStr f)]) = Inr ()
        \<and> recv_envelope s = Inr (r, s1) \<and> e_type r = lit ''DOWNLOAD_RESPONSE''
        \<and> verify_and_decrypt_download o' l (e_payload r) (Some f) = Inr m
        \<and> sign_struct (o_lib o') (o_salt o') (the (l_priv l)) (the (l_password l))
            (ack_struct (JStr f) (JInt (o_time o'))) = Inr sig
        \<and> snd (client_send o' 1 (lit ''DOWNLOAD_ACK'') (ack_payload o' f sig)) = Inr ())"

lemma client_send_ok: "snd (client_send o' i t p) = Inr () \<Longrightarrow> client_send o' i t p = ([Send t p], Inr ())"
  by (auto simp: client_send_def throw_def split: sum.splits option.splits)

lemma client_reply_ok:
  "recv_envelope s = Inr (r, s1) \<Longrightarrow> e_type r = t \<Longrightarrow> t \<noteq> lit ''ERROR'' \<Longrightarrow>
     client_reply repr s t = ([], Inr (e_payload r, s1))"
  by (simp add: client_reply_def call_def lift_res_def ret_def)

lemma fetch_receipted:
  assumes "receipted o' l f s m sig s1"
  shows "fetch_file o' l f s =
    ([Send (lit ''DOWNLOAD_REQUEST'') [(lit ''file_id'', JStr f)], Send (lit ''DOWNLOAD_ACK'') (ack_payload o' f sig)],
     raised (rbind (recv_envelope s1) (\<lambda>(_, s2). Inr (m, s2))))"
proof -
  obtain r where q: "snd (client_send o' 0 (lit ''DOWNLOAD_REQUEST'') [(lit ''file_id'', JStr f)]) = Inr ()"
      "recv_envelope s = Inr (r, s1)" "e_type r = lit ''DOWNLOAD_RESPONSE''"
      and r: "verify_and_decrypt_download o' l (e_payload r) (Some f) = Inr m"
      "sign_struct (o_lib o') (o_salt o') (the (l_priv l)) (the (l_password l))
         (ack_struct (JStr f) (JInt (o_time o'))) = Inr sig"
      and q2: "snd (client_send o' 1 (lit ''DOWNLOAD_ACK'') (ack_payload o' f sig)) = Inr ()"
    using assms unfolding receipted_def by blast
  have e: "lit ''DOWNLOAD_RESPONSE'' \<noteq> lit ''ERROR''" by simp
  note r = r client_send_ok [OF q(1)] client_send_ok [OF q2] client_reply_ok [OF q(2,3) e]
  show ?thesis
    by (cases "recv_envelope s1")
      (auto simp: fetch_file_def r ack_payload_def [symmetric] call_def lift_res_def ret_def simp del: One_nat_def)
qed

text \<open>If the answer to the receipt does not come, or the disk fails, the plaintext is gone.\<close>

lemma download_lost:
  assumes "receipted o' l f s m sig s1" "l_sock l" "l_username l = Some user"
    and "(\<exists>e. recv_envelope s1 = Inl e) \<or> o_disk o' \<noteq> DiskOk"
  shows "\<exists>fs' acts e. download_file o' l fs f s = (fs', acts, Inl e)
    \<and> (lit ''DOWNLOAD_ACK'', ack_payload o' f sig) \<in> set (sends acts)
    \<and> fs' (download_path user f) = fs (download_path user f)"
proof -
  obtain fs' acts r where d: "download_file o' l fs f s = (fs', acts, r)" by (metis prod_cases3)
  have a: "acts = fst (fetch_file o' l f s)"
    using d assms(2,3) by (auto simp: download_file_def Let_def split: prod.split_asm sum.split_asm)
  have s: "(lit ''DOWNLOAD_ACK'', ack_payload o' f sig) \<in> set (sends acts)"
    unfolding a fetch_receipted [OF assms(1)] by simp
  from d show ?thesis
  proof (cases rule: download_file_cases)
    case (failed e)
    have "fs' (download_path user f) = fs (download_path user f)"
      using failed(2) assms(3) with_tmp_name_neq [of "download_path user f"] by auto
    with failed(1) d s show ?thesis by blast
  next
    case (saved m' s' tmp)
    have "\<not> (\<exists>e. recv_envelope s1 = Inl e)"
      using saved(2) unfolding fetch_receipted [OF assms(1)] by (auto simp: raised_def)
    moreover have "o_disk o' = DiskOk"
      using d saved(1,2) assms(2,3) by (auto simp: download_file_def atomic_write_def Let_def split: if_splits sum.splits)
    ultimately show ?thesis using assms(4) by blast
  qed
qed

text \<open>After the receipt nobody is granted the file any more.\<close>

lemma acked_denied:
  assumes "acked w q s s'"
  shows "authorise_download w2 (sdb s') sess2 (JStr (r_file_id q)) rid \<noteq> (db2, logs, Inr (Granted row))"
proof
  assume "authorise_download w2 (sdb s') sess2 (JStr (r_file_id q)) rid = (db2, logs, Inr (Granted row))"
  then have g: "get_file (real_text w2) (sdb s') (JStr (r_file_id q)) = Inr (Some row)" "status row = lit ''pending''"
    by (auto simp: authorise_iff may_download_def)
  obtain db1 where "sdb s' = set_status (r_file_id q) (lit ''downloaded'') db1"
    using assms by (auto simp: acked_def)
  then have "lookup_file (set_status (r_file_id q) (lit ''downloaded'') db1) (r_file_id q) = Some row"
    using get_file_Some [OF g(1)] by (auto simp: bind_text_def bind_str_def rbind_Inr_iff split: if_splits)
  then have "status row = lit ''downloaded''" by (auto simp: lookup_set_status)
  with g(2) show False by simp
qed

lemma ack_ok_acked:
  assumes "handle_download_ack w s sess e = (s', acts, None)" "was_sent acts (lit ''ACK_OK'')"
  obtains s1 q where "parse_signed (e_payload e) = Inr q" "acked w q s1 s'"
  using assms(1)
proof (cases rule: handle_ack_cases)
  case (acknowledged s1 q row)
  with that show thesis by (simp add: ack_authorised_def)
qed (use assms(2) in \<open>auto simp: one_error_def was_sent_def\<close>)

section \<open>A stored upload is pending and acknowledged\<close>

lemma upload_done_status:
  assumes "upload_done w sess u s s'" shows "abs_status s' (u_file_id u) = Some (lit ''pending'')"
proof -
  obtain sender aad where r: "lookup_file (sdb s) (u_file_id u) = None"
      "sdb s' = (sdb s)\<lparr>files := files (sdb s) @ [uploaded_row u sess sender aad]\<rparr>"
    using assms by (rule upload_done_row)
  have "file_id (uploaded_row u sess sender aad) = u_file_id u" "status (uploaded_row u sess sender aad) = lit ''pending''"
    by (simp_all add: uploaded_row_def row_of_def upload_values_def)
  with r show ?thesis by (simp add: abs_status_def lookup_append_row)
qed

lemma upload_done_sends:
  assumes h: "handle_upload_request w s sess e = (s', acts, None)" and d: "upload_done w sess u s1 s'"
    and g: "gate_passed w e s s1"
  shows "was_sent acts (lit ''UPLOAD_ACK'')"
  using h
proof (cases rule: handle_upload_cases)
  case refused
  have "files (sdb s') \<noteq> files (sdb s1)" using d by (auto elim!: upload_done_row)
  moreover have "files (sdb s') = files (sdb s1)"
    using only_nonce_same [OF refused(1)] gate_passed_same [OF g] by simp
  ultimately show ?thesis by simp
qed (simp add: was_sent_def)

end
