(* ===== verification/Json_Pretty.thy ===== *)
theory Json_Pretty
  imports Json_Roundtrip
begin

text \<open>
  \<open>json.dumps(obj, indent=2)\<close>: one item per line, indented by two blanks per level, with
  the separators \<open>,\<close> and \<open>: \<close>; an empty list or object stays on its line.  It reads back as
  the value it was made from.
\<close>

definition indent :: "nat \<Rightarrow> pystr" where
  "indent n = 10 # replicate (2 * n) 32"

primrec pretty :: "json \<Rightarrow> nat \<Rightarrow> pystr" where
  "pretty JNull n = lit ''null''"
| "pretty (JBool b) n = (if b then lit ''true'' else lit ''false'')"
| "pretty (JInt i) n = str_int i"
| "pretty (JFloat f) n = repr_float f"
| "pretty (JStr s) n = quote True s"
| "pretty (JArr xs) n =
     (if xs = [] then lit ''[]''
      else [91] @ indent (Suc n) @ join (44 # indent (Suc n)) (map (\<lambda>p. p (Suc n)) (map pretty xs))
        @ indent n @ [93])"
| "pretty (JObj kvs) n =
     (if kvs = [] then lit ''{}''
      else [123] @ indent (Suc n)
        @ join (44 # indent (Suc n)) (map (\<lambda>(k, p). quote True k @ lit '': '' @ p (Suc n)) (map (map_prod id pretty) kvs))
        @ indent n @ [125])"

lemma indent_ws [simp]: "list_all is_ws (indent n)"
  by (simp add: indent_def is_ws_def list_all_set)

lemma solid_pretty: "wf_json x \<Longrightarrow> solid (pretty x n)"
  using solid_dumps [of "JNull"] solid_dumps [of x "\<lparr>ascii_only = True, item_sep = [], key_sep = []\<rparr>"]
  by (cases x) (auto simp: solid_def lit_def is_ws_def)

lemma parses_pretty: "wf_json x \<Longrightarrow> parses (pretty x n) x"
proof (induction x arbitrary: n)
  case (JArr xs)
  show ?case
  proof (cases "xs = []")
    case False
    have "list_all2 (\<lambda>p x. solid p \<and> parses p x) (map (\<lambda>x. pretty x (Suc n)) xs) xs"
      using JArr solid_pretty by (auto simp: list_all2_conv_all_nth list_all_length)
    from parses_array [OF indent_ws indent_ws indent_ws this, of "Suc n" "Suc n" n] False
    show ?thesis by (simp add: comp_def)
  qed (simp add: parses_empty lit_def)
next
  case (JObj kvs)
  show ?case
  proof (cases "kvs = []")
    case False
    have "wf_str (fst kv) \<and> solid (pretty (snd kv) (Suc n)) \<and> parses (pretty (snd kv) (Suc n)) (snd kv)"
      if "kv \<in> set kvs" for kv
      using that JObj solid_pretty by (auto simp: list_all_set snds.simps)
    then have a: "list_all2 (\<lambda>(k, p) (k', x). k = k' \<and> wf_str k \<and> solid p \<and> parses p x)
        (map (map_prod id (\<lambda>x. pretty x (Suc n))) kvs) kvs"
      by (auto simp: list_all2_conv_all_nth split_def)
    have "parses (123 # indent (Suc n) @ join (44 # indent (Suc n)) (map (member_text True [32])
        (map (map_prod id (\<lambda>x. pretty x (Suc n))) kvs)) @ indent n @ [125]) (JObj kvs)"
      using JObj.prems False a by (intro parses_object) (auto simp: is_ws_def)
    with False show ?thesis by (simp add: split_def comp_def lit_def)
  qed (simp add: parses_empty lit_def)
qed (simp_all add: parses_scalars del: lit_def)

theorem json_loads_pretty [roundtrip]: "wf_json x \<Longrightarrow> json_loads (pretty x n) = Inr x"
  using parses_pretty solid_pretty by (rule json_loads_parses)

text \<open>It is text without a carriage return, so a text file gives it back unchanged.\<close>

lemma pretty_chars:
  "wf_json x \<Longrightarrow> c \<in> set (pretty x n) \<Longrightarrow> text_char c \<or> c = 10"
proof (induction x arbitrary: n c)
  case (JInt i)
  then show ?case by (auto simp: str_int_def split: if_split_asm intro: dec_text text_char_small)
next
  case (JStr s)
  then show ?case by (auto intro: quote_text)
next
  case (JArr xs)
  from JArr.prems(2) consider "c = 10" | "text_char c"
    | (item) x where "x \<in> set xs" "c \<in> set (pretty x (Suc n))"
    by (auto simp: indent_def lit_def text_char_small split: if_split_asm dest!: set_join)
  then show ?case
  proof cases
    case item
    then show ?thesis using JArr.IH JArr.prems(1) by (auto simp: list_all_set)
  qed simp_all
next
  case (JObj kvs)
  from JObj.prems(2) consider "c = 10" | "text_char c"
    | (kv) k x where "(k, x) \<in> set kvs" "c \<in> set (quote True k @ lit '': '' @ pretty x (Suc n))"
    by (auto simp: indent_def lit_def text_char_small split: if_split_asm dest!: set_join)
  then show ?case
  proof cases
    case kv
    have w: "wf_str k" "wf_json x" using JObj.prems(1) kv(1) by (auto simp: list_all_set)
    have "c \<in> set (pretty x (Suc n)) \<Longrightarrow> text_char c \<or> c = 10"
      using JObj.IH [of "(k, x)" x c "Suc n"] kv(1) w by (simp add: snds.simps)
    then show ?thesis using kv(2) w by (auto simp: lit_def intro: quote_text text_char_small)
  qed simp_all
qed (auto simp: lit_def intro: text_char_small split: if_split_asm)

lemma pretty_text_file:
  assumes "wf_json x"
  obtains bs where "utf8_encode (pretty x n) = Inr bs"
    "rbind (utf8_decode bs) (\<lambda>s. json_loads (universal_newlines s)) = Inr x"
proof -
  have c: "text_char c \<or> c = 10" if "c \<in> set (pretty x n)" for c
    using pretty_chars [OF assms that] .
  then have "scalar c" if "c \<in> set (pretty x n)" for c
    using that by (fastforce simp: text_char_def scalar_def)
  then have "wf_str (pretty x n)" by (simp add: wf_str_def list_all_set)
  moreover have "13 \<notin> set (pretty x n)" using c by (fastforce simp: text_char_def)
  ultimately show thesis
    using that utf8_encode_wf [of "pretty x n"] utf8_decode_encode json_loads_pretty [OF assms]
    by (auto simp: universal_newlines_plain)
qed

end
