(* ===== verification/Ca.thy ===== *)
theory Ca
  imports Cert_Sorted Json_Pretty Storage Shell Logger
begin

text \<open>
  \<open>ca/ca.py\<close>: the certificate authority's commands \<open>init\<close>, \<open>issue\<close> and \<open>verify\<close> over a file
  system whose writes may fail half-way.  A command returns the changed files, how it ended
  with what it printed, and its log lines.
\<close>

section \<open>The surroundings of a command\<close>

text \<open>What a write does: it succeeds, it raises before it changes anything (the directory
  cannot be made, the file not opened), or it raises and leaves other contents.\<close>

datatype write_result = Written | Refused exc | Cut_short exc bytes

record authority =
  ca_lib :: crypto
  ca_env_password :: "pystr option"
  ca_entropy :: bytes
  ca_salt :: bytes
  ca_uuid :: nat
  ca_now :: int
  ca_read_fault :: "path \<Rightarrow> exc option"
  ca_write :: "path \<Rightarrow> write_result"
  ca_repr :: "json \<Rightarrow> pystr"

definition DEMO_PASSWORD :: bytes where
  "DEMO_PASSWORD = map b8 (lit ''demo-password'')"

text \<open>\<open>--password\<close>, then a non-empty \<open>ZEROTRUST_CA_PASSWORD\<close>, then the demo password.\<close>

definition ca_password :: "authority \<Rightarrow> pystr option \<Rightarrow> bytes res" where
  "ca_password w arg =
     (case arg of
        Some p \<Rightarrow> utf8_encode p
      | None \<Rightarrow>
          (case ca_env_password w of
             Some p \<Rightarrow> if p \<noteq> [] then utf8_encode p else Inr DEMO_PASSWORD
           | None \<Rightarrow> Inr DEMO_PASSWORD))"

section \<open>Writing files\<close>

definition ca_write_bytes :: "authority \<Rightarrow> filesystem \<Rightarrow> path \<Rightarrow> bytes \<Rightarrow> filesystem \<times> exc option" where
  "ca_write_bytes w fs path data =
     (case ca_write w path of
        Written \<Rightarrow> (fs(path \<mapsto> data), None)
      | Refused e \<Rightarrow> (fs, Some e)
      | Cut_short e left \<Rightarrow> (fs(path \<mapsto> left), Some e))"

text \<open>The file is opened, and so emptied, before the text is encoded.\<close>

definition ca_write_json :: "authority \<Rightarrow> filesystem \<Rightarrow> path \<Rightarrow> jdict \<Rightarrow> filesystem \<times> exc option" where
  "ca_write_json w fs path obj =
     (case utf8_encode (pretty (sort_keys (JObj obj)) 0) of
        Inr data \<Rightarrow> ca_write_bytes w fs path data
      | Inl e \<Rightarrow>
          (case ca_write w path of Refused e' \<Rightarrow> (fs, Some e') | _ \<Rightarrow> (fs(path \<mapsto> []), Some e)))"

text \<open>The key pair and the certificate, in program order; the first failure ends the command.\<close>

definition and_then :: "filesystem \<times> exc option \<Rightarrow> (filesystem \<Rightarrow> filesystem \<times> exc option) \<Rightarrow> filesystem \<times> exc option" where
  "and_then r f = (case r of (fs, Some e) \<Rightarrow> (fs, Some e) | (fs, None) \<Rightarrow> f fs)"

definition write_credentials ::
    "authority \<Rightarrow> filesystem \<Rightarrow> path \<times> bytes \<Rightarrow> path \<times> bytes \<Rightarrow> path \<times> jdict \<Rightarrow> filesystem \<times> exc option" where
  "write_credentials w fs priv pub cert =
     and_then (ca_write_bytes w fs (fst priv) (snd priv)) (\<lambda>fs.
     and_then (ca_write_bytes w fs (fst pub) (snd pub)) (\<lambda>fs.
       ca_write_json w fs (fst cert) (snd cert)))"

section \<open>The commands\<close>

type_synonym ca_outcome = "filesystem \<times> shell \<times> pystr list"

definition exits :: "filesystem \<Rightarrow> int \<Rightarrow> pystr list \<Rightarrow> pystr list \<Rightarrow> pystr list \<Rightarrow> ca_outcome" where
  "exits fs code out err logs = (fs, \<lparr>sh_end = Exit code, sh_out = out, sh_err = err\<rparr>, logs)"

definition raises :: "filesystem \<Rightarrow> exc \<Rightarrow> ca_outcome" where
  "raises fs e = (fs, crashed (Threw e), [])"

definition ca_private_path :: "pystr \<Rightarrow> path" where
  "ca_private_path dir = path_join (mk_path dir) (lit ''ca_private.pem'')"

definition ca_cert_path :: "pystr \<Rightarrow> path" where
  "ca_cert_path dir = path_join (mk_path dir) (lit ''ca_cert.json'')"

definition ca_public_path :: "pystr \<Rightarrow> path" where
  "ca_public_path dir = path_join (mk_path dir) (lit ''ca_public.pem'')"

text \<open>A fresh key pair and a certificate for it: for the authority itself signed with the new
  key, for a user with the authority's.\<close>

definition self_issue :: "authority \<Rightarrow> bytes \<Rightarrow> (bytes \<times> bytes \<times> jdict) res" where
  "self_issue w password =
     rbind (generate_rsa_keypair (ca_lib w) (ca_entropy w) password) (\<lambda>(priv, pub).
     rbind (issue_certificate (ca_lib w) (ca_now w) (uuid_str (ca_uuid w)) (ca_salt w) ISSUER_NAME pub priv password
              (365 * 10)) (\<lambda>cert.
       Inr (priv, pub, cert)))"

definition cmd_init :: "authority \<Rightarrow> filesystem \<Rightarrow> pystr \<Rightarrow> pystr option \<Rightarrow> bool \<Rightarrow> ca_outcome" where
  "cmd_init w fs out password force =
     (let shown = display_path (mk_path out) in
      if (fs (ca_private_path out) \<noteq> None \<or> fs (ca_cert_path out) \<noteq> None) \<and> \<not> force then
        exits fs 2 [] [lit ''CA files already exist at '' @ shown @ lit ''/. Re-run with --force to overwrite.''] []
      else
        (case rbind (ca_password w password) (self_issue w) of
           Inl e \<Rightarrow> raises fs e
         | Inr (priv, pub, cert) \<Rightarrow>
             (case write_credentials w fs (ca_private_path out, priv) (ca_public_path out, pub) (ca_cert_path out, cert) of
                (fs', Some e) \<Rightarrow> raises fs' e
              | (fs', None) \<Rightarrow>
                  exits fs' 0
                    [lit ''CA initialised at '' @ shown @ lit ''/'',
                     lit ''  private key: '' @ display_path (ca_private_path out) @ lit '' (password-protected)'',
                     lit ''  public key:  '' @ display_path (ca_public_path out),
                     lit ''  self-signed cert: '' @ display_path (ca_cert_path out)]
                    []
                    [lit ''CA initialised at '' @ shown @ lit '' (fingerprint='' @ fingerprint pub @ lit '')''])))"

definition ca_issue_to ::
    "authority \<Rightarrow> filesystem \<Rightarrow> pystr \<Rightarrow> pystr \<Rightarrow> bytes \<Rightarrow> bytes \<Rightarrow> int \<Rightarrow> (bytes \<times> bytes \<times> jdict) res" where
  "ca_issue_to w fs username ca_dir ca_pw user_pw days =
     rbind (generate_rsa_keypair (ca_lib w) (ca_entropy w) user_pw) (\<lambda>(priv, pub).
     rbind (with_fault (ca_read_fault w (ca_private_path ca_dir))
              (some_or FileNotFoundError (fs (ca_private_path ca_dir)))) (\<lambda>ca_priv.
     rbind (issue_certificate (ca_lib w) (ca_now w) (uuid_str (ca_uuid w)) (ca_salt w) username pub ca_priv ca_pw days)
       (\<lambda>cert. Inr (priv, pub, cert))))"

text \<open>The arguments of \<open>issue\<close>.\<close>

record issue_args =
  i_username :: pystr
  i_ca_dir :: pystr
  i_user_dir :: pystr
  i_password :: "pystr option"
  i_user_password :: "pystr option"
  i_days :: int
  i_force :: bool

definition user_path :: "issue_args \<Rightarrow> path" where
  "user_path a = path_join (mk_path (i_user_dir a)) (i_username a)"

definition user_file :: "issue_args \<Rightarrow> string \<Rightarrow> path" where
  "user_file a name = path_join (user_path a) (lit name)"

definition cmd_issue :: "authority \<Rightarrow> filesystem \<Rightarrow> issue_args \<Rightarrow> ca_outcome" where
  "cmd_issue w fs a =
     (let u = i_username a; ca = i_ca_dir a; priv_path = user_file a ''private.pem'';
          pub_path = user_file a ''public.pem''; cert_path = user_file a ''cert.json'' in
      if u = [] \<or> 47 \<in> set u \<or> u = [46] \<or> u = [46, 46] then
        exits fs 2 [] [lit ''refusing to issue cert for invalid username: '' @ ca_repr w (JStr u)] []
      else if fs (ca_private_path ca) = None \<or> fs (ca_cert_path ca) = None then
        exits fs 2 [] [lit ''CA not initialised at '' @ display_path (mk_path ca) @ lit ''/. Run `init` first.''] []
      else
        (case rbind (ca_password w (i_password a)) (\<lambda>p. rbind (ca_password w (i_user_password a)) (\<lambda>q. Inr (p, q))) of
           Inl e \<Rightarrow> raises fs e
         | Inr (ca_pw, user_pw) \<Rightarrow>
             if fs cert_path \<noteq> None \<and> \<not> i_force a then
               exits fs 2 [] [lit ''User cert already exists at '' @ display_path cert_path @ lit ''. Re-run with --force.''] []
             else
               (case ca_issue_to w fs u ca ca_pw user_pw (i_days a) of
                  Inl e \<Rightarrow> raises fs e
                | Inr (priv, pub, cert) \<Rightarrow>
                    (case write_credentials w fs (priv_path, priv) (pub_path, pub) (cert_path, cert) of
                       (fs', Some e) \<Rightarrow> raises fs' e
                     | (fs', None) \<Rightarrow>
                         exits fs' 0
                           [lit ''Issued cert for '' @ ca_repr w (JStr u) @ lit '' at '' @ display_path (user_path a) @ lit ''/'',
                            lit ''  private key: '' @ display_path priv_path @ lit '' (password-protected)'',
                            lit ''  public key:  '' @ display_path pub_path,
                            lit ''  certificate: '' @ display_path cert_path]
                           []
                           [lit ''issued cert subject='' @ u @ lit '' serial='' @ uuid_str (ca_uuid w)
                              @ lit '' fingerprint='' @ fingerprint pub]))))"

text \<open>The certificate file is parsed and verified; \<open>cert.get\<close> fails on what is not an object.\<close>

definition verify_file :: "authority \<Rightarrow> filesystem \<Rightarrow> path \<Rightarrow> path \<Rightarrow> (jdict \<times> bool) res" where
  "verify_file w fs cert_path pub_path =
     rbind (with_fault (ca_read_fault w cert_path) (some_or FileNotFoundError (fs cert_path))) (\<lambda>data.
     rbind (utf8_decode data) (\<lambda>text.
     rbind (json_loads (universal_newlines text)) (\<lambda>cert.
     rbind (with_fault (ca_read_fault w pub_path) (some_or FileNotFoundError (fs pub_path))) (\<lambda>pub.
     rbind (verify_certificate (ca_lib w) (ca_now w) cert pub None) (\<lambda>ok.
     rbind (some_or AttributeError (as_dict cert)) (\<lambda>d.
       Inr (d, ok)))))))"

definition cmd_verify :: "authority \<Rightarrow> filesystem \<Rightarrow> pystr \<Rightarrow> pystr \<Rightarrow> ca_outcome" where
  "cmd_verify w fs cert ca_dir =
     (let cert_path = mk_path cert in
      if fs cert_path = None then exits fs 2 [] [lit ''cert not found: '' @ display_path cert_path] []
      else if fs (ca_public_path ca_dir) = None then
        exits fs 2 [] [lit ''CA public key not found: '' @ display_path (ca_public_path ca_dir)] []
      else
        (case verify_file w fs cert_path (ca_public_path ca_dir) of
           Inl e \<Rightarrow> raises fs e
         | Inr (d, ok) \<Rightarrow>
             (let subject = ca_repr w (jget d (lit ''subject'')) in
              if ok then exits fs 0 [lit ''OK: cert for subject='' @ subject @ lit '' verified.''] [] []
              else exits fs 1 [lit ''FAIL: cert for subject='' @ subject @ lit '' did NOT verify.''] [] [])))"

section \<open>What a successful command leaves\<close>

text \<open>A new key pair is serialised so that both halves load again, the private one with its
  password.\<close>

definition keygen_correct :: "crypto \<Rightarrow> bool" where
  "keygen_correct C \<longleftrightarrow>
     (\<forall>entropy pw priv pub. new_rsa_key C entropy pw = (priv, pub) \<longrightarrow>
        (\<exists>k. load_pem_private_key C priv pw = RsaKey k \<and> load_pem_public_key C pub = RsaKey k))"

lemma ca_write_bytes_None:
  "ca_write_bytes w fs p data = (fs', None) \<longleftrightarrow> ca_write w p = Written \<and> fs' = fs(p \<mapsto> data)"
  by (auto simp: ca_write_bytes_def split: write_result.split)

lemma and_then_None: "and_then r f = (fs', None) \<longleftrightarrow> (\<exists>fs. r = (fs, None) \<and> f fs = (fs', None))"
  by (cases r; cases "snd r") (auto simp: and_then_def)

lemma ca_write_json_None:
  "ca_write_json w fs p d = (fs', None) \<longleftrightarrow> ca_write w p = Written
     \<and> (\<exists>data. utf8_encode (pretty (sort_keys (JObj d)) 0) = Inr data \<and> fs' = fs(p \<mapsto> data))"
  unfolding ca_write_json_def
  by (cases "utf8_encode (pretty (sort_keys (JObj d)) 0)")
    (auto simp: ca_write_bytes_None split: write_result.splits simp del: sort_keys.simps)

lemma write_credentials_None:
  "write_credentials w fs (p, a) (q, b) (r, c) = (fs', None) \<longleftrightarrow>
     ca_write w p = Written \<and> ca_write w q = Written \<and> ca_write w r = Written
     \<and> (\<exists>data. utf8_encode (pretty (sort_keys (JObj c)) 0) = Inr data
          \<and> fs' = ((fs(p \<mapsto> a))(q \<mapsto> b))(r \<mapsto> data))"
  by (simp add: write_credentials_def and_then_None ca_write_bytes_None ca_write_json_None del: sort_keys.simps)

lemma exits_simps [simp]:
  "exits fs c out err logs = (fs', sh, l) \<longleftrightarrow>
     fs' = fs \<and> sh = \<lparr>sh_end = Exit c, sh_out = out, sh_err = err\<rparr> \<and> l = logs"
  "raises fs e = (fs', sh, l) \<longleftrightarrow> fs' = fs \<and> sh = crashed (Threw e) \<and> l = []"
  "sh_end (crashed f) = Crash f"
  by (auto simp: exits_def raises_def crashed_def)

lemma cmd_init_Exit_0:
  assumes "cmd_init w fs out password force = (fs', sh, logs)" "sh_end sh = Exit 0"
  obtains pw priv pub cert data where "ca_password w password = Inr pw" "self_issue w pw = Inr (priv, pub, cert)"
    "fs' = ((fs(ca_private_path out \<mapsto> priv))(ca_public_path out \<mapsto> pub))(ca_cert_path out \<mapsto> data)"
  using assms
  by (auto simp: cmd_init_def Let_def rbind_Inr_iff write_credentials_None simp del: sort_keys.simps pretty.simps
      split: if_split_asm sum.split_asm prod.split_asm option.split_asm)

lemma cmd_issue_Exit_0:
  assumes "cmd_issue w fs a = (fs', sh, logs)" "sh_end sh = Exit 0"
  obtains ca_pw user_pw priv pub cert data where "ca_password w (i_password a) = Inr ca_pw"
    "ca_password w (i_user_password a) = Inr user_pw"
    "ca_issue_to w fs (i_username a) (i_ca_dir a) ca_pw user_pw (i_days a) = Inr (priv, pub, cert)"
    "utf8_encode (pretty (sort_keys (JObj cert)) 0) = Inr data"
    "fs' = ((fs(user_file a ''private.pem'' \<mapsto> priv))(user_file a ''public.pem'' \<mapsto> pub))(user_file a ''cert.json'' \<mapsto> data)"
    "i_username a \<noteq> []" "47 \<notin> set (i_username a)" "i_username a \<noteq> [46]"
  using assms
  by (auto simp: cmd_issue_def Let_def rbind_Inr_iff write_credentials_None simp del: sort_keys.simps pretty.simps
      split: if_split_asm sum.split_asm prod.split_asm option.split_asm)

section \<open>Initialise, issue, verify\<close>

lemma name_child: "47 \<notin> set n \<Longrightarrow> n \<noteq> [] \<Longrightarrow> n \<noteq> [46] \<Longrightarrow> path_join p n = Path (root_of p) (parts_of p @ [n])"
  by (rule path_join_name)

lemma ca_paths:
  "ca_private_path d = Path (root_of (mk_path d)) (parts_of (mk_path d) @ [lit ''ca_private.pem''])"
  "ca_public_path d = Path (root_of (mk_path d)) (parts_of (mk_path d) @ [lit ''ca_public.pem''])"
  "ca_cert_path d = Path (root_of (mk_path d)) (parts_of (mk_path d) @ [lit ''ca_cert.json''])"
  unfolding ca_private_path_def ca_public_path_def ca_cert_path_def
  by (rule path_join_name; simp add: lit_def)+

lemma user_files:
  "user_file a ''private.pem'' = Path (root_of (user_path a)) (parts_of (user_path a) @ [lit ''private.pem''])"
  "user_file a ''public.pem'' = Path (root_of (user_path a)) (parts_of (user_path a) @ [lit ''public.pem''])"
  "user_file a ''cert.json'' = Path (root_of (user_path a)) (parts_of (user_path a) @ [lit ''cert.json''])"
  unfolding user_file_def by (rule path_join_name; simp add: lit_def)+

lemma file_names_differ:
  "lit ''ca_private.pem'' \<noteq> lit ''ca_public.pem''" "lit ''ca_private.pem'' \<noteq> lit ''ca_cert.json''"
  "lit ''ca_public.pem'' \<noteq> lit ''ca_cert.json''"
  "lit ''private.pem'' \<noteq> lit ''public.pem''" "lit ''private.pem'' \<noteq> lit ''cert.json''"
  "lit ''public.pem'' \<noteq> lit ''cert.json''"
  by (simp_all add: lit_def)

text \<open>A certificate written with \<open>indent=2\<close> and read again is its copy with sorted keys.\<close>

lemma issued_wf:
  assumes "issue_certificate C now serial salt subject pem priv pw days = Inr cert"
    and "wf_str subject" "wf_str serial" "wf_int now" "wf_int (now + days * 86400)"
  shows "wf_json (JObj cert)" "jget cert (lit ''subject'') = JStr subject"
proof -
  obtain p sig where p: "ascii_decode pem = Inr p"
      and c: "cert = jput (lit ''signature'') (JStr (b64encode sig)) (unsigned_cert subject p now days serial)"
    using assms(1) by (auto simp: issue_certificate_def rbind_Inr_iff Let_def split: if_splits)
  have "wf_str p" using ascii_encode_decode [OF p] by (intro wf_str_ascii) (simp add: list_all_set)
  moreover have "wf_str (b64encode sig)"
    using b64encode_ascii by (intro wf_str_ascii) (auto simp: list_all_set)
  moreover have "wf_str ISSUER_NAME" by (simp add: ISSUER_NAME_def)
  ultimately show "wf_json (JObj cert)"
    using assms(2-5) by (simp add: c unsigned_cert_def)
  show "jget cert (lit ''subject'') = JStr subject"
    by (simp add: c jget_def map_of_jput unsigned_cert_def)
qed

lemma verify_file_written:
  assumes "utf8_encode (pretty (sort_keys (JObj cert)) 0) = Inr data" "wf_json (JObj cert)"
    and "fs p = Some data" "fs q = Some pub" "ca_read_fault w = (\<lambda>_. None)"
    and "verify_certificate (ca_lib w) (ca_now w) (JObj cert) pub (Some (JStr s)) = Inr True"
  shows "verify_file w fs p q = Inr (sorted_obj cert, True)"
proof -
  obtain bs where "utf8_encode (pretty (sort_keys (JObj cert)) 0) = Inr bs"
      "rbind (utf8_decode bs) (\<lambda>s. json_loads (universal_newlines s)) = Inr (sort_keys (JObj cert))"
    using pretty_text_file [OF wf_sort_keys [OF assms(2)], of 0] .
  then obtain t where t: "utf8_decode data = Inr t" "json_loads (universal_newlines t) = Inr (JObj (sorted_obj cert))"
    using assms(1) by (auto simp: rbind_Inr_iff sort_keys_JObj simp del: sort_keys.simps)
  have "verify_certificate (ca_lib w) (ca_now w) (JObj (sorted_obj cert)) pub (Some (JStr s)) = Inr True"
    using assms(2,6) by (intro verify_sorted) simp_all
  then have "verify_certificate (ca_lib w) (ca_now w) (JObj (sorted_obj cert)) pub None = Inr True"
    by (simp add: verify_certificate_iff)
  with t assms(3-5) show ?thesis by (simp add: verify_file_def)
qed

text \<open>What the user then holds: the certificate file, and the private key that belongs to it.\<close>

definition user_credentials :: "crypto \<Rightarrow> filesystem \<Rightarrow> issue_args \<Rightarrow> bytes \<Rightarrow> bool" where
  "user_credentials C fs a pw \<longleftrightarrow>
     (\<exists>data text cert priv. fs (user_file a ''cert.json'') = Some data \<and> utf8_decode data = Inr text
        \<and> json_loads (universal_newlines text) = Inr (JObj cert)
        \<and> jget cert (lit ''subject'') = JStr (i_username a)
        \<and> fs (user_file a ''private.pem'') = Some priv \<and> key_pair C cert priv pw)"

text \<open>The files after both commands, and the keys in them.\<close>

definition issued_to :: "crypto \<Rightarrow> authority \<Rightarrow> filesystem \<Rightarrow> pystr \<Rightarrow> issue_args \<Rightarrow> bytes \<Rightarrow> bytes \<Rightarrow> jdict \<Rightarrow> bytes \<Rightarrow> bool" where
  "issued_to C w fs dir a user_pw priv cert ca_pub \<longleftrightarrow>
     (\<exists>ca_priv ca_pw pub data k k'. issue_certificate C (ca_now w) (uuid_str (ca_uuid w)) (ca_salt w) (i_username a) pub
          ca_priv ca_pw (i_days a) = Inr cert
        \<and> load_pem_private_key C ca_priv ca_pw = RsaKey k \<and> load_pem_public_key C ca_pub = RsaKey k
        \<and> load_pem_private_key C priv user_pw = RsaKey k' \<and> load_pem_public_key C pub = RsaKey k'
        \<and> utf8_encode (pretty (sort_keys (JObj cert)) 0) = Inr data
        \<and> fs (user_file a ''cert.json'') = Some data \<and> fs (user_file a ''private.pem'') = Some priv
        \<and> fs (ca_public_path dir) = Some ca_pub)"

lemma new_key_pair:
  assumes "keygen_correct C" "generate_rsa_keypair C entropy pw = Inr (priv, pub)"
  obtains k where "load_pem_private_key C priv pw = RsaKey k" "load_pem_public_key C pub = RsaKey k"
proof -
  have "new_rsa_key C entropy pw = (priv, pub)"
    using assms(2) by (simp add: generate_rsa_keypair_def split: if_splits)
  with assms(1) that show thesis unfolding keygen_correct_def by blast
qed

lemma init_issue_issued:
  assumes "keygen_correct C" "ca_lib w0 = C" "ca_lib w1 = C"
    and init: "cmd_init w0 fs dir pw force = (fs1, sh0, l0)" "sh_end sh0 = Exit 0"
    and issue: "cmd_issue w1 fs1 a = (fs2, sh1, l1)" "sh_end sh1 = Exit 0"
    and "i_ca_dir a = dir" "ca_password w1 (i_password a) = ca_password w0 pw" "user_path a \<noteq> mk_path dir"
  obtains user_pw priv cert ca_pub where "ca_password w1 (i_user_password a) = Inr user_pw"
    "issued_to C w1 fs2 dir a user_pw priv cert ca_pub"
proof -
  obtain ca_pw ca_priv ca_pub ca_cert data0 where i: "ca_password w0 pw = Inr ca_pw"
      "self_issue w0 ca_pw = Inr (ca_priv, ca_pub, ca_cert)"
      "fs1 = ((fs(ca_private_path dir \<mapsto> ca_priv))(ca_public_path dir \<mapsto> ca_pub))(ca_cert_path dir \<mapsto> data0)"
    using init by (rule cmd_init_Exit_0)
  obtain ca_pw' user_pw priv pub cert data where u: "ca_password w1 (i_password a) = Inr ca_pw'"
      "ca_password w1 (i_user_password a) = Inr user_pw"
      "ca_issue_to w1 fs1 (i_username a) (i_ca_dir a) ca_pw' user_pw (i_days a) = Inr (priv, pub, cert)"
      "utf8_encode (pretty (sort_keys (JObj cert)) 0) = Inr data"
      "fs2 = ((fs1(user_file a ''private.pem'' \<mapsto> priv))(user_file a ''public.pem'' \<mapsto> pub))(user_file a ''cert.json'' \<mapsto> data)"
    using issue by (rule cmd_issue_Exit_0)
  have pw: "ca_pw' = ca_pw" using i(1) u(1) assms(9) by simp
  have f: "fs1 (ca_private_path dir) = Some ca_priv" "fs1 (ca_public_path dir) = Some ca_pub"
    using file_names_differ by (simp_all add: i(3) ca_paths)
  have away: "Path (root_of (user_path a)) (parts_of (user_path a) @ [x]) \<noteq> Path (root_of (mk_path dir)) (parts_of (mk_path dir) @ [y])"
    for x y using assms(10) by (auto simp: path.expand)
  have "generate_rsa_keypair C (ca_entropy w0) ca_pw = Inr (ca_priv, ca_pub)"
    using i(2) assms(2) by (auto simp: self_issue_def rbind_Inr_iff)
  then obtain k where k: "load_pem_private_key C ca_priv ca_pw = RsaKey k" "load_pem_public_key C ca_pub = RsaKey k"
    using assms(1) by (auto elim: new_key_pair)
  have g: "generate_rsa_keypair C (ca_entropy w1) user_pw = Inr (priv, pub)"
      "issue_certificate C (ca_now w1) (uuid_str (ca_uuid w1)) (ca_salt w1) (i_username a) pub ca_priv ca_pw (i_days a) = Inr cert"
    using u(3) f(1) assms(3,8) pw by (auto simp: ca_issue_to_def rbind_Inr_iff)
  obtain k' where k': "load_pem_private_key C priv user_pw = RsaKey k'" "load_pem_public_key C pub = RsaKey k'"
    using assms(1) g(1) by (rule new_key_pair)
  have s: "fs2 (user_file a ''cert.json'') = Some data" "fs2 (user_file a ''private.pem'') = Some priv"
      "fs2 (ca_public_path dir) = Some ca_pub"
    using file_names_differ away f(2) by (simp_all add: u(5) user_files ca_paths del: fun_upd_apply) 
      (simp_all add: fun_upd_def)
  from g(2) k k' u(4) s have "issued_to C w1 fs2 dir a user_pw priv cert ca_pub"
    unfolding issued_to_def by blast
  with u(2) show thesis by (rule that)
qed

text \<open>Such files verify through the last second of the certificate, and serve their owner.\<close>

lemma issued_verifies:
  assumes "issued_to C w fs dir a user_pw priv cert ca_pub" "pss_correct C" "ca_lib w' = C"
    and "wf_str (i_username a)" "wf_int (ca_now w)" "wf_int (ca_now w + i_days a * 86400)"
    and "ca_now w \<le> ca_now w'" "ca_now w' \<le> ca_now w + i_days a * 86400" "ca_read_fault w' = (\<lambda>_. None)"
  shows "verify_file w' fs (user_file a ''cert.json'') (ca_public_path dir) = Inr (sorted_obj cert, True)"
    and "user_credentials C fs a user_pw" "jget (sorted_obj cert) (lit ''subject'') = JStr (i_username a)"
proof -
  obtain ca_priv ca_pw pub data k k' where
      i: "issue_certificate C (ca_now w) (uuid_str (ca_uuid w)) (ca_salt w) (i_username a) pub ca_priv ca_pw (i_days a) = Inr cert"
      and k: "load_pem_private_key C ca_priv ca_pw = RsaKey k" "load_pem_public_key C ca_pub = RsaKey k"
      and k': "load_pem_private_key C priv user_pw = RsaKey k'" "load_pem_public_key C pub = RsaKey k'"
      and d: "utf8_encode (pretty (sort_keys (JObj cert)) 0) = Inr data"
      and f: "fs (user_file a ''cert.json'') = Some data" "fs (user_file a ''private.pem'') = Some priv"
        "fs (ca_public_path dir) = Some ca_pub"
    using assms(1) unfolding issued_to_def by blast
  have wf: "wf_json (JObj cert)" and subj: "jget cert (lit ''subject'') = JStr (i_username a)"
    using issued_wf [OF i assms(4) uuid_str_wf assms(5,6)] by blast+
  have dist: "distinct (map fst cert)" using wf by simp
  show s: "jget (sorted_obj cert) (lit ''subject'') = JStr (i_username a)"
    using subj by (simp add: jget_sorted_obj [OF dist])
  have "verify_certificate C (ca_now w') (JObj cert) ca_pub (Some (JStr (i_username a))) = Inr True"
    using verify_issued [OF i assms(2) k] assms(7,8) by simp
  then show "verify_file w' fs (user_file a ''cert.json'') (ca_public_path dir) = Inr (sorted_obj cert, True)"
    using d wf f assms(3,9) by (intro verify_file_written) simp_all
  obtain bs where "utf8_encode (pretty (sort_keys (JObj cert)) 0) = Inr bs"
      "rbind (utf8_decode bs) (\<lambda>s. json_loads (universal_newlines s)) = Inr (sort_keys (JObj cert))"
    using pretty_text_file [OF wf_sort_keys [OF wf], of 0] .
  then obtain t where t: "utf8_decode data = Inr t" "json_loads (universal_newlines t) = Inr (JObj (sorted_obj cert))"
    using d by (auto simp: rbind_Inr_iff sort_keys_JObj simp del: sort_keys.simps)
  have "cert_pem cert = Inr pub"
    using i by (auto simp: issue_certificate_def rbind_Inr_iff Let_def cert_pem_Inr_iff map_of_jput unsigned_cert_def
        dest: ascii_encode_decode split: if_splits)
  then have "key_pair C (sorted_obj cert) priv user_pw"
    using k' by (intro key_pair_sorted [OF dist]) (auto simp: key_pair_def)
  with f t s show "user_credentials C fs a user_pw" unfolding user_credentials_def by blast
qed

end
