(* ===== verification/Session.thy ===== *)
theory Session
  imports Client
begin

text \<open>
  \<open>client/session.py\<close>: the files of \<open>client_<username>/\<close>, the checks on the configuration,
  the connection and the handshake, up to the live session that the commands use.
\<close>

section \<open>The local files\<close>

definition client_dir_for_user :: "pystr \<Rightarrow> failure + path" where
  "client_dir_for_user username =
     (if username = [] \<or> username = [46] \<or> username = [46, 46] then Inl (Asset (lit ''invalid username''))
      else if 47 \<in> set username \<or> 92 \<in> set username then Inl (Asset (lit ''invalid username''))
      else Inr (mk_path (lit ''client_'' @ username)))"

text \<open>
  The local machine: its files, the faults of reading them, and \<open>socket.create_connection\<close>.
\<close>

record machine =
  m_files :: filesystem
  m_read_fault :: "path \<Rightarrow> exc option"
  m_connect :: "pystr \<Rightarrow> json \<Rightarrow> sock res"

definition read_client_bytes :: "machine \<Rightarrow> path \<Rightarrow> failure + bytes" where
  "read_client_bytes k path =
     rbind (some_or (Asset (display_path path @ lit '' not found'')) (m_files k path)) (\<lambda>data.
       raised (with_fault (m_read_fault k path) (Inr data)))"

text \<open>Only a syntax error of the JSON text is translated; bytes that are not UTF-8 raise as they
  are.\<close>

definition read_client_json :: "machine \<Rightarrow> path \<Rightarrow> failure + jdict" where
  "read_client_json k path =
     rbind (read_client_bytes k path) (\<lambda>data.
     rbind (raised (utf8_decode data)) (\<lambda>text.
     rbind (case json_loads (universal_newlines text) of
              Inr v \<Rightarrow> Inr v
            | Inl e \<Rightarrow>
                Inl (if e = JSONDecodeError then Asset (display_path path @ lit '' is not valid JSON'') else Threw e))
       (\<lambda>v. some_or (Asset (display_path path @ lit '' must contain a JSON object'')) (as_dict v))))"

text \<open>What \<open>_load_client_assets\<close> returns.\<close>

record client_assets =
  a_config :: jdict
  a_cert :: jdict
  a_priv :: bytes
  a_ca :: bytes

definition load_client_assets :: "machine \<Rightarrow> pystr \<Rightarrow> failure + client_assets" where
  "load_client_assets k username =
     rbind (client_dir_for_user username) (\<lambda>dir.
     rbind (read_client_json k (path_join dir (lit ''config.json''))) (\<lambda>config.
     rbind (read_client_json k (path_join dir (lit ''cert.json''))) (\<lambda>cert.
     rbind (read_client_json k (path_join dir (lit ''ca_cert.json''))) (\<lambda>ca_cert.
     rbind (read_client_bytes k (path_join dir (lit ''private.pem''))) (\<lambda>priv.
     rbind (ensure (Asset (display_path (path_join dir (lit ''config.json'')) @ lit '' username mismatch''))
              (jget config (lit ''username'') = JNull \<or> py_eq (jget config (lit ''username'')) (JStr username))) (\<lambda>_.
     rbind (some_or (Asset (display_path (path_join dir (lit ''ca_cert.json'')) @ lit '' missing public_key_pem''))
              (as_str (jget ca_cert (lit ''public_key_pem'')))) (\<lambda>ca_text.
     rbind (raised (ascii_encode ca_text)) (\<lambda>ca.
       Inr \<lparr>a_config = config, a_cert = cert, a_priv = priv, a_ca = ca\<rparr>))))))))"

section \<open>Whom to connect to\<close>

text \<open>Host, port and expected subject (\<open>None\<close>: any server the CA has certified).  A bool passes
  as a port, as it does for \<open>isinstance(port, int)\<close>.\<close>

definition connect_target :: "pystr \<Rightarrow> jdict \<Rightarrow> failure + (pystr \<times> json \<times> pystr option)" where
  "connect_target config_path config =
     (let host = jget config (lit ''server_host''); port = jget config (lit ''server_port'');
          subject = jget config (lit ''server_subject'') in
      rbind (some_or (Asset (config_path @ lit '' missing server_host'')) (as_str host)) (\<lambda>h.
      rbind (ensure (Asset (config_path @ lit '' missing server_host'')) (h \<noteq> [])) (\<lambda>_.
      rbind (ensure (Asset (config_path @ lit '' missing server_port'')) (as_int port \<noteq> None)) (\<lambda>_.
      rbind (ensure (Asset (config_path @ lit '' server_subject must be a string''))
               (subject = JNull \<or> as_str subject \<noteq> None)) (\<lambda>_.
        Inr (h, port, as_str subject))))))"

definition resolve_connect_target ::
    "machine \<Rightarrow> pystr \<Rightarrow> failure + (pystr \<times> json \<times> pystr option \<times> client_assets)" where
  "resolve_connect_target k username =
     rbind (client_dir_for_user username) (\<lambda>dir.
     rbind (load_client_assets k username) (\<lambda>assets.
     rbind (connect_target (display_path (path_join dir (lit ''config.json''))) (a_config assets)) (\<lambda>(h, port, subject).
       Inr (h, port, subject, assets))))"

section \<open>Sessions\<close>

text \<open>The party of the handshake: the drawn values of \<open>h\<close> with the loaded credentials.\<close>

definition client_party :: "party \<Rightarrow> client_assets \<Rightarrow> bytes \<Rightarrow> party" where
  "client_party h a password =
     h\<lparr>hs_ca := a_ca a, own_cert := a_cert a, own_priv := a_priv a, own_password := password\<rparr>"

definition run_handshake :: "'a io \<Rightarrow> 'a cio" where
  "run_handshake p = (fst p, raised (snd p))"

definition open_session ::
    "party \<Rightarrow> machine \<Rightarrow> pystr \<Rightarrow> bytes \<Rightarrow> (client_assets \<times> session \<times> sock) cio" where
  "open_session h k username password =
     hbind (lift_res (resolve_connect_target k username)) (\<lambda>(host, port, subject, assets).
     hbind (call (m_connect k host port)) (\<lambda>s.
     hbind (run_handshake (perform_client_handshake (client_party h assets password) (map_option JStr subject) s))
       (\<lambda>(state, s'). ret (assets, state, s'))))"

definition login_session :: "party \<Rightarrow> machine \<Rightarrow> pystr \<Rightarrow> bytes \<Rightarrow> session cio" where
  "login_session h k username password =
     hbind (open_session h k username password) (\<lambda>(_, state, _). ret state)"

text \<open>\<open>with connected_session(...) as session: body(session)\<close>\<close>

definition live_session :: "pystr \<Rightarrow> bytes \<Rightarrow> client_assets \<Rightarrow> live" where
  "live_session username password a =
     \<lparr>l_sock = True, l_username = Some username, l_priv = Some (a_priv a), l_password = Some password,
      l_ca = Some (a_ca a)\<rparr>"

definition connected_session ::
    "party \<Rightarrow> machine \<Rightarrow> pystr \<Rightarrow> bytes \<Rightarrow> (live \<Rightarrow> sock \<Rightarrow> 'a cio) \<Rightarrow> 'a cio" where
  "connected_session h k username password body =
     hbind (open_session h k username password) (\<lambda>(assets, _, s).
       body (live_session username password assets) s)"

section \<open>What a session rests on\<close>

text \<open>The JSON object a file of the client's directory holds.\<close>

definition asset_object :: "machine \<Rightarrow> pystr \<Rightarrow> string \<Rightarrow> jdict \<Rightarrow> bool" where
  "asset_object k username name d \<longleftrightarrow>
     (\<exists>data text. m_files k (Path Relative [lit ''client_'' @ username, lit name]) = Some data
        \<and> utf8_decode data = Inr text \<and> json_loads (universal_newlines text) = Inr (JObj d))"

lemma asset_object_unique: "asset_object k u n d \<Longrightarrow> asset_object k u n d' \<Longrightarrow> d = d'"
  by (auto simp: asset_object_def)

lemma client_dir_Inr:
  assumes "client_dir_for_user u = Inr d"
  shows "d = Path Relative [lit ''client_'' @ u]" "47 \<notin> set u" "u \<noteq> []"
proof -
  have u: "d = mk_path (lit ''client_'' @ u)" "47 \<notin> set u" "u \<noteq> []"
    using assms by (auto simp: client_dir_for_user_def split: if_splits)
  then have "split_slash (lit ''client_'' @ u) = [lit ''client_'' @ u]"
    by (intro split_slash_plain) (auto simp: lit_def)
  with u show "d = Path Relative [lit ''client_'' @ u]" "47 \<notin> set u" "u \<noteq> []"
    by (simp_all add: mk_path_def root_prefix_def lit_def)
qed

lemma client_file:
  assumes "client_dir_for_user u = Inr d" "lit name \<noteq> []" "47 \<notin> set (lit name)" "lit name \<noteq> [46]"
  shows "path_join d (lit name) = Path Relative [lit ''client_'' @ u, lit name]"
  using client_dir_Inr(1) [OF assms(1)] path_join_name [of "lit name" d] assms(2-4) by simp

lemma read_client_bytes_Inr:
  "read_client_bytes k p = Inr data \<longleftrightarrow> m_files k p = Some data \<and> m_read_fault k p = None"
  by (auto simp: read_client_bytes_def rbind_Inr_iff with_fault_def split: option.splits)

lemma read_client_json_Inr:
  "read_client_json k p = Inr d \<longleftrightarrow>
     (\<exists>data text. m_files k p = Some data \<and> m_read_fault k p = None
        \<and> utf8_decode data = Inr text \<and> json_loads (universal_newlines text) = Inr (JObj d))"
  unfolding read_client_json_def by (simp add: rbind_Inr_iff translated_Inr read_client_bytes_Inr)

lemma load_client_assets_Inr:
  assumes "load_client_assets k u = Inr a"
  obtains ca_cert ca_text where "asset_object k u ''config.json'' (a_config a)"
    "asset_object k u ''cert.json'' (a_cert a)" "asset_object k u ''ca_cert.json'' ca_cert"
    "jget ca_cert (lit ''public_key_pem'') = JStr ca_text" "ascii_encode ca_text = Inr (a_ca a)"
    "m_files k (Path Relative [lit ''client_'' @ u, lit ''private.pem'']) = Some (a_priv a)"
proof -
  obtain dir where d: "client_dir_for_user u = Inr dir"
    using assms by (auto simp: load_client_assets_def rbind_Inr_iff)
  have f: "path_join dir (lit ''config.json'') = Path Relative [lit ''client_'' @ u, lit ''config.json'']"
    "path_join dir (lit ''cert.json'') = Path Relative [lit ''client_'' @ u, lit ''cert.json'']"
    "path_join dir (lit ''ca_cert.json'') = Path Relative [lit ''client_'' @ u, lit ''ca_cert.json'']"
    "path_join dir (lit ''private.pem'') = Path Relative [lit ''client_'' @ u, lit ''private.pem'']"
    by (rule client_file [OF d]; simp add: lit_def)+
  obtain config cert ca_cert priv ca_text ca where
      "read_client_json k (path_join dir (lit ''config.json'')) = Inr config"
      "read_client_json k (path_join dir (lit ''cert.json'')) = Inr cert"
      "read_client_json k (path_join dir (lit ''ca_cert.json'')) = Inr ca_cert"
      "read_client_bytes k (path_join dir (lit ''private.pem'')) = Inr priv"
      "jget ca_cert (lit ''public_key_pem'') = JStr ca_text" "ascii_encode ca_text = Inr ca"
      "a = \<lparr>a_config = config, a_cert = cert, a_priv = priv, a_ca = ca\<rparr>"
    using assms d by (auto simp: load_client_assets_def rbind_Inr_iff)
  with that show thesis
    by (auto simp: f asset_object_def read_client_json_Inr read_client_bytes_Inr)
qed

lemma resolve_connect_target_Inr:
  "resolve_connect_target k u = Inr (host, port, subject, a) \<longleftrightarrow>
     load_client_assets k u = Inr a \<and> jget (a_config a) (lit ''server_host'') = JStr host \<and> host \<noteq> []
     \<and> port = jget (a_config a) (lit ''server_port'') \<and> as_int port \<noteq> None
     \<and> subject = as_str (jget (a_config a) (lit ''server_subject''))
     \<and> (subject = None \<longrightarrow> jget (a_config a) (lit ''server_subject'') = JNull)"
proof -
  have "\<exists>dir. client_dir_for_user u = Inr dir" if "load_client_assets k u = Inr a"
    using that by (auto simp: load_client_assets_def rbind_Inr_iff)
  then show ?thesis
    by (auto simp: resolve_connect_target_def connect_target_def Let_def rbind_Inr_iff simp del: not_None_eq)
qed

lemma open_session_Inr:
  "snd (open_session h k u pw) = Inr (a, state, s') \<longleftrightarrow>
     (\<exists>host port subject s. resolve_connect_target k u = Inr (host, port, subject, a)
        \<and> m_connect k host port = Inr s
        \<and> snd (perform_client_handshake (client_party h a pw) (map_option JStr subject) s) = Inr (state, s'))"
  by (auto simp: open_session_def snd_hbind_Inr run_handshake_def)

text \<open>The server of an open session: certified by the key in \<open>ca_cert.json\<close>, with the name in
  \<open>config.json\<close>, and in possession of the certified key.\<close>

definition server_proven :: "party \<Rightarrow> client_assets \<Rightarrow> session \<Rightarrow> bool" where
  "server_proven h a state \<longleftrightarrow>
     (\<exists>cert pem key nonce ct sig. peer_subject state = jget cert (lit ''subject'')
        \<and> verify_certificate (hs_lib h) (hs_now h) (JObj cert) (a_ca a)
            (map_option JStr (as_str (jget (a_config a) (lit ''server_subject'')))) = Inr True
        \<and> cert_pem cert = Inr pem \<and> load_pem_public_key (hs_lib h) pem = RsaKey key
        \<and> pss_verify (hs_lib h) key sig (sha256 (own_nonce h @ nonce @ ct)))"

lemma client_party_simps [simp]:
  "hs_ca (client_party h a pw) = a_ca a" "hs_lib (client_party h a pw) = hs_lib h"
  "hs_now (client_party h a pw) = hs_now h" "own_nonce (client_party h a pw) = own_nonce h"
  by (simp_all add: client_party_def)

lemma open_session_proves:
  assumes "snd (open_session h k u pw) = Inr (a, state, s')"
  shows "load_client_assets k u = Inr a" "server_proven h a state"
proof -
  obtain host port subject s where r: "resolve_connect_target k u = Inr (host, port, subject, a)"
      and c: "snd (perform_client_handshake (client_party h a pw) (map_option JStr subject) s) = Inr (state, s')"
    using assms by (auto simp: open_session_Inr)
  from r have a: "load_client_assets k u = Inr a" "subject = as_str (jget (a_config a) (lit ''server_subject''))"
    by (auto simp: resolve_connect_target_Inr)
  from a(1) show "load_client_assets k u = Inr a" .
  from client_handshake_proves [OF c] a(2) show "server_proven h a state"
    unfolding proven_peer_def server_proven_def client_party_simps by metis
qed

end
