(* ===== verification/Cli.thy ===== *)
theory Cli
  imports Session
begin

text \<open>
  \<open>client/cli.py\<close>: the five commands.  A command ends with an exit code, or with an
  exception that no \<open>except\<close> clause of it catches; it prints lines to the two streams.
\<close>

section \<open>The surroundings of a command\<close>

text \<open>
  \<open>str(exc)\<close>: the message the client itself gave, or the library's (\<open>lib_text\<close>); for an
  error of the operating system the lower-cased text (\<open>os_text\<close>), as the commands print it.
\<close>

record console =
  lib_text :: "exc \<Rightarrow> pystr"
  os_text :: "exc \<Rightarrow> pystr"
  show_json :: "json \<Rightarrow> pystr"
  env_password :: "pystr option"
  typed_password :: pystr

definition AUTH_FAILED :: pystr where
  "AUTH_FAILED = lit ''AUTH_FAILED''"

text \<open>\<open>--password\<close>, then a non-empty \<open>ZEROTRUST_USER_PASSWORD\<close>, then the prompt.\<close>

definition resolve_password :: "console \<Rightarrow> pystr option \<Rightarrow> bytes res" where
  "resolve_password c arg =
     utf8_encode (case arg of
        Some p \<Rightarrow> p
      | None \<Rightarrow> (case env_password c of Some p \<Rightarrow> if p \<noteq> [] then p else typed_password c | None \<Rightarrow> typed_password c))"

section \<open>The \<open>except\<close> clauses\<close>

definition exc_of :: "failure \<Rightarrow> exc option" where
  "exc_of f = (case f of Threw e \<Rightarrow> Some e | Said e m \<Rightarrow> Some e | Asset m \<Rightarrow> None)"

definition says :: "(exc \<Rightarrow> pystr) \<Rightarrow> failure \<Rightarrow> pystr" where
  "says text f = (case f of Threw e \<Rightarrow> text e | Said e m \<Rightarrow> m | Asset m \<Rightarrow> m)"

definition OTHER_AUTH_ERRORS :: "exc list" where
  "OTHER_AUTH_ERRORS = [AuthError, CryptoError]"

text \<open>\<open>cmd_login\<close>: what it prints to the error stream, if it catches the exception.\<close>

definition login_error :: "console \<Rightarrow> failure \<Rightarrow> pystr option" where
  "login_error c f =
     (case exc_of f of
        None \<Rightarrow> Some (says (lib_text c) f)
      | Some e \<Rightarrow>
          if is_OSError e then Some (says (os_text c) f)
          else if e = ProtocolError \<or> e \<in> set OTHER_AUTH_ERRORS then Some AUTH_FAILED
          else None)"

text \<open>The commands that talk to the server show the text of a \<open>ProtocolError\<close>.\<close>

definition command_error :: "console \<Rightarrow> failure \<Rightarrow> pystr option" where
  "command_error c f =
     (case exc_of f of
        None \<Rightarrow> Some (says (lib_text c) f)
      | Some e \<Rightarrow>
          if is_OSError e then Some (says (os_text c) f)
          else if e = ProtocolError then Some (says (lib_text c) f)
          else if e \<in> set OTHER_AUTH_ERRORS then Some AUTH_FAILED
          else None)"

definition upload_error :: "console \<Rightarrow> failure \<Rightarrow> pystr option" where
  "upload_error c f =
     (if exc_of f = Some FileNotFoundError then Some (lit ''FILE_NOT_FOUND'') else command_error c f)"

text \<open>A command resolves the password outside its \<open>try\<close>, runs the session inside it, and
  reports after it.\<close>

definition report :: "(failure \<Rightarrow> pystr option) \<Rightarrow> failure + 'a \<Rightarrow> ('a \<Rightarrow> shell) \<Rightarrow> shell" where
  "report handler r show =
     (case r of
        Inl f \<Rightarrow>
          (case handler f of
             Some line \<Rightarrow> \<lparr>sh_end = Exit 1, sh_out = [], sh_err = [line]\<rparr>
           | None \<Rightarrow> crashed f)
      | Inr x \<Rightarrow> show x)"

definition run_command ::
    "console \<Rightarrow> pystr option \<Rightarrow> (failure \<Rightarrow> pystr option) \<Rightarrow> (bytes \<Rightarrow> failure + 'a) \<Rightarrow> ('a \<Rightarrow> shell) \<Rightarrow> shell" where
  "run_command c password handler session show =
     (case resolve_password c password of
        Inl e \<Rightarrow> crashed (Threw e)
      | Inr pw \<Rightarrow> report handler (session pw) show)"

definition shown_item :: "console \<Rightarrow> jdict \<Rightarrow> string \<Rightarrow> failure + pystr" where
  "shown_item c d k = rbind (raised (jitem d (lit k))) (\<lambda>v. Inr (py_str (show_json c) v))"

definition shown_or :: "console \<Rightarrow> jdict \<Rightarrow> string \<Rightarrow> pystr \<Rightarrow> pystr" where
  "shown_or c d k dflt = (case map_of d (lit k) of None \<Rightarrow> dflt | Some v \<Rightarrow> py_str (show_json c) v)"

section \<open>The commands\<close>

text \<open>The command line: \<open>--user\<close>, \<open>--password\<close> and what surrounds the process.\<close>

record cli_args =
  arg_user :: pystr
  arg_password :: "pystr option"

definition banner :: "console \<Rightarrow> cli_args \<Rightarrow> session \<Rightarrow> pystr" where
  "banner c args state =
     lit ''Authenticated as '' @ arg_user args @ lit ''; session established with ''
       @ py_str (show_json c) (peer_subject state) @ lit ''.''"

definition cmd_login :: "console \<Rightarrow> party \<Rightarrow> machine \<Rightarrow> cli_args \<Rightarrow> shell" where
  "cmd_login c h k args =
     run_command c (arg_password args) (login_error c)
       (\<lambda>pw. snd (login_session h k (arg_user args) pw))
       (\<lambda>state. print_lines [Inr (banner c args state)])"

definition cmd_upload ::
    "console \<Rightarrow> party \<Rightarrow> machine \<Rightarrow> outside \<Rightarrow> cli_args \<Rightarrow> pystr \<Rightarrow> pystr \<Rightarrow> int \<Rightarrow> shell" where
  "cmd_upload c h k o' args recipient file expires_days =
     run_command c (arg_password args) (upload_error c)
       (\<lambda>pw. snd (connected_session h k (arg_user args) pw (\<lambda>l s.
          upload_file o' l (m_files k) recipient file (expires_days * 86400) s)))
       (\<lambda>(ack, _). print_lines
          [rbind (shown_item c ack ''file_id'') (\<lambda>f.
           rbind (shown_item c ack ''expiration'') (\<lambda>x.
             Inr (lit ''Uploaded file_id='' @ f @ lit '' to '' @ recipient @ lit ''; expires='' @ x)))])"

definition list_line :: "console \<Rightarrow> jdict \<Rightarrow> failure + pystr" where
  "list_line c row =
     rbind (shown_item c row ''file_id'') (\<lambda>f.
     rbind (shown_item c row ''sender_id'') (\<lambda>sender.
     rbind (shown_item c row ''expiration'') (\<lambda>x.
       Inr (f @ lit '' sender='' @ sender @ lit '' size='' @ shown_or c row ''ciphertext_size'' (lit ''unknown'')
            @ lit '' expires='' @ x))))"

definition cmd_list :: "console \<Rightarrow> party \<Rightarrow> machine \<Rightarrow> outside \<Rightarrow> cli_args \<Rightarrow> shell" where
  "cmd_list c h k o' args =
     run_command c (arg_password args) (command_error c)
       (\<lambda>pw. snd (connected_session h k (arg_user args) pw (\<lambda>l s. list_pending o' l s)))
       (\<lambda>(rows, _). print_lines (map (list_line c) rows))"

definition cmd_revoke :: "console \<Rightarrow> party \<Rightarrow> machine \<Rightarrow> outside \<Rightarrow> cli_args \<Rightarrow> pystr \<Rightarrow> shell" where
  "cmd_revoke c h k o' args f =
     run_command c (arg_password args) (command_error c)
       (\<lambda>pw. snd (connected_session h k (arg_user args) pw (\<lambda>l s. revoke_file o' l f s)))
       (\<lambda>(ack, _). print_lines
          [Inr (lit ''Revoked file_id='' @ shown_or c ack ''file_id'' f @ lit ''; status=''
             @ shown_or c ack ''status'' (lit ''revoked''))])"

text \<open>The download is the one command that changes the local files.\<close>

definition session_download ::
    "party \<Rightarrow> machine \<Rightarrow> outside \<Rightarrow> pystr \<Rightarrow> pystr \<Rightarrow> bytes \<Rightarrow> filesystem \<times> (failure + path)" where
  "session_download h k o' user f pw =
     (case snd (open_session h k user pw) of
        Inl e \<Rightarrow> (m_files k, Inl e)
      | Inr (assets, _, s) \<Rightarrow>
          (case download_file o' (live_session user pw assets) (m_files k) f s of
             (fs', _, r) \<Rightarrow> (fs', rbind r (\<lambda>(p, _). Inr p))))"

definition cmd_download ::
    "console \<Rightarrow> party \<Rightarrow> machine \<Rightarrow> outside \<Rightarrow> cli_args \<Rightarrow> pystr \<Rightarrow> filesystem \<times> shell" where
  "cmd_download c h k o' args f =
     (case resolve_password c (arg_password args) of
        Inl e \<Rightarrow> (m_files k, crashed (Threw e))
      | Inr pw \<Rightarrow>
          (let (fs', r) = session_download h k o' (arg_user args) f pw in
           (fs', report (command_error c) r (\<lambda>_. print_lines [Inr (lit ''Downloaded file_id='' @ f)]))))"

text \<open>\<open>main\<close>: what \<open>argparse\<close> made of the arguments selects the command; its own errors exit
  with 2.\<close>

datatype command = Login | Upload_To pystr pystr int | Inbox | Fetch pystr | Revoke pystr

definition cli_main ::
    "console \<Rightarrow> party \<Rightarrow> machine \<Rightarrow> outside \<Rightarrow> (cli_args \<times> command) option \<Rightarrow> filesystem \<times> shell" where
  "cli_main c h k o' parsed =
     (case parsed of
        None \<Rightarrow> (m_files k, \<lparr>sh_end = Exit 2, sh_out = [], sh_err = []\<rparr>)
      | Some (args, cmd) \<Rightarrow>
          (case cmd of
             Login \<Rightarrow> (m_files k, cmd_login c h k args)
           | Upload_To recipient file days \<Rightarrow> (m_files k, cmd_upload c h k o' args recipient file days)
           | Inbox \<Rightarrow> (m_files k, cmd_list c h k o' args)
           | Fetch f \<Rightarrow> cmd_download c h k o' args f
           | Revoke f \<Rightarrow> (m_files k, cmd_revoke c h k o' args f)))"

section \<open>Success and failure of a command\<close>

lemma report_Exit_0:
  "sh_end (report handler r show) = Exit 0 \<longleftrightarrow> (\<exists>x. r = Inr x \<and> sh_end (show x) = Exit 0)"
  by (auto simp: report_def crashed_def split: sum.split option.split)

lemma run_command_Exit_0:
  "sh_end (run_command c password handler session show) = Exit 0 \<longleftrightarrow>
     (\<exists>pw x. resolve_password c password = Inr pw \<and> session pw = Inr x \<and> sh_end (show x) = Exit 0)"
  by (auto simp: run_command_def crashed_def report_Exit_0 split: sum.split)

lemma run_command_show:
  "resolve_password c password = Inr pw \<Longrightarrow> session pw = Inr x \<Longrightarrow>
     run_command c password handler session show = show x"
  by (simp add: run_command_def report_def)

lemma cmd_login_Exit:
  assumes "sh_end (cmd_login c h k args) = Exit 0"
  obtains pw a state s' where "resolve_password c (arg_password args) = Inr pw"
    "snd (open_session h k (arg_user args) pw) = Inr (a, state, s')"
  using assms by (auto simp: cmd_login_def run_command_Exit_0 login_session_def snd_hbind_Inr)

lemma cmd_login_out:
  assumes "resolve_password c (arg_password args) = Inr pw"
    "snd (open_session h k (arg_user args) pw) = Inr (a, state, s')"
  shows "cmd_login c h k args = \<lparr>sh_end = Exit 0, sh_out = [banner c args state], sh_err = []\<rparr>"
proof -
  have "snd (login_session h k (arg_user args) pw) = Inr state"
    using assms(2) by (auto simp: login_session_def snd_hbind_Inr)
  with assms(1) show ?thesis by (simp add: cmd_login_def run_command_show)
qed

end
