(* ===== verification/Pystr.thy ===== *)
theory Pystr
  imports Prelude
begin

text \<open>
  The methods of Python's \<open>str\<close> that split a text into lines and words, for the programs that
  read text: the web interface and the import checker.
\<close>

text \<open>\<open>str.isspace\<close>, and the line boundaries of \<open>str.splitlines\<close>.\<close>

definition py_space :: "nat \<Rightarrow> bool" where
  "py_space c \<longleftrightarrow> 9 \<le> c \<and> c \<le> 13 \<or> 28 \<le> c \<and> c \<le> 32 \<or> c = 133 \<or> c = 160 \<or> c = 5760
     \<or> 8192 \<le> c \<and> c \<le> 8202 \<or> c = 8232 \<or> c = 8233 \<or> c = 8239 \<or> c = 8287 \<or> c = 12288"

definition line_break :: "nat \<Rightarrow> bool" where
  "line_break c \<longleftrightarrow> 10 \<le> c \<and> c \<le> 13 \<or> 28 \<le> c \<and> c \<le> 30 \<or> c = 133 \<or> c = 8232 \<or> c = 8233"

definition strip :: "pystr \<Rightarrow> pystr" where
  "strip s = rev (dropWhile py_space (rev (dropWhile py_space s)))"

text \<open>\<open>str.split()\<close>: the words between runs of white space.\<close>

function split_words :: "pystr \<Rightarrow> pystr list" where
  "split_words s =
     (let s' = dropWhile py_space s in
      if s' = [] then []
      else takeWhile (\<lambda>c. \<not> py_space c) s' # split_words (dropWhile (\<lambda>c. \<not> py_space c) s'))"
  by pat_completeness auto

termination
proof (relation "measure length")
  fix s s' :: pystr
  assume s': "s' = dropWhile py_space s" "s' \<noteq> []"
  then obtain c r where c: "s' = c # r" "\<not> py_space c"
    by (metis hd_Cons_tl hd_dropWhile)
  have "length (dropWhile (\<lambda>c. \<not> py_space c) s') \<le> length r"
    using c by (simp add: length_dropWhile_le)
  also have "\<dots> < length s'" using c by simp
  also have "\<dots> \<le> length s" by (simp add: s'(1) length_dropWhile_le)
  finally show "(dropWhile (\<lambda>c. \<not> py_space c) s', s) \<in> measure length" by simp
qed simp

declare split_words.simps [simp del]

text \<open>\<open>str.splitlines()\<close>; a carriage return and a line feed are one boundary.\<close>

fun lines_from :: "pystr \<Rightarrow> pystr \<Rightarrow> pystr list" where
  "lines_from line [] = (if line = [] then [] else [rev line])"
| "lines_from line (c # s) =
     (if c = 13 \<and> take 1 s = [10] then rev line # lines_from [] (tl s)
      else if line_break c then rev line # lines_from [] s
      else lines_from (c # line) s)"

definition splitlines :: "pystr \<Rightarrow> pystr list" where
  "splitlines s = lines_from [] s"

end
