(* ===== verification/Webui.thy ===== *)
theory Webui
  imports Cli Pystr "HOL-Library.AList"
begin

text \<open>
  \<open>webui/app.py\<close>: the Flask front end.  It runs the command line as a subprocess, parses what
  it prints, and keeps two tables of its own: the recent commands and the names of the files
  uploaded through it.
\<close>

section \<open>Parsing the output of \<open>list\<close>\<close>

type_synonym shown_row = "(pystr \<times> pystr) list"

text \<open>A word with an equals sign sets the key before the first one.\<close>

definition add_word :: "shown_row \<Rightarrow> pystr \<Rightarrow> shown_row" where
  "add_word row w =
     (if 61 \<in> set w then AList.update (takeWhile (\<lambda>c. c \<noteq> 61) w) (tl (dropWhile (\<lambda>c. c \<noteq> 61) w)) row
      else row)"

definition parse_row :: "pystr \<Rightarrow> shown_row option" where
  "parse_row raw =
     (case split_words (strip raw) of
        [] \<Rightarrow> None
      | f # ws \<Rightarrow> Some (foldl add_word [(lit ''file_id'', f)] ws))"

definition parse_list_output :: "pystr \<Rightarrow> shown_row list" where
  "parse_list_output stdout = List.map_filter parse_row (splitlines stdout)"

section \<open>The server's storage, as the page shows it\<close>

text \<open>\<open>path.stem\<close>: the name without its last suffix.\<close>

definition stem :: "pystr \<Rightarrow> pystr" where
  "stem name =
     (let after = takeWhile (\<lambda>c. c \<noteq> 46) (rev name); before = drop (Suc (length after)) (rev name) in
      if 46 \<in> set name \<and> after \<noteq> [] \<and> before \<noteq> [] then rev before else name)"

record web_file =
  wf_file_id :: pystr
  wf_sender :: pystr
  wf_recipient :: pystr
  wf_status :: pystr
  wf_uploaded :: int
  wf_expiration :: int

record web_state =
  pubkeys :: "pystr list"
  web_files :: "web_file list"
  blobs :: "(pystr \<times> nat) list"

text \<open>
  The world of the front end: directories as the system lists them (a name and the size of
  the file, or \<open>None\<close> for what is not a file), the database when it is a file (\<open>Inl\<close> is an
  \<open>OperationalError\<close>), the server's environment, how a process runs under an environment (\<open>None\<close>: it timed out or
  did not start), and the rest.
\<close>

record webenv =
  repo_root :: path
  list_dir :: "path \<Rightarrow> (pystr \<times> nat option) list option"
  metadata :: "(exc + db) option"
  process_env :: "pystr \<rightharpoonup> pystr"
  run_process :: "(pystr \<rightharpoonup> pystr) \<Rightarrow> pystr list \<Rightarrow> filesystem \<Rightarrow> filesystem \<times> (int \<times> pystr \<times> pystr) option"
  python_exe :: pystr
  clock_text :: pystr
  save_fault :: "path \<Rightarrow> exc option"
  to_lower :: "pystr \<Rightarrow> pystr"

definition below :: "path \<Rightarrow> string list \<Rightarrow> path" where
  "below p names = foldl (\<lambda>q n. path_join q (lit n)) p names"

definition web_storage :: "webenv \<Rightarrow> path" where
  "web_storage w = below (repo_root w) [''zerotrust'', ''server'', ''storage'']"

definition web_row :: "frow \<Rightarrow> web_file" where
  "web_row r = \<lparr>wf_file_id = file_id r, wf_sender = sender_id r, wf_recipient = recipient_id r,
     wf_status = status r, wf_uploaded = upload_timestamp r, wf_expiration = expiration r\<rparr>"

definition inspect_state :: "webenv \<Rightarrow> web_state" where
  "inspect_state w =
     \<lparr>pubkeys = (case list_dir w (below (web_storage w) [''pubkeys'']) of
          None \<Rightarrow> []
        | Some es \<Rightarrow> sort (map (stem \<circ> fst) (filter (\<lambda>(n, size). size \<noteq> None) es))),
      web_files = (case metadata w of
          Some (Inr db) \<Rightarrow> map web_row (sort_key (\<lambda>r. - upload_timestamp r) (files db))
        | _ \<Rightarrow> []),
      blobs = (case list_dir w (below (web_storage w) [''files'']) of
          None \<Rightarrow> []
        | Some es \<Rightarrow> sort_key fst (List.map_filter (\<lambda>(n, size). map_option (Pair n) size) es))\<rparr>"

definition RESERVED_USERS :: "pystr list" where
  "RESERVED_USERS = [lit ''server'']"

definition selectable_users :: "web_state \<Rightarrow> pystr list" where
  "selectable_users st = filter (\<lambda>u. u \<notin> set RESERVED_USERS) (pubkeys st)"

definition files_sent_by :: "web_state \<Rightarrow> pystr \<Rightarrow> web_file list" where
  "files_sent_by st user = filter (\<lambda>f. wf_sender f = user) (web_files st)"

section \<open>Subprocesses\<close>

text \<open>\<open>shlex.quote\<close>: unsafe is what is not in \<open>[A-Za-z0-9_@%+=:,./-]\<close>.\<close>

definition shell_safe :: "nat \<Rightarrow> bool" where
  "shell_safe c \<longleftrightarrow> username_char c \<or> c \<in> {64, 37, 43, 61, 58, 44, 46, 47}"

definition shlex_quote :: "pystr \<Rightarrow> pystr" where
  "shlex_quote s =
     (if s = [] then [39, 39]
      else if list_all shell_safe s then s
      else [39] @ concat (map (\<lambda>c. if c = 39 then [39, 34, 39, 34, 39] else [c]) s) @ [39])"

record recent =
  rc_cmd :: pystr
  rc_code :: int
  rc_time :: pystr
  rc_out :: pystr
  rc_err :: pystr

text \<open>What the Flask process keeps, and the files of the machine.\<close>

record web =
  recent_commands :: "recent list"
  upload_filenames :: "(pystr \<times> pystr) list"
  web_disk :: filesystem

definition record_command :: "webenv \<Rightarrow> pystr list \<Rightarrow> int \<times> pystr \<times> pystr \<Rightarrow> web \<Rightarrow> web" where
  "record_command w cmd r st =
     (case r of (code, out, err) \<Rightarrow>
        st\<lparr>recent_commands := take 20
             (\<lparr>rc_cmd = join [32] (map shlex_quote cmd), rc_code = code, rc_time = clock_text w,
               rc_out = strip out, rc_err = strip err\<rparr> # recent_commands st)\<rparr>)"

text \<open>Every process is given the demo password, for the user's key and the authority's.\<close>

definition env_with_password :: "webenv \<Rightarrow> pystr \<rightharpoonup> pystr" where
  "env_with_password w =
     (process_env w)(lit ''ZEROTRUST_USER_PASSWORD'' \<mapsto> lit ''demo-password'',
        lit ''ZEROTRUST_CA_PASSWORD'' \<mapsto> lit ''demo-password'')"

text \<open>A command that times out raises before it is recorded.\<close>

definition run_recorded :: "webenv \<Rightarrow> pystr list \<Rightarrow> web \<Rightarrow> web \<times> (int \<times> pystr \<times> pystr) option" where
  "run_recorded w cmd st =
     (case run_process w (env_with_password w) cmd (web_disk st) of
        (fs', None) \<Rightarrow> (st\<lparr>web_disk := fs'\<rparr>, None)
      | (fs', Some r) \<Rightarrow> (record_command w cmd r (st\<lparr>web_disk := fs'\<rparr>), Some r))"

definition run_cli :: "webenv \<Rightarrow> pystr \<Rightarrow> pystr list \<Rightarrow> web \<Rightarrow> web \<times> (int \<times> pystr \<times> pystr) option" where
  "run_cli w user args =
     run_recorded w ([python_exe w, lit ''-m'', lit ''zerotrust.client.cli'', lit ''--user'', user] @ args)"

definition run_make :: "webenv \<Rightarrow> pystr list \<Rightarrow> web \<Rightarrow> web \<times> (int \<times> pystr \<times> pystr) option" where
  "run_make w targets = run_recorded w (lit ''make'' # targets)"

definition client_path :: "webenv \<Rightarrow> pystr \<Rightarrow> pystr list \<Rightarrow> path" where
  "client_path w user names = foldl path_join (path_join (repo_root w) (lit ''client_'' @ user)) names"

definition client_bundle_exists :: "webenv \<Rightarrow> web \<Rightarrow> pystr \<Rightarrow> bool" where
  "client_bundle_exists w st user \<longleftrightarrow> web_disk st (client_path w user [lit ''private.pem'']) \<noteq> None"

text \<open>\<open>(err or out).strip()\<close>\<close>

definition complaint :: "pystr \<Rightarrow> pystr \<Rightarrow> pystr" where
  "complaint out err = strip (if err \<noteq> [] then err else out)"

definition inbox_for :: "webenv \<Rightarrow> pystr \<Rightarrow> web \<Rightarrow> web \<times> (shown_row list \<times> pystr option) option" where
  "inbox_for w user st =
     (if \<not> client_bundle_exists w st user then
        (st, Some ([], Some (lit ''client_'' @ user @ lit ''/ bundle missing '' @ [8212] @ lit '' bootstrap the user first.'')))
      else
        (case run_cli w user [lit ''list''] st of
           (st', None) \<Rightarrow> (st', None)
         | (st', Some (code, out, err)) \<Rightarrow>
             (st', Some
                (if code \<noteq> 0 then
                   ([], Some (if complaint out err \<noteq> [] then complaint out err else lit ''list exited '' @ str_int code))
                 else (parse_list_output out, None)))))"

section \<open>Routes\<close>

record page =
  p_state :: web_state
  p_users :: "pystr list"
  p_sender :: pystr
  p_inbox_user :: pystr
  p_sent :: "web_file list"
  p_pending :: "shown_row list"
  p_list_err :: "pystr option"
  p_recent :: "recent list"

text \<open>A route answers with the index page, with a redirect to it (its \<open>sender\<close> and \<open>inbox\<close>,
  and a flashed message: error or not), with a file under a name, or with error 500.\<close>

datatype response =
    Page page
  | Redirect "pystr option" "pystr option" "(bool \<times> pystr) option"
  | Attachment path pystr
  | Internal_error

definition form_text :: "(pystr \<times> pystr) list \<Rightarrow> string \<Rightarrow> pystr" where
  "form_text form name = strip (case map_of form (lit name) of None \<Rightarrow> [] | Some v \<Rightarrow> v)"

definition nth_or_empty :: "pystr list \<Rightarrow> nat \<Rightarrow> pystr" where
  "nth_or_empty xs i = (if i < length xs then xs ! i else [])"

text \<open>\<open>(request.args.get(name) or default).strip()\<close>\<close>

definition arg_or :: "(pystr \<times> pystr) list \<Rightarrow> string \<Rightarrow> pystr \<Rightarrow> pystr" where
  "arg_or args name dflt =
     strip (case map_of args (lit name) of None \<Rightarrow> dflt | Some v \<Rightarrow> if v \<noteq> [] then v else dflt)"

definition index_page :: "webenv \<Rightarrow> (pystr \<times> pystr) list \<Rightarrow> web \<Rightarrow> web \<times> response" where
  "index_page w args st =
     (let state = inspect_state w; users = selectable_users state;
          sender = arg_or args ''sender'' (nth_or_empty users 0);
          inbox = arg_or args ''inbox'' (if 1 < length users then users ! 1 else nth_or_empty users 0);
          (st', r) = (if inbox \<noteq> [] then inbox_for w inbox st else (st, Some ([], None))) in
      (st', case r of
         None \<Rightarrow> Internal_error
       | Some (pending, err) \<Rightarrow>
           Page \<lparr>p_state = state, p_users = users, p_sender = sender, p_inbox_user = inbox,
             p_sent = (if sender \<noteq> [] then files_sent_by state sender else []),
             p_pending = pending, p_list_err = err, p_recent = recent_commands st'\<rparr>))"

text \<open>\<open>UPLOAD_OK_RE\<close>: the word after \<open>Uploaded file_id=\<close> at the start of a line.\<close>

definition after_prefix :: "pystr \<Rightarrow> pystr \<Rightarrow> pystr option" where
  "after_prefix p s = (if take (length p) s = p then Some (drop (length p) s) else None)"

definition upload_ok_here :: "pystr \<Rightarrow> pystr option" where
  "upload_ok_here s =
     Option.bind (after_prefix (lit ''Uploaded file_id='') s) (\<lambda>r.
       let word = takeWhile (\<lambda>c. \<not> py_space c) r in if word = [] then None else Some word)"

fun upload_ok_search :: "bool \<Rightarrow> pystr \<Rightarrow> pystr option" where
  "upload_ok_search start [] = None"
| "upload_ok_search start (c # s) =
     (case (if start then upload_ok_here (c # s) else None) of
        Some f \<Rightarrow> Some f
      | None \<Rightarrow> upload_ok_search (c = 10) s)"

definition web_upload :: "webenv \<Rightarrow> (pystr \<times> pystr) list \<Rightarrow> (pystr \<times> bytes) option \<Rightarrow> web \<Rightarrow> web \<times> response" where
  "web_upload w form file st =
     (let sender = form_text form ''sender''; recipient = form_text form ''recipient'' in
      if sender = [] \<or> recipient = [] then
        (st, Redirect (if sender = [] then None else Some sender) None (Some (True, lit ''Sender and recipient are required.'')))
      else
        (case file of
           None \<Rightarrow> (st, Redirect (Some sender) None (Some (True, lit ''No file selected.'')))
         | Some (filename, data) \<Rightarrow>
             if filename = [] then (st, Redirect (Some sender) None (Some (True, lit ''No file selected.'')))
             else
               (let safe_name = path_name (mk_path filename);
                    save_path = path_join (below (repo_root w) [''webui'', ''.uploads'']) safe_name in
                case save_fault w save_path of
                  Some e \<Rightarrow> (st, Internal_error)
                | None \<Rightarrow>
                    (case run_cli w sender [lit ''upload'', recipient, display_path save_path]
                            (st\<lparr>web_disk := (web_disk st)(save_path \<mapsto> data)\<rparr>) of
                       (st', None) \<Rightarrow> (st', Internal_error)
                     | (st', Some (code, out, err)) \<Rightarrow>
                         if code = 0 then
                           ((case upload_ok_search True out of
                               None \<Rightarrow> st'
                             | Some f \<Rightarrow> st'\<lparr>upload_filenames := AList.update f safe_name (upload_filenames st')\<rparr>),
                            Redirect (Some sender) (Some recipient) (Some (False, strip out)))
                         else
                           (st', Redirect (Some sender) (Some recipient) (Some (True, lit ''Upload failed: '' @ complaint out err)))))))"

definition web_download :: "webenv \<Rightarrow> (pystr \<times> pystr) list \<Rightarrow> pystr \<Rightarrow> web \<Rightarrow> web \<times> response" where
  "web_download w args f st =
     (let user = form_text args ''user'' in
      if user = [] then (st, Redirect None None (Some (True, lit ''download needs ?user=<name>'')))
      else
        (case run_cli w user [lit ''download'', f] st of
           (st', None) \<Rightarrow> (st', Internal_error)
         | (st', Some (code, out, err)) \<Rightarrow>
             if code \<noteq> 0 then
               (st', Redirect None (Some user) (Some (True, lit ''Download failed ('' @ user @ lit ''): '' @ complaint out err)))
             else
               (let downloaded = client_path w user [lit ''downloads'', f] in
                if web_disk st' downloaded = None then
                  (st', Redirect None (Some user) (Some (True, lit ''Downloaded file missing at '' @ display_path downloaded)))
                else
                  (st', Attachment downloaded
                     (case map_of (upload_filenames st') f of None \<Rightarrow> f | Some name \<Rightarrow> name)))))"

definition web_revoke :: "webenv \<Rightarrow> (pystr \<times> pystr) list \<Rightarrow> pystr \<Rightarrow> web \<Rightarrow> web \<times> response" where
  "web_revoke w form f st =
     (let sender = form_text form ''sender'' in
      if sender = [] then (st, Redirect None None (Some (True, lit ''revoke needs sender'')))
      else
        (case run_cli w sender [lit ''revoke'', f] st of
           (st', None) \<Rightarrow> (st', Internal_error)
         | (st', Some (code, out, err)) \<Rightarrow>
             (st', Redirect (Some sender) None (Some
                (if code = 0 then (False, if strip out \<noteq> [] then strip out else lit ''Revoked '' @ f)
                 else (True, lit ''Revoke failed: '' @ complaint out err))))))"

text \<open>\<open>^[a-z][a-z0-9_-]{0,30}$\<close>; the name is stripped, so no line feed can end it.\<close>

definition web_username :: "pystr \<Rightarrow> bool" where
  "web_username name \<longleftrightarrow>
     (case name of
        [] \<Rightarrow> False
      | c # s \<Rightarrow> 97 \<le> c \<and> c \<le> 122 \<and> length s \<le> 30
          \<and> list_all (\<lambda>c. 97 \<le> c \<and> c \<le> 122 \<or> 48 \<le> c \<and> c \<le> 57 \<or> c = 95 \<or> c = 45) s)"

definition add_user :: "webenv \<Rightarrow> (pystr \<times> pystr) list \<Rightarrow> web \<Rightarrow> web \<times> response" where
  "add_user w form st =
     (let name = to_lower w (form_text form ''username'') in
      if \<not> web_username name then
        (st, Redirect None None (Some (True,
           lit ''Username must start with a-z and contain only a-z, 0-9, '' @ [39] @ lit ''_'' @ [39]
             @ lit '' or '' @ [39] @ lit ''-'' @ [39] @ lit '' (max 31 chars).'')))
      else if name \<in> set RESERVED_USERS then
        (st, Redirect None None (Some (True, [39] @ name @ [39] @ lit '' is reserved.'')))
      else
        (case run_make w [lit ''user'', lit ''USER='' @ name] st of
           (st', None) \<Rightarrow> (st', Internal_error)
         | (st', Some (code, out, err)) \<Rightarrow>
             (st', Redirect (Some name) None (Some
                (if code = 0 then
                   (False, lit ''Bootstrapped user '' @ [39] @ name @ [39]
                      @ lit '' (cert + client bundle + server registration).'')
                 else
                   (True, lit ''User bootstrap failed: ''
                      @ (if complaint out err \<noteq> [] then last (splitlines (complaint out err))
                         else lit ''exit '' @ str_int code)))))))"

section \<open>What the command line prints, the page shows\<close>

text \<open>A word: no white space in it.\<close>

definition wordy :: "pystr \<Rightarrow> bool" where
  "wordy s \<longleftrightarrow> list_all (\<lambda>c. \<not> py_space c) s"

lemma wordy_simps [simp]: "wordy []" "wordy (c # s) \<longleftrightarrow> \<not> py_space c \<and> wordy s" "wordy (s @ t) \<longleftrightarrow> wordy s \<and> wordy t"
  by (auto simp: wordy_def)

lemma line_break_space: "line_break c \<Longrightarrow> py_space c"
  by (auto simp: line_break_def py_space_def)

lemma py_space_32 [simp]: "py_space 32"
  by (simp add: py_space_def)

lemma takeWhile_word: "wordy w \<Longrightarrow> takeWhile (\<lambda>c. \<not> py_space c) (w @ 32 # s) = w \<and> dropWhile (\<lambda>c. \<not> py_space c) (w @ 32 # s) = 32 # s"
  by (induction w) auto

lemma takeWhile_last_word: "wordy w \<Longrightarrow> takeWhile (\<lambda>c. \<not> py_space c) w = w \<and> dropWhile (\<lambda>c. \<not> py_space c) w = []"
  by (induction w) auto

lemma split_words_space: "split_words (32 # s) = split_words s"
  by (subst (1 2) split_words.simps) simp

lemma dropWhile_word: "wordy w \<Longrightarrow> w \<noteq> [] \<Longrightarrow> dropWhile py_space (w @ s) = w @ s"
  by (cases w) auto

lemma split_words_word:
  assumes "wordy w" "w \<noteq> []"
  shows "split_words (w @ 32 # s) = w # split_words s" "split_words w = [w]"
proof -
  show "split_words (w @ 32 # s) = w # split_words s"
    using assms dropWhile_word [OF assms] takeWhile_word [OF assms(1)]
    by (subst split_words.simps) (simp add: split_words_space)
  have "split_words [] = []" by (subst split_words.simps) simp
  moreover have "dropWhile py_space w = w" using dropWhile_word [OF assms, of "[]"] by simp
  ultimately show "split_words w = [w]"
    by (subst split_words.simps) (simp only: Let_def assms(2) takeWhile_last_word [OF assms(1)] if_False)
qed

text \<open>The lines of a printed text.\<close>

definition stdout_text :: "shell \<Rightarrow> pystr" where
  "stdout_text sh = concat (map (\<lambda>l. l @ [10]) (sh_out sh))"

lemma lines_from_line:
  "list_all (\<lambda>c. \<not> line_break c) l \<Longrightarrow> lines_from acc (l @ 10 # s) = (rev acc @ l) # lines_from [] s"
  by (induction l arbitrary: acc) (auto simp: line_break_def)

lemma splitlines_printed:
  "\<forall>l \<in> set ls. list_all (\<lambda>c. \<not> line_break c) l \<Longrightarrow> splitlines (concat (map (\<lambda>l. l @ [10]) ls)) = ls"
  unfolding splitlines_def by (induction ls) (simp_all add: lines_from_line)

text \<open>One line of the inbox and what it is parsed to.\<close>

definition inbox_line :: "pystr \<Rightarrow> pystr \<Rightarrow> pystr \<Rightarrow> pystr \<Rightarrow> pystr" where
  "inbox_line f sender n x =
     f @ lit '' sender='' @ sender @ lit '' size='' @ n @ lit '' expires='' @ x"

definition inbox_row :: "pystr \<Rightarrow> pystr \<Rightarrow> pystr \<Rightarrow> pystr \<Rightarrow> shown_row" where
  "inbox_row f sender n x =
     [(lit ''file_id'', f), (lit ''sender'', sender), (lit ''size'', n), (lit ''expires'', x)]"

lemma add_word_key: "61 \<notin> set k \<Longrightarrow> add_word row (k @ 61 # v) = AList.update k v row"
proof -
  assume k: "61 \<notin> set k"
  then have "takeWhile (\<lambda>c. c \<noteq> 61) (k @ 61 # v) = k" "dropWhile (\<lambda>c. c \<noteq> 61) (k @ 61 # v) = 61 # v"
    by (induction k) auto
  then show ?thesis by (simp add: add_word_def)
qed

lemma strip_word: "wordy w \<Longrightarrow> w \<noteq> [] \<Longrightarrow> wordy v \<Longrightarrow> v \<noteq> [] \<Longrightarrow> strip (w @ s @ v) = w @ s @ v"
  using dropWhile_word [of w "s @ v"] dropWhile_word [of "rev v" "rev (w @ s)"]
  by (simp add: strip_def) (simp add: wordy_def)

lemma parse_inbox_line:
  assumes "wordy f" "f \<noteq> []" "wordy sender" "wordy n" "wordy x"
  shows "parse_row (inbox_line f sender n x) = Some (inbox_row f sender n x)"
proof -
  define a b c where "a = lit ''sender'' @ 61 # sender" and "b = lit ''size'' @ 61 # n" and "c = lit ''expires'' @ 61 # x"
  have line: "inbox_line f sender n x = f @ 32 # a @ 32 # b @ 32 # c"
    by (simp add: inbox_line_def a_def b_def c_def lit_def)
  have w: "wordy a" "a \<noteq> []" "wordy b" "b \<noteq> []" "wordy c" "c \<noteq> []"
    using assms by (simp_all add: a_def b_def c_def lit_def py_space_def)
  have "strip (inbox_line f sender n x) = f @ 32 # a @ 32 # b @ 32 # c"
    using strip_word [OF assms(1,2) w(5,6), of "32 # a @ 32 # b @ [32]"] by (simp add: line)
  then have "split_words (strip (inbox_line f sender n x)) = [f, a, b, c]"
    using assms(1,2) w by (simp add: split_words_word)
  moreover have "add_word row a = AList.update (lit ''sender'') sender row" "add_word row b = AList.update (lit ''size'') n row"
    "add_word row c = AList.update (lit ''expires'') x row" for row
    unfolding a_def b_def c_def by (rule add_word_key; simp add: lit_def)+
  ultimately show ?thesis by (simp add: parse_row_def inbox_row_def)
qed

lemma digit_not_space: "is_digit c \<Longrightarrow> \<not> py_space c"
  by (simp add: is_digit_def py_space_def)

lemma wordy_str_int: "wordy (str_int i)"
proof -
  have "wordy (dec n)" for n
    using dec_digits [of _ n] digit_not_space by (auto simp: wordy_def list_all_set)
  then show ?thesis by (simp add: str_int_def py_space_def)
qed

lemma wordy_uuid: "wordy (uuid_str n) \<and> uuid_str n \<noteq> []"
proof
  have "\<not> py_space c" if "c \<in> set (uuid_str n)" for c
    using uuid_str_chars [OF that] digit_not_space by (auto simp: py_space_def)
  then show "wordy (uuid_str n)" by (simp add: wordy_def list_all_set)
  show "uuid_str n \<noteq> []" using length_uuid_str [of n] by (metis list.size(3) zero_neq_numeral)
qed

lemma wordy_blob_size: "wordy (py_str show (blob_size v fs f))"
  by (auto simp: blob_size_def Let_def py_str_def wordy_str_int lit_def py_space_def split: option.split)

text \<open>An entry of the server's \<open>PENDING_LIST\<close> and the row of the page it becomes.\<close>

definition pending_dict :: "env \<Rightarrow> filesystem \<Rightarrow> frow \<Rightarrow> jdict" where
  "pending_dict v fs r = the (as_dict (pending_entry v fs r))"

definition page_row :: "env \<Rightarrow> filesystem \<Rightarrow> frow \<Rightarrow> shown_row" where
  "page_row v fs r =
     inbox_row (file_id r) (sender_id r) (py_str (\<lambda>_. []) (blob_size v fs (file_id r))) (str_int (expiration r))"

lemma list_line_entry:
  "list_line c (pending_dict v fs r) = Inr (inbox_line (file_id r) (sender_id r)
     (py_str (\<lambda>_. []) (blob_size v fs (file_id r))) (str_int (expiration r)))"
proof -
  have p: "py_str a (blob_size v fs f) = py_str b (blob_size v fs f)" for a b f
    by (simp add: blob_size_def Let_def py_str_def split: option.split)
  have s: "py_str a (JStr x) = x" "py_str a (JInt i) = str_int i" for a x i
    by (simp_all add: py_str_def)
  show ?thesis
    unfolding list_line_def shown_item_def shown_or_def pending_dict_def pending_entry_def
    by (simp add: jitem_def inbox_line_def s p [where a = "show_json c" and b = "\<lambda>_. []"])
qed

lemma print_lines_Inr: "print_lines (map Inr ls) = \<lparr>sh_end = Exit 0, sh_out = ls, sh_err = []\<rparr>"
  by (induction ls) simp_all

text \<open>Rows that \<open>list\<close> prints as one line of words each.\<close>

definition printable_row :: "frow \<Rightarrow> bool" where
  "printable_row r \<longleftrightarrow> wordy (file_id r) \<and> file_id r \<noteq> [] \<and> wordy (sender_id r)"

lemma parse_printed_inbox:
  assumes "\<forall>r \<in> set rs. printable_row r"
  shows "sh_end (print_lines (map (list_line c) (map (pending_dict v fs) rs))) = Exit 0"
    and "parse_list_output (stdout_text (print_lines (map (list_line c) (map (pending_dict v fs) rs)))) = map (page_row v fs) rs"
proof -
  let ?line = "\<lambda>r. inbox_line (file_id r) (sender_id r) (py_str (\<lambda>_. []) (blob_size v fs (file_id r))) (str_int (expiration r))"
  have p: "print_lines (map (list_line c) (map (pending_dict v fs) rs)) = \<lparr>sh_end = Exit 0, sh_out = map ?line rs, sh_err = []\<rparr>"
    using print_lines_Inr [of "map ?line rs"] by (simp add: list_line_entry comp_def)
  then show "sh_end (print_lines (map (list_line c) (map (pending_dict v fs) rs))) = Exit 0" by simp
  have w: "parse_row (?line r) = Some (page_row v fs r)" if "r \<in> set rs" for r
    using that assms parse_inbox_line wordy_blob_size wordy_str_int by (simp add: printable_row_def page_row_def)
  have b: "list_all (\<lambda>c. \<not> line_break c) w" if "wordy w" for w
    using that line_break_space by (auto simp: wordy_def list_all_set)
  have "\<forall>l \<in> set (map ?line rs). list_all (\<lambda>c. \<not> line_break c) l"
    using assms b wordy_blob_size wordy_str_int
    by (auto simp: inbox_line_def printable_row_def lit_def line_break_def)
  then have "splitlines (stdout_text (print_lines (map (list_line c) (map (pending_dict v fs) rs)))) = map ?line rs"
    unfolding stdout_text_def p by (simp add: splitlines_printed del: map_map)
  moreover have "List.map_filter parse_row (map ?line rs) = map (page_row v fs) rs"
    using w by (induction rs) (simp_all add: map_filter_simps)
  ultimately show "parse_list_output (stdout_text (print_lines (map (list_line c) (map (pending_dict v fs) rs)))) = map (page_row v fs) rs"
    by (simp add: parse_list_output_def)
qed

end
