(* ===== verification/Interleave.thy ===== *)
theory Interleave
  imports Lifecycle
begin

text \<open>
  Handlers that interleave inside each other.  \<open>ThreadingTCPServer\<close> runs one thread per
  connection, each with a database connection of its own; what the threads share is the
  database and the disk.  A handler is cut at its accesses to them: \<open>check_and_record\<close>, the
  reads its checks rest on, and every write is one step (SQLite makes each operation a
  transaction; the write of the temporary file counts as one access, \<open>os.replace\<close> as another).  A handler that
  nobody interrupts is the handler of the sequential model.
\<close>

section \<open>The jobs of a handler\<close>

text \<open>What a thread is about to do, with what it keeps in its local variables.\<close>

datatype job =
    Arrived
  | Checking
  | Storing upload_fields
  | Installing upload_fields
  | Inserting upload_fields
  | Recording signed_request
  | Acknowledging signed_request
  | Revoking signed_request
  | Expiring json
  | Reading json frow

type_synonym answer = "act list \<times> exc option"

definition ends :: "outcome \<Rightarrow> server \<times> (answer + job)" where
  "ends r = (case r of (s, acts, ex) \<Rightarrow> (s, Inl (acts, ex)))"

lemma ends_simps [simp]: "ends (s, acts, ex) = (s, Inl (acts, ex))"
  "fst (ends r) = fst r" "ends r = (s', Inr j) \<longleftrightarrow> False"
  "ends r = (s', Inl (acts', ex')) \<longleftrightarrow> r = (s', acts', ex')"
  by (auto simp: ends_def split: prod.split)

definition has_gate :: "envelope \<Rightarrow> bool" where
  "has_gate e \<longleftrightarrow> e_type e \<in> set (map lit [''UPLOAD_REQUEST'', ''DOWNLOAD_REQUEST'', ''DOWNLOAD_ACK'', ''REVOKE_REQUEST''])"

text \<open>The replay check that lets a request through, with the state it leaves.\<close>

definition admitted :: "env \<Rightarrow> envelope \<Rightarrow> server \<Rightarrow> server option" where
  "admitted w e s =
     Option.bind (b64_field (e_nonce e)) (\<lambda>nonce.
       case replay_check w (sdb s) nonce (e_timestamp e) of
         Inr (db', True) \<Rightarrow> Some (s\<lparr>sdb := db'\<rparr>)
       | _ \<Rightarrow> None)"

text \<open>The checks of each handler as one condition; what fails them is answered by the
  handler's own refusals.\<close>

definition upload_ready :: "env \<Rightarrow> session \<Rightarrow> envelope \<Rightarrow> server \<Rightarrow> upload_fields option" where
  "upload_ready w sess e s =
     (case parse_upload (e_payload e) of
        Inl _ \<Rightarrow> None
      | Inr u \<Rightarrow>
          if verify_certificate (lib w) (t_cert w) (peer_cert sess) (ca_pubkey w)
               (expected_of (peer_subject sess)) = Inr True
             \<and> verify_origin_struct (lib w) (peer_cert sess) (u_signature u) (peer_subject sess)
               (JStr (u_recipient u)) (JStr (u_file_id u)) (sha256_hex (u_ciphertext u))
               (sha256_hex (u_wrapped_key u)) (u_timestamp u) (u_expiration u) = Inr True
             \<and> (case load_verified_pubkey_cert w (sfs s) (JStr (u_recipient u)) of Inr (Some _) \<Rightarrow> True | _ \<Rightarrow> False)
          then Some u else None)"

definition named_row :: "env \<Rightarrow> envelope \<Rightarrow> server \<Rightarrow> (signed_request \<times> frow) option" where
  "named_row w e s =
     (case parse_signed (e_payload e) of
        Inl _ \<Rightarrow> None
      | Inr q \<Rightarrow>
          (case with_fault (get_fault w) (get_file (real_text w) (sdb s) (JStr (r_file_id q))) of
             Inr (Some row) \<Rightarrow> Some (q, row)
           | _ \<Rightarrow> None))"

definition ack_ready :: "env \<Rightarrow> session \<Rightarrow> envelope \<Rightarrow> server \<Rightarrow> signed_request option" where
  "ack_ready w sess e s =
     Option.bind (named_row w e s) (\<lambda>(q, row).
       if peer_subject sess = JStr (recipient_id row)
          \<and> verify_certificate (lib w) (t_cert w) (peer_cert sess) (ca_pubkey w)
            (expected_of (peer_subject sess)) = Inr True
          \<and> receipt_verified w sess q
       then Some q else None)"

definition revoke_ready :: "env \<Rightarrow> session \<Rightarrow> envelope \<Rightarrow> server \<Rightarrow> signed_request option" where
  "revoke_ready w sess e s =
     Option.bind (named_row w e s) (\<lambda>(q, row).
       if peer_subject sess = JStr (sender_id row)
          \<and> verify_certificate (lib w) (t_cert w) (peer_cert sess) (ca_pubkey w)
            (expected_of (peer_subject sess)) = Inr True
          \<and> verify_revoke_struct (lib w) (peer_cert sess) (r_signature q) (peer_subject sess)
            (JStr (r_file_id q)) (r_timestamp q) = Inr True
          \<and> status row = lit ''pending''
       then Some q else None)"

text \<open>The chokepoint up to its update or its grant.\<close>

definition download_ready :: "env \<Rightarrow> session \<Rightarrow> envelope \<Rightarrow> server \<Rightarrow> job option" where
  "download_ready w sess e s =
     Option.bind (map_of (e_payload e) (lit ''file_id'')) (\<lambda>f.
       case with_fault (get_fault w) (get_file (real_text w) (sdb s) f) of
         Inr (Some row) \<Rightarrow>
           if peer_subject sess = JStr (recipient_id row) \<and> status row = lit ''pending''
           then Some (if expiration row \<le> t_auth w then Expiring f else Reading f row)
           else None
       | _ \<Rightarrow> None)"

section \<open>One step of a handler\<close>

definition check_step :: "env \<Rightarrow> session \<Rightarrow> envelope \<Rightarrow> server \<Rightarrow> server \<times> (answer + job)" where
  "check_step w sess e s =
     (if e_type e = lit ''UPLOAD_REQUEST'' then
        (case upload_ready w sess e s of
           None \<Rightarrow> ends (upload_fresh w sess e s) | Some u \<Rightarrow> (s, Inr (Storing u)))
      else if e_type e = lit ''DOWNLOAD_REQUEST'' then
        (case download_ready w sess e s of
           None \<Rightarrow> ends (download_fresh w sess e s) | Some j \<Rightarrow> (s, Inr j))
      else if e_type e = lit ''DOWNLOAD_ACK'' then
        (case ack_ready w sess e s of
           None \<Rightarrow> ends (ack_fresh w sess e s) | Some q \<Rightarrow> (s, Inr (Recording q)))
      else
        (case revoke_ready w sess e s of
           None \<Rightarrow> ends (revoke_fresh w sess e s) | Some q \<Rightarrow> (s, Inr (Revoking q))))"

text \<open>\<open>write_blob\<close> in two: the temporary file is named after the file id alone, so another
  upload of the same id can write or move it in between.\<close>

definition write_tmp :: "disk \<Rightarrow> filesystem \<Rightarrow> path \<Rightarrow> bytes \<Rightarrow> filesystem \<times> exc option" where
  "write_tmp dk fs final ciphertext =
     (case dk of
        OpenFails \<Rightarrow> (fs, Some OSError)
      | WriteFails n \<Rightarrow> (fs(tmp_path_for final \<mapsto> take n ciphertext), Some OSError)
      | _ \<Rightarrow> (fs(tmp_path_for final \<mapsto> ciphertext), None))"

definition install_blob :: "disk \<Rightarrow> filesystem \<Rightarrow> path \<Rightarrow> filesystem \<times> exc option" where
  "install_blob dk fs final =
     (case fs (tmp_path_for final) of
        None \<Rightarrow> (fs, Some FileNotFoundError)
      | Some content \<Rightarrow>
          if dk = ReplaceFails then (fs, Some OSError)
          else ((fs(tmp_path_for final := None))(final \<mapsto> content), None))"

lemma write_blob_cut:
  "write_blob dk fs final c =
     (case write_tmp dk fs final c of
        (fs', Some ex) \<Rightarrow> (fs', Some ex) | (fs', None) \<Rightarrow> install_blob dk fs' final)"
  by (cases dk) (simp_all add: write_blob_def write_tmp_def install_blob_def Let_def)

fun job_step ::
    "env \<Rightarrow> session \<Rightarrow> pystr \<Rightarrow> envelope \<Rightarrow> job \<Rightarrow> server \<Rightarrow> server \<times> (answer + job)" where
  "job_step w sess peer e Arrived s =
     (case (if has_gate e then admitted w e s else None) of
        None \<Rightarrow> ends (dispatch w s sess peer e)
      | Some s1 \<Rightarrow> (s1, Inr Checking))"
| "job_step w sess peer e Checking s = check_step w sess e s"
| "job_step w sess peer e (Storing u) s =
     (if disk w = MkdirFails then ends (abort s [] OSError)
      else
        (case write_tmp (disk w) (sfs s) (file_blob_path_for (cfg w) (u_file_id u)) (u_ciphertext u) of
           (fs, Some ex) \<Rightarrow> ends (upload_answer sess e u (s\<lparr>sfs := fs\<rparr>, Some ex))
         | (fs, None) \<Rightarrow> (s\<lparr>sfs := fs\<rparr>, Inr (Installing u))))"
| "job_step w sess peer e (Installing u) s =
     (case install_blob (disk w) (sfs s) (file_blob_path_for (cfg w) (u_file_id u)) of
        (fs, Some ex) \<Rightarrow> ends (upload_answer sess e u (s\<lparr>sfs := fs\<rparr>, Some ex))
      | (fs, None) \<Rightarrow> (s\<lparr>sfs := fs\<rparr>, Inr (Inserting u)))"
| "job_step w sess peer e (Inserting u) s =
     ends (upload_answer sess e u
       (case insert_row w sess u (sdb s) of
          Inl ex \<Rightarrow> (s, Some ex) | Inr db \<Rightarrow> (s\<lparr>sdb := db\<rparr>, None)))"
| "job_step w sess peer e (Recording q) s =
     (case record_ack w q (sdb s) of
        Inl ex \<Rightarrow> ends (abort s [] ex)
      | Inr db1 \<Rightarrow> (s\<lparr>sdb := db1\<rparr>, Inr (Acknowledging q)))"
| "job_step w sess peer e (Acknowledging q) s = ends (ack_mark w q s)"
| "job_step w sess peer e (Revoking q) s = ends (revoke_mark w sess e q s)"
| "job_step w sess peer e (Expiring f) s =
     ends (download_answer w sess e f s (expire_mark w (sdb s) sess f (request_id e)))"
| "job_step w sess peer e (Reading f row) s = ends (serve_blob w s sess e f row)"

text \<open>A handler that runs alone; five accesses are enough for every one.\<close>

fun run_alone ::
    "nat \<Rightarrow> env \<Rightarrow> session \<Rightarrow> pystr \<Rightarrow> envelope \<Rightarrow> job \<Rightarrow> server \<Rightarrow> outcome option" where
  "run_alone 0 w sess peer e j s = None"
| "run_alone (Suc n) w sess peer e j s =
     (case job_step w sess peer e j s of
        (s', Inl (acts, ex)) \<Rightarrow> Some (s', acts, ex)
      | (s', Inr j') \<Rightarrow> run_alone n w sess peer e j' s')"

section \<open>A handler that runs alone is the sequential handler\<close>

lemma ends_alone [simp]: "(case ends r of (s', Inl (acts, ex)) \<Rightarrow> Some (s', acts, ex) | (s', Inr j') \<Rightarrow> k s' j') = Some r"
  by (cases r) simp

lemma alone_ends: "job_step w sess peer e j s = ends r \<Longrightarrow> run_alone (Suc n) w sess peer e j s = Some r"
  by simp

lemma alone_on:
  "job_step w sess peer e j s = (s', Inr j') \<Longrightarrow>
     run_alone (Suc n) w sess peer e j s = run_alone n w sess peer e j' s'"
  by simp

lemma admitted_iff: "admitted w e s = Some s1 \<longleftrightarrow> gate_passed w e s s1"
proof (cases "b64_field (e_nonce e)")
  case (Some n)
  have "(case replay_check w (sdb s) n (e_timestamp e) of Inr (db', True) \<Rightarrow> Some (s\<lparr>sdb := db'\<rparr>) | _ \<Rightarrow> None) = Some s1
      \<longleftrightarrow> (\<exists>db'. replay_check w (sdb s) n (e_timestamp e) = Inr (db', True) \<and> s1 = s\<lparr>sdb := db'\<rparr>)"
    by (auto split: sum.split prod.split bool.split)
  with Some show ?thesis by (auto simp: admitted_def gate_passed_def replay_check_True)
qed (auto simp: admitted_def gate_passed_def)

lemma upload_ready_iff: "upload_ready w sess e s = Some u \<longleftrightarrow> upload_authorised w s sess e u"
proof -
  have "(case r of Inr (Some _) \<Rightarrow> True | _ \<Rightarrow> False) \<longleftrightarrow> (\<exists>cert. r = Inr (Some cert))" for r :: "(exc + 'a option)"
    by (auto split: sum.split option.split)
  then show ?thesis
    unfolding upload_ready_def upload_authorised_def
    by (auto simp: verify_origin_struct_True split: sum.splits option.splits)
qed

lemma named_row_iff:
  "named_row w e s = Some (q, row) \<longleftrightarrow>
     get_fault w = None \<and> parse_signed (e_payload e) = Inr q \<and> lookup_file (sdb s) (r_file_id q) = Some row"
proof (cases "parse_signed (e_payload e)")
  case (Inr q')
  have "wf_str (r_file_id q')" using Inr parse_signed_wf by simp
  then have "with_fault (get_fault w) (get_file (real_text w) (sdb s) (JStr (r_file_id q'))) = Inr (Some row)
      \<longleftrightarrow> get_fault w = None \<and> lookup_file (sdb s) (r_file_id q') = Some row"
    by (cases "get_fault w") (auto simp: with_fault_def get_file_JStr)
  with Inr show ?thesis by (auto simp: named_row_def split: sum.split_asm option.split_asm)
qed (simp add: named_row_def)

lemma ack_ready_iff:
  "ack_ready w sess e s = Some q \<longleftrightarrow> get_fault w = None \<and> (\<exists>row. ack_authorised w s sess e q row)"
  by (auto simp: ack_ready_def bind_eq_Some_conv named_row_iff ack_authorised_def receipt_verified_def verify_struct_True
      split: if_split_asm)

lemma revoke_ready_iff:
  "revoke_ready w sess e s = Some q \<longleftrightarrow>
     get_fault w = None \<and> (\<exists>row. revoke_authorised w s sess e q row \<and> status row = lit ''pending'')"
  by (auto simp: revoke_ready_def bind_eq_Some_conv named_row_iff revoke_authorised_def verify_revoke_struct_True
      split: if_split_asm)

lemma download_ready_expiring:
  "download_ready w sess e s = Some (Expiring f) \<longleftrightarrow>
     get_fault w = None \<and> map_of (e_payload e) (lit ''file_id'') = Some f
     \<and> (\<exists>row. get_file (real_text w) (sdb s) f = Inr (Some row) \<and> peer_subject sess = JStr (recipient_id row)
        \<and> status row = lit ''pending'' \<and> expiration row \<le> t_auth w)"
  by (cases "get_fault w")
    (auto simp: download_ready_def bind_eq_Some_conv with_fault_def split: sum.split_asm option.split_asm if_split_asm)

lemma download_ready_reading:
  "download_ready w sess e s = Some (Reading f row) \<longleftrightarrow>
     get_fault w = None \<and> map_of (e_payload e) (lit ''file_id'') = Some f
     \<and> get_file (real_text w) (sdb s) f = Inr (Some row)
     \<and> may_download (sdb s) (t_auth w) (peer_subject sess) row"
  using get_file_Some [of "real_text w" "sdb s" f row]
  by (cases "get_fault w")
    (auto simp: download_ready_def bind_eq_Some_conv with_fault_def may_download_def
      split: sum.split_asm option.split_asm if_split_asm)

lemma download_ready_jobs:
  assumes "download_ready w sess e s = Some j"
  obtains f where "j = Expiring f" | f row where "j = Reading f row"
proof -
  obtain f where j: "(case with_fault (get_fault w) (get_file (real_text w) (sdb s) f) of
      Inr (Some row) \<Rightarrow>
        if peer_subject sess = JStr (recipient_id row) \<and> status row = lit ''pending''
        then Some (if expiration row \<le> t_auth w then Expiring f else Reading f row) else None
    | _ \<Rightarrow> None) = Some j"
    using assms unfolding download_ready_def by (auto simp: bind_eq_Some_conv)
  then have "\<exists>row. j = Expiring f \<or> j = Reading f row"
    by (auto split: sum.split_asm option.split_asm if_split_asm)
  then show thesis using that by blast
qed

lemma upload_fresh_ready:
  assumes "upload_ready w sess e s = Some u"
  shows "upload_fresh w sess e s = upload_commit w sess e u s"
proof -
  have a: "upload_authorised w s sess e u" using assms by (simp add: upload_ready_iff)
  then obtain cert where "load_verified_pubkey_cert w (sfs s) (JStr (u_recipient u)) = Inr (Some cert)"
    by (auto simp: upload_authorised_def)
  with a show ?thesis
    by (simp add: upload_fresh_def upload_verified_def upload_authorised_def verify_origin_struct_True [symmetric])
qed

lemma named_row_file:
  assumes "named_row w e s = Some (q, row)"
  shows "parse_signed (e_payload e) = Inr q"
    "with_fault (get_fault w) (get_file (real_text w) (sdb s) (JStr (r_file_id q))) = Inr (Some row)"
proof -
  have n: "get_fault w = None" "parse_signed (e_payload e) = Inr q" "lookup_file (sdb s) (r_file_id q) = Some row"
    using assms by (simp_all add: named_row_iff)
  then show "parse_signed (e_payload e) = Inr q" by simp
  show "with_fault (get_fault w) (get_file (real_text w) (sdb s) (JStr (r_file_id q))) = Inr (Some row)"
    using n parse_signed_wf [OF n(2)] by (simp add: with_fault_def get_file_JStr)
qed

lemma ack_fresh_ready:
  assumes "ack_ready w sess e s = Some q"
  shows "ack_fresh w sess e s = ack_commit w q s"
proof -
  obtain row where r: "named_row w e s = Some (q, row)" "peer_subject sess = JStr (recipient_id row)"
      "verify_certificate (lib w) (t_cert w) (peer_cert sess) (ca_pubkey w) (expected_of (peer_subject sess)) = Inr True"
      "receipt_verified w sess q"
    using assms by (auto simp: ack_ready_def bind_eq_Some_conv split: if_split_asm)
  from named_row_file [OF r(1)] r(2-4) show ?thesis by (simp add: ack_fresh_def)
qed

lemma revoke_fresh_ready:
  assumes "revoke_ready w sess e s = Some q"
  shows "revoke_fresh w sess e s = revoke_mark w sess e q s"
proof -
  obtain row where r: "named_row w e s = Some (q, row)" "peer_subject sess = JStr (sender_id row)"
      "verify_certificate (lib w) (t_cert w) (peer_cert sess) (ca_pubkey w) (expected_of (peer_subject sess)) = Inr True"
      "verify_revoke_struct (lib w) (peer_cert sess) (r_signature q) (peer_subject sess)
         (JStr (r_file_id q)) (r_timestamp q) = Inr True" "status row = lit ''pending''"
    using assms by (auto simp: revoke_ready_def bind_eq_Some_conv split: if_split_asm)
  have "map_of REVOKE_TERMINAL_STATES (lit ''pending'') = None" by (simp add: REVOKE_TERMINAL_STATES_def)
  with named_row_file [OF r(1)] r(2-5) show ?thesis
    by (simp add: revoke_fresh_def revoke_owned_def revoke_commit_def Let_def)
qed

lemma download_fresh_ready:
  assumes "download_ready w sess e s = Some j"
  shows "ends (download_fresh w sess e s) = job_step w sess peer e j s"
  using assms
proof (cases rule: download_ready_jobs)
  case (1 f)
  with assms obtain row where "get_fault w = None" "map_of (e_payload e) (lit ''file_id'') = Some f"
      "get_file (real_text w) (sdb s) f = Inr (Some row)" "peer_subject sess = JStr (recipient_id row)"
      "status row = lit ''pending''" "expiration row \<le> t_auth w"
    by (auto simp: download_ready_expiring)
  with 1 show ?thesis by (simp add: download_fresh_def authorise_download_def with_fault_def)
next
  case (2 f row)
  with assms have "get_fault w = None" "map_of (e_payload e) (lit ''file_id'') = Some f"
      "get_file (real_text w) (sdb s) f = Inr (Some row)"
      "may_download (sdb s) (t_auth w) (peer_subject sess) row"
    by (simp_all add: download_ready_reading)
  then have "authorise_download w (sdb s) sess f (request_id e) = (sdb s, [], Inr (Granted row))"
    by (simp add: authorise_iff)
  with 2 \<open>map_of (e_payload e) (lit ''file_id'') = Some f\<close> show ?thesis
    by (simp add: download_fresh_def download_answer_def split: prod.split)
qed

text \<open>The rest of a request behind the gate.\<close>

definition fresh_of :: "env \<Rightarrow> session \<Rightarrow> envelope \<Rightarrow> server \<Rightarrow> outcome" where
  "fresh_of w sess e =
     (if e_type e = lit ''UPLOAD_REQUEST'' then upload_fresh w sess e
      else if e_type e = lit ''DOWNLOAD_REQUEST'' then download_fresh w sess e
      else if e_type e = lit ''DOWNLOAD_ACK'' then ack_fresh w sess e
      else revoke_fresh w sess e)"

lemma dispatch_admitted:
  assumes "has_gate e" "admitted w e s = Some s1"
  shows "dispatch w s sess peer e = fresh_of w sess e s1"
  using assms replay_gate_passed [of w e s s1]
  by (auto simp: admitted_iff has_gate_def dispatch_def fresh_of_def handle_upload_request_def
      handle_download_request_def handle_download_ack_def handle_revoke_request_def)

lemma run_alone_more: "run_alone n w sess peer e j s = Some r \<Longrightarrow> run_alone (Suc n) w sess peer e j s = Some r"
proof (induction n arbitrary: j s)
  case (Suc n)
  show ?case
  proof (cases "job_step w sess peer e j s")
    case (Pair s' x)
    with Suc show ?thesis by (cases x) auto
  qed
qed simp

lemma upload_alone: "run_alone 3 w sess peer e (Storing u) s = Some (upload_commit w sess e u s)"
  by (auto simp: numeral_3_eq_3 upload_commit_def store_upload_def write_blob_cut Let_def
      split: prod.split option.split sum.split)

lemma ack_alone: "run_alone 2 w sess peer e (Recording q) s = Some (ack_commit w q s)"
  by (auto simp: numeral_2_eq_2 ack_commit_def split: sum.split)

lemma checking_alone:
  assumes "has_gate e"
  shows "run_alone 4 w sess peer e Checking s = Some (fresh_of w sess e s)"
proof -
  have t: "(4::nat) = Suc 3" by simp
  have stop: ?thesis if "check_step w sess e s = ends (fresh_of w sess e s)"
    unfolding t by (rule alone_ends) (simp add: that)
  have on: ?thesis if "check_step w sess e s = (s, Inr j)" "run_alone 3 w sess peer e j s = Some (fresh_of w sess e s)" for j
    unfolding t using that by (subst alone_on [of _ _ _ _ _ _ s j]) simp_all
  have on1: ?thesis if "check_step w sess e s = (s, Inr j)" "job_step w sess peer e j s = ends (fresh_of w sess e s)" for j
  proof (rule on [OF that(1)])
    have "(3::nat) = Suc 2" by simp
    then show "run_alone 3 w sess peer e j s = Some (fresh_of w sess e s)"
      using alone_ends [OF that(2), of 2] by (simp only:)
  qed
  consider "e_type e = lit ''UPLOAD_REQUEST''" | "e_type e = lit ''DOWNLOAD_REQUEST''"
    | "e_type e = lit ''DOWNLOAD_ACK''" | "e_type e = lit ''REVOKE_REQUEST''"
    using assms by (auto simp: has_gate_def)
  then show ?thesis
  proof cases
    case 1
    show ?thesis
    proof (cases "upload_ready w sess e s")
      case None
      with 1 stop show ?thesis by (simp add: check_step_def fresh_of_def)
    next
      case (Some u)
      from on [of "Storing u"] 1 Some show ?thesis
        by (simp add: check_step_def fresh_of_def upload_alone upload_fresh_ready)
    qed
  next
    case 2
    show ?thesis
    proof (cases "download_ready w sess e s")
      case None
      with 2 stop show ?thesis by (simp add: check_step_def fresh_of_def)
    next
      case (Some j)
      from on1 [of j] 2 Some download_fresh_ready [OF Some, of peer] show ?thesis
        by (simp add: check_step_def fresh_of_def)
    qed
  next
    case 3
    show ?thesis
    proof (cases "ack_ready w sess e s")
      case None
      with 3 stop show ?thesis by (simp add: check_step_def fresh_of_def)
    next
      case (Some q)
      from on [of "Recording q"] 3 Some show ?thesis
        using run_alone_more [OF ack_alone, of w sess peer e q s]
        by (simp add: check_step_def fresh_of_def ack_fresh_ready numeral_3_eq_3 numeral_2_eq_2 del: run_alone.simps)
    qed
  next
    case 4
    show ?thesis
    proof (cases "revoke_ready w sess e s")
      case None
      with 4 stop show ?thesis by (simp add: check_step_def fresh_of_def)
    next
      case (Some q)
      from on1 [of "Revoking q"] 4 Some show ?thesis
        by (simp add: check_step_def fresh_of_def revoke_fresh_ready)
    qed
  qed
qed

lemma dispatch_alone: "run_alone 5 w sess peer e Arrived s = Some (dispatch w s sess peer e)"
proof -
  have t: "(5::nat) = Suc 4" by simp
  show ?thesis
  proof (cases "if has_gate e then admitted w e s else None")
    case None
    then have "job_step w sess peer e Arrived s = ends (dispatch w s sess peer e)" by simp
    then show ?thesis unfolding t by (rule alone_ends)
  next
    case (Some s1)
    then have g: "has_gate e" "admitted w e s = Some s1" by (simp_all split: if_split_asm)
    have "job_step w sess peer e Arrived s = (s1, Inr Checking)" using g by simp
    then have "run_alone 5 w sess peer e Arrived s = run_alone 4 w sess peer e Checking s1"
      unfolding t by (rule alone_on)
    then show ?thesis using dispatch_admitted [OF g] checking_alone [OF g(1)] by simp
  qed
qed

end
