(* ===== verification/Concurrent.thy ===== *)
theory Concurrent
  imports Interleave
begin

text \<open>
  The threads of the server and its cleanup thread, interleaved at their accesses to the
  shared state.  What the sequential model promises of the tables still holds, with one
  exception: a status that was checked may have changed when it is overwritten.
\<close>

section \<open>The pool of threads\<close>

record thread =
  th_env :: env
  th_sess :: session
  th_peer :: pystr
  th_msg :: envelope
  th_job :: "answer + job"

record pool =
  shared :: server
  threads :: "thread list"

inductive pool_step :: "crypto \<Rightarrow> bytes \<Rightarrow> pool \<Rightarrow> pool \<Rightarrow> bool" for C ca where
  spawn: "lib (th_env T) = C \<Longrightarrow> ca_pubkey (th_env T) = ca \<Longrightarrow> th_job T = Inr Arrived \<Longrightarrow>
     pool_step C ca p (p\<lparr>threads := threads p @ [T]\<rparr>)"
| run: "i < length (threads p) \<Longrightarrow> threads p ! i = T \<Longrightarrow> th_job T = Inr j \<Longrightarrow>
     job_step (th_env T) (th_sess T) (th_peer T) (th_msg T) j (shared p) = (s', r) \<Longrightarrow>
     pool_step C ca p (p\<lparr>shared := s', threads := (threads p)[i := T\<lparr>th_job := r\<rparr>]\<rparr>)"
| purge: "pool_step C ca p (p\<lparr>shared := (shared p)\<lparr>sdb :=
     fst (purge_old_nonces (sdb (shared p)) NONCE_RETENTION_SECONDS now)\<rparr>\<rparr>)"
| expire: "pool_step C ca p (p\<lparr>shared := (shared p)\<lparr>sdb := fst (mark_expired (sdb (shared p)) now)\<rparr>\<rparr>)"

inductive_cases pool_stepE [elim]: "pool_step C ca p p'"

section \<open>What one step of a handler does to the rows\<close>

lemma arrived_refused:
  assumes "dispatch w s sess peer e = (s', acts, ex)" "(if has_gate e then admitted w e s else None) = None"
  shows "s' = s"
proof (cases "has_gate e")
  case True
  have g: "\<not> gate_passed w e s s1" for s1
    using assms(2) True admitted_iff [of w e s s1] by simp
  have "s' = s" if "replay_gate w s sess e ev who sc k = (s', acts, ex)" for ev who sc k
    using that by (cases rule: replay_gate_cases) (simp_all add: g)
  with True assms(1) show ?thesis
    by (auto simp: has_gate_def dispatch_def handle_upload_request_def handle_download_request_def
        handle_download_ack_def handle_revoke_request_def)
next
  case False
  with assms(1) show ?thesis
    by (auto simp: has_gate_def dispatch_def dest: get_pubkey_state list_pending_state split: if_split_asm)
qed

lemma upload_not_ready:
  assumes "upload_fresh w sess e s = (s', acts, ex)" "upload_ready w sess e s = None"
  shows "s' = s"
  using assms(1)
proof (cases rule: upload_fresh_cases)
  case (committed u)
  then show ?thesis using assms(2) by (simp add: upload_ready_iff [symmetric])
qed

lemma ack_not_ready:
  assumes "ack_fresh w sess e s = (s', acts, ex)" "ack_ready w sess e s = None"
  shows "s' = s"
proof (cases "get_fault w")
  case None
  from assms(1) show ?thesis
  proof (cases rule: ack_fresh_cases)
    case (committed q row)
    then have "ack_ready w sess e s = Some q" using None by (auto simp: ack_ready_iff)
    with assms(2) show ?thesis by simp
  qed
next
  case (Some x)
  with assms(1) show ?thesis
    by (auto simp: ack_fresh_def with_fault_def dest: reject_malformed_cases split: sum.split_asm)
qed

lemma revoke_not_ready:
  assumes "revoke_fresh w sess e s = (s', acts, ex)" "revoke_ready w sess e s = None"
  shows "s' = s"
proof (cases "get_fault w")
  case None
  from assms(1) show ?thesis
  proof (cases rule: revoke_fresh_cases)
    case (committed q row)
    have n: "status row \<noteq> lit ''pending''"
    proof
      assume "status row = lit ''pending''"
      then have "revoke_ready w sess e s = Some q" using None committed(1) by (auto simp: revoke_ready_iff)
      with assms(2) show False by simp
    qed
    from committed(2) show ?thesis by (cases rule: revoke_commit_cases) (simp_all add: n)
  qed
next
  case (Some x)
  with assms(1) show ?thesis
    by (auto simp: revoke_fresh_def with_fault_def dest: reject_malformed_cases split: sum.split_asm)
qed

lemma download_not_ready:
  assumes "download_fresh w sess e s = (s', acts, ex)" "download_ready w sess e s = None"
  shows "s' = s"
proof (cases "map_of (e_payload e) (lit ''file_id'')")
  case None
  with assms(1) show ?thesis by (simp add: download_fresh_def)
next
  case (Some f)
  obtain db' logs v where a: "authorise_download w (sdb s) sess f (request_id e) = (db', logs, v)"
    by (metis prod_cases3)
  from a have "db' = sdb s"
  proof (cases rule: authorise_changes)
    case (expired row)
    show ?thesis
    proof (cases "get_fault w")
      case None
      then have "download_ready w sess e s = Some (Expiring f)"
        using expired Some by (auto simp: download_ready_expiring)
      with assms(2) show ?thesis by simp
    next
      case (Some x)
      with a show ?thesis by (simp add: authorise_download_def with_fault_def)
    qed
  qed
  with a Some assms(1) show ?thesis
    by (auto simp: download_fresh_def download_answer_def elim: serve_blob_cases
        split: sum.split_asm verdict.split_asm prod.split_asm)
qed

lemma check_step_state: "check_step w sess e s = (s', r) \<Longrightarrow> s' = s"
  by (auto simp: check_step_def ends_def split: option.split_asm if_split_asm prod.split_asm
      dest: upload_not_ready download_not_ready ack_not_ready revoke_not_ready)

lemma upload_answer_state: "upload_answer sess e u r = (s', acts, ex) \<Longrightarrow> s' = fst r"
  by (auto simp: upload_answer_def Let_def split: prod.split_asm option.split_asm if_split_asm)

text \<open>
  Only four jobs touch rows: an insertion appends one, and the three updates set the status
  of one row whatever it is by then.
\<close>

definition quiet :: "server \<Rightarrow> server \<Rightarrow> bool" where
  "quiet s s' \<longleftrightarrow> same_db_files s s' \<and> (db_ok (sdb s) \<longrightarrow> db_ok (sdb s'))"

lemma quiet_same: "sdb s' = sdb s \<Longrightarrow> quiet s s'"
  by (simp add: quiet_def same_db_files_def)

lemma insert_row_Inr:
  assumes "insert_row w sess u db = Inr db'"
  obtains sender aad where "bind_text (real_text w) (peer_subject sess) = Inr (Some sender)"
    "lookup_file db (u_file_id u) = None" "db' = db\<lparr>files := files db @ [uploaded_row u sess sender aad]\<rparr>"
  using assms by (auto simp: insert_row_def rbind_Inr_iff insert_file_Inr_iff upload_values_def uploaded_row_def)

lemma insert_row_ok: "insert_row w sess u db = Inr db' \<Longrightarrow> db_ok db \<Longrightarrow> db_ok db'"
  by (auto simp: insert_row_def rbind_Inr_iff upload_values_def STATUSES_def elim!: insert_file_ok)

lemma job_step_cases:
  assumes "job_step w sess peer e j s = (s', r)"
  obtains (same) "quiet s s'"
  | (inserted) u where "j = Inserting u" "insert_row w sess u (sdb s) = Inr (sdb s')"
  | (acknowledged) q where "j = Acknowledging q" "sdb s' = set_status (r_file_id q) (lit ''downloaded'') (sdb s)"
  | (revoked) q where "j = Revoking q" "sdb s' = set_status (r_file_id q) (lit ''revoked'') (sdb s)"
  | (expired) f g where "j = Expiring f" "bind_text (real_text w) f = Inr (Some g)"
      "sdb s' = set_status g (lit ''expired'') (sdb s)"
proof (cases j)
  case Arrived
  show thesis
  proof (cases "if has_gate e then admitted w e s else None")
    case None
    then have "s' = s" using assms Arrived arrived_refused [OF _ None]
      by (auto simp: ends_def split: prod.split_asm)
    then show thesis using same by (simp add: quiet_same)
  next
    case (Some s1)
    then have "gate_passed w e s s1" by (simp add: admitted_iff split: if_split_asm)
    moreover have "s' = s1" using assms Arrived Some by simp
    ultimately show thesis using same same_gate gate_passed_ok by (auto simp: quiet_def)
  qed
next
  case Checking
  then show thesis using assms same by (auto simp: quiet_same dest!: check_step_state)
next
  case (Storing u)
  then have "sdb s' = sdb s"
    using assms by (auto simp: ends_def split: if_split_asm prod.split_asm option.split_asm dest!: upload_answer_state)
  then show thesis using same by (simp add: quiet_same)
next
  case (Installing u)
  then have "sdb s' = sdb s"
    using assms by (auto simp: ends_def split: prod.split_asm option.split_asm dest!: upload_answer_state)
  then show thesis using same by (simp add: quiet_same)
next
  case (Inserting u)
  show thesis
  proof (cases "insert_row w sess u (sdb s)")
    case (Inl x)
    then have "s' = s" using assms Inserting by (auto simp: ends_def split: prod.split_asm dest!: upload_answer_state)
    then show thesis using same by (simp add: quiet_same)
  next
    case (Inr db)
    then have "s' = s\<lparr>sdb := db\<rparr>"
      using assms Inserting by (auto simp: ends_def split: prod.split_asm dest!: upload_answer_state)
    with Inr Inserting inserted show thesis by simp
  qed
next
  case (Recording q)
  then show thesis using assms same
    using record_ack_files record_ack_ok
    by (auto simp: quiet_def same_db_files_def ends_def abort_def split: sum.split_asm)
next
  case (Acknowledging q)
  then show thesis using assms same acknowledged
    by (auto simp: quiet_same ack_mark_def ends_def finish_def abort_def mark_status_JStr
        split: sum.split_asm if_split_asm prod.split_asm)
next
  case (Revoking q)
  then show thesis using assms same revoked
    by (auto simp: quiet_same revoke_mark_def Let_def ends_def finish_def abort_def mark_status_JStr
        split: sum.split_asm if_split_asm prod.split_asm)
next
  case (Expiring f)
  show thesis
  proof (cases "with_fault (mark_fault w) (mark_status (real_text w) (sdb s) f (lit ''expired''))")
    case (Inl x)
    then have "s' = s" using assms Expiring by (simp add: expire_mark_def download_answer_def abort_def)
    then show thesis using same by (simp add: quiet_same)
  next
    case (Inr db)
    then have d: "s' = s\<lparr>sdb := db\<rparr>" using assms Expiring by (simp add: expire_mark_def download_answer_def finish_def)
    from Inr obtain v where "bind_text (real_text w) f = Inr v"
        "db = (case v of None \<Rightarrow> sdb s | Some g \<Rightarrow> set_status g (lit ''expired'') (sdb s))"
      by (auto simp: mark_status_def rbind_Inr_iff split: if_split_asm)
    then show thesis using d Expiring same expired by (cases v) (auto simp: quiet_same)
  qed
next
  case (Reading f row)
  then have "s' = s" using assms by (auto simp: ends_def split: prod.split_asm elim: serve_blob_cases)
  then show thesis using same by (simp add: quiet_same)
qed

section \<open>What a thread has checked\<close>

text \<open>A row keeps everything but its status.\<close>

definition keeps_rows :: "db \<Rightarrow> db \<Rightarrow> bool" where
  "keeps_rows db db' \<longleftrightarrow>
     (\<forall>f row. lookup_file db f = Some row \<longrightarrow> (\<exists>st. lookup_file db' f = Some (row\<lparr>status := st\<rparr>)))"

lemma own_status [simp]: "\<exists>st. (row :: frow) = row\<lparr>status := st\<rparr>"
  by (rule exI [of _ "status row"]) simp

lemma keeps_rows_refl [simp]: "keeps_rows db db"
  by (simp add: keeps_rows_def)

lemma keeps_rows_same: "same_db_files s s' \<Longrightarrow> keeps_rows (sdb s) (sdb s')"
  by (simp add: keeps_rows_def same_db_files_def lookup_file_def)

lemma keeps_rows_set_status: "keeps_rows db (set_status f st db)"
proof -
  have "\<exists>x. (if g = f then row\<lparr>status := st\<rparr> else row) = row\<lparr>status := x\<rparr>" for g and row :: frow
    by (cases "g = f") auto
  then show ?thesis by (auto simp: keeps_rows_def lookup_set_status)
qed

lemma keeps_rows_expire: "keeps_rows db (fst (mark_expired db now))"
proof -
  have "\<exists>x. (if expires now row then row\<lparr>status := lit ''expired''\<rparr> else row) = row\<lparr>status := x\<rparr>" for row
    by (cases "expires now row") auto
  then show ?thesis by (auto simp: keeps_rows_def lookup_mark_expired)
qed

lemma keeps_rows_append: "keeps_rows db (db\<lparr>files := files db @ [row]\<rparr>)"
  by (simp add: keeps_rows_def lookup_append_row)

lemma keeps_rows_trans: "keeps_rows a b \<Longrightarrow> keeps_rows b c \<Longrightarrow> keeps_rows a c"
  unfolding keeps_rows_def by (metis frow.update_convs(6) frow.surjective)

definition still :: "server \<Rightarrow> pystr \<Rightarrow> frow \<Rightarrow> bool" where
  "still s f row \<longleftrightarrow> (\<exists>st. lookup_file (sdb s) f = Some (row\<lparr>status := st\<rparr>))"

lemma still_kept: "keeps_rows (sdb s) (sdb s') \<Longrightarrow> still s f row \<Longrightarrow> still s' f row"
  unfolding still_def keeps_rows_def by fastforce

lemma still_now: "lookup_file (sdb s) f = Some row \<Longrightarrow> still s f row"
  by (simp add: still_def)

text \<open>The row was pending when a revocation or an expiry was decided.\<close>

fun job_ok :: "env \<Rightarrow> session \<Rightarrow> envelope \<Rightarrow> server \<Rightarrow> job \<Rightarrow> bool" where
  "job_ok w sess e s (Storing u) = (\<exists>s0. upload_authorised w s0 sess e u)"
| "job_ok w sess e s (Installing u) = (\<exists>s0. upload_authorised w s0 sess e u)"
| "job_ok w sess e s (Inserting u) = (\<exists>s0. upload_authorised w s0 sess e u)"
| "job_ok w sess e s (Recording q) = (\<exists>s0 row. ack_authorised w s0 sess e q row \<and> still s (r_file_id q) row)"
| "job_ok w sess e s (Acknowledging q) = (\<exists>s0 row. ack_authorised w s0 sess e q row \<and> still s (r_file_id q) row)"
| "job_ok w sess e s (Revoking q) =
     (\<exists>s0 row. revoke_authorised w s0 sess e q row \<and> status row = lit ''pending'' \<and> still s (r_file_id q) row)"
| "job_ok w sess e s (Expiring f) =
     (\<exists>row. bind_text (real_text w) f = Inr (Some (file_id row)) \<and> peer_subject sess = JStr (recipient_id row)
        \<and> status row = lit ''pending'' \<and> expiration row \<le> t_auth w \<and> still s (file_id row) row)"
| "job_ok w sess e s j = True"

lemma job_ok_kept: "job_ok w sess e s j \<Longrightarrow> keeps_rows (sdb s) (sdb s') \<Longrightarrow> job_ok w sess e s' j"
  by (cases j) (auto intro: still_kept)

lemma check_step_ready:
  assumes "check_step w sess e s = (s', Inr j)"
  obtains u where "upload_ready w sess e s = Some u" "j = Storing u"
  | "download_ready w sess e s = Some j"
  | q where "ack_ready w sess e s = Some q" "j = Recording q"
  | q where "revoke_ready w sess e s = Some q" "j = Revoking q"
  using assms by (auto simp: check_step_def split: option.split_asm if_split_asm)

lemma check_step_next:
  assumes "check_step w sess e s = (s', Inr j')"
  shows "job_ok w sess e s j'"
proof -
  have d: "job_ok w sess e s j" if "download_ready w sess e s = Some j" for j
    using that
  proof (cases rule: download_ready_jobs)
    case (1 f)
    with that obtain row where r: "get_file (real_text w) (sdb s) f = Inr (Some row)" "peer_subject sess = JStr (recipient_id row)"
        "status row = lit ''pending''" "expiration row \<le> t_auth w"
      by (auto simp: download_ready_expiring)
    with get_file_Some [OF r(1)] 1 show ?thesis by (auto intro!: exI [of _ row] still_now)
  qed simp
  have a: "job_ok w sess e s (Recording q)" if "ack_ready w sess e s = Some q" for q
    using that by (auto simp: ack_ready_iff ack_authorised_def intro: still_now)
  have r: "job_ok w sess e s (Revoking q)" if "revoke_ready w sess e s = Some q" for q
    using that by (auto simp: revoke_ready_iff revoke_authorised_def intro: still_now)
  have u: "job_ok w sess e s (Storing u)" if "upload_ready w sess e s = Some u" for u
    using that by (auto simp: upload_ready_iff)
  from assms show ?thesis by (cases rule: check_step_ready) (simp_all only: d a r u)
qed

lemma job_step_keeps:
  assumes "job_step w sess peer e j s = (s', r)"
  shows "keeps_rows (sdb s) (sdb s')"
  using assms by (cases rule: job_step_cases)
    (auto simp: quiet_def keeps_rows_append keeps_rows_set_status intro: keeps_rows_same elim!: insert_row_Inr)

lemma job_step_next:
  assumes "job_step w sess peer e j s = (s', Inr j')" "job_ok w sess e s j"
  shows "job_ok w sess e s' j'"
proof -
  have "job_ok w sess e s j'"
  proof (cases j)
    case Checking
    with assms(1) check_step_next show ?thesis by simp
  next
    case (Recording q)
    with assms(1) have "j' = Acknowledging q" by (auto split: sum.split_asm)
    with assms(2) Recording show ?thesis by (simp only: job_ok.simps)
  next
    case (Storing u)
    with assms(1) have "j' = Installing u" by (auto split: if_split_asm prod.split_asm option.split_asm)
    with assms(2) Storing show ?thesis by (simp only: job_ok.simps)
  next
    case (Installing u)
    with assms(1) have "j' = Inserting u" by (auto split: prod.split_asm option.split_asm)
    with assms(2) Installing show ?thesis by (simp only: job_ok.simps)
  qed (use assms in \<open>auto split: option.split_asm if_split_asm prod.split_asm sum.split_asm\<close>)
  then show ?thesis using job_step_keeps [OF assms(1)] by (rule job_ok_kept)
qed

section \<open>The invariant\<close>

lemma job_step_db_ok:
  "job_step w sess peer e j s = (s', r) \<Longrightarrow> db_ok (sdb s) \<Longrightarrow> db_ok (sdb s')"
  by (erule job_step_cases)
    (auto simp: quiet_def STATUSES_def intro: set_status_ok insert_row_ok)

lemma job_step_signed:
  assumes j: "job_step w sess peer e j s = (s', r)" and "job_ok w sess e s j" "lib w = C" "ca_pubkey w = ca"
    and s: "all_signed C ca s"
  shows "all_signed C ca s'"
  using j
proof (cases rule: job_step_cases)
  case same
  then have "same_db_files s s'" by (simp add: quiet_def)
  with s show ?thesis by (simp add: all_signed_same)
next
  case (inserted u)
  obtain s0 where "upload_authorised w s0 sess e u" using assms(2) inserted(1) by auto
  from inserted(2) show ?thesis
    using s uploaded_row_signed [OF \<open>upload_authorised w s0 sess e u\<close> assms(3,4)]
    by (elim insert_row_Inr) (simp add: all_signed_def)
qed (use s in \<open>auto intro: all_signed_set_status\<close>)

definition thread_ok :: "crypto \<Rightarrow> bytes \<Rightarrow> server \<Rightarrow> thread \<Rightarrow> bool" where
  "thread_ok C ca s T \<longleftrightarrow> lib (th_env T) = C \<and> ca_pubkey (th_env T) = ca
     \<and> (\<forall>j. th_job T = Inr j \<longrightarrow> job_ok (th_env T) (th_sess T) (th_msg T) s j)"

definition pool_ok :: "crypto \<Rightarrow> bytes \<Rightarrow> pool \<Rightarrow> bool" where
  "pool_ok C ca p \<longleftrightarrow> db_ok (sdb (shared p)) \<and> (\<forall>T \<in> set (threads p). thread_ok C ca (shared p) T)"

lemma thread_ok_kept: "thread_ok C ca s T \<Longrightarrow> keeps_rows (sdb s) (sdb s') \<Longrightarrow> thread_ok C ca s' T"
  by (auto simp: thread_ok_def intro: job_ok_kept)

lemma keeps_rows_purge: "keeps_rows db (fst (purge_old_nonces db r now))"
  by (simp add: keeps_rows_def)

lemma pool_step_keeps: "pool_step C ca p p' \<Longrightarrow> keeps_rows (sdb (shared p)) (sdb (shared p'))"
  by (elim pool_stepE) (auto simp: keeps_rows_expire keeps_rows_purge dest: job_step_keeps)

lemma all_signed_expire: "all_signed C ca s \<Longrightarrow> all_signed C ca (s\<lparr>sdb := fst (mark_expired (sdb s) now)\<rparr>)"
  by (auto simp: all_signed_def mark_expired_def)

lemma pool_step_ok:
  assumes "pool_step C ca p p'" "pool_ok C ca p"
  shows "pool_ok C ca p'"
  using assms(1)
proof cases
  case (spawn T)
  with assms(2) show ?thesis by (simp add: pool_ok_def thread_ok_def)
next
  case (run i T j s' r)
  have T: "thread_ok C ca (shared p) T" using assms(2) run(2,3) nth_mem by (fastforce simp: pool_ok_def)
  then have c: "lib (th_env T) = C" "ca_pubkey (th_env T) = ca" "job_ok (th_env T) (th_sess T) (th_msg T) (shared p) j"
    using run(4) by (auto simp: thread_ok_def)
  have k: "keeps_rows (sdb (shared p)) (sdb s')" using run(5) by (rule job_step_keeps)
  have "thread_ok C ca s' U" if m: "U \<in> set ((threads p)[i := T\<lparr>th_job := r\<rparr>])" for U
  proof -
    consider "U = T\<lparr>th_job := r\<rparr>" | "U \<in> set (threads p)"
      using m set_update_subset_insert [of "threads p" i "T\<lparr>th_job := r\<rparr>"] by blast
    then show ?thesis
    proof cases
      case 1
      then show ?thesis using c run(5) job_step_next by (auto simp: thread_ok_def)
    next
      case 2
      then show ?thesis using assms(2) k thread_ok_kept by (auto simp: pool_ok_def)
    qed
  qed
  moreover have "db_ok (sdb s')" using job_step_db_ok [OF run(5)] assms(2) by (simp add: pool_ok_def)
  ultimately show ?thesis using run(1) by (simp add: pool_ok_def)
next
  case (purge now)
  with assms(2) pool_step_keeps [OF assms(1)] show ?thesis
    by (auto simp: pool_ok_def purge_ok intro: thread_ok_kept)
next
  case (expire now)
  with assms(2) pool_step_keeps [OF assms(1)] show ?thesis
    by (auto simp: pool_ok_def mark_expired_ok intro: thread_ok_kept)
qed

lemma pool_step_signed:
  assumes "pool_step C ca p p'" "pool_ok C ca p" "all_signed C ca (shared p)"
  shows "all_signed C ca (shared p')"
  using assms(1)
proof cases
  case (run i T j s' r)
  then have "thread_ok C ca (shared p) T" using assms(2) nth_mem by (fastforce simp: pool_ok_def)
  then have "lib (th_env T) = C" "ca_pubkey (th_env T) = ca" "job_ok (th_env T) (th_sess T) (th_msg T) (shared p) j"
    using run(4) by (auto simp: thread_ok_def)
  with job_step_signed [OF run(5)] assms(3) run(1) show ?thesis by simp
qed (use assms(3) all_signed_expire in \<open>auto simp: all_signed_def\<close>)

lemma pool_reach:
  assumes "(pool_step C ca)\<^sup>*\<^sup>* p p'" "pool_ok C ca p"
  shows "pool_ok C ca p' \<and> keeps_rows (sdb (shared p)) (sdb (shared p'))
    \<and> (all_signed C ca (shared p) \<longrightarrow> all_signed C ca (shared p'))"
  using assms(1)
proof (induction rule: rtranclp_induct)
  case base
  with assms(2) show ?case by simp
next
  case (step q r)
  have ok: "pool_ok C ca q" using step.IH by simp
  have "keeps_rows (sdb (shared p)) (sdb (shared r))"
    using step.IH keeps_rows_trans pool_step_keeps [OF step.hyps(2)] by blast
  with pool_step_ok [OF step.hyps(2) ok] pool_step_signed [OF step.hyps(2) ok] step.IH show ?case by blast
qed

section \<open>How statuses move\<close>

text \<open>A file still appears as pending and leaves that status for good, but a final status
  may give way to another one.\<close>

inductive drift :: "pystr option \<Rightarrow> pystr option \<Rightarrow> bool" where
  stay: "drift x x"
| appear: "drift None (Some (lit ''pending''))"
| leave: "st \<in> set (map lit [''downloaded'', ''revoked'', ''expired'']) \<Longrightarrow> drift (Some x) (Some st)"

inductive_simps drift_None [simp]: "drift None y"
inductive_simps drift_Some: "drift (Some x) y"

lemma drift_final:
  "drift x y \<Longrightarrow> x \<noteq> None \<and> x \<noteq> Some (lit ''pending'') \<Longrightarrow> y \<noteq> None \<and> y \<noteq> Some (lit ''pending'')"
  by (cases x) (auto simp: drift_Some)

definition pool_status :: "pool \<Rightarrow> pystr \<Rightarrow> pystr option" where
  "pool_status p = abs_status (shared p)"

lemma set_status_drift:
  assumes "st \<in> set (map lit [''downloaded'', ''revoked'', ''expired''])" "sdb s' = set_status g st (sdb s)"
  shows "drift (abs_status s f) (abs_status s' f)"
  using assms drift.leave [OF assms(1)]
  by (cases "lookup_file (sdb s) f") (auto simp: abs_status_def lookup_set_status intro: drift.stay)

lemma job_step_drift:
  assumes "job_step w sess peer e j s = (s', r)"
  shows "drift (abs_status s f) (abs_status s' f)"
  using assms
proof (cases rule: job_step_cases)
  case same
  then have "same_db_files s s'" by (simp add: quiet_def)
  then show ?thesis by (simp add: abs_status_same drift.stay)
next
  case (inserted u)
  from inserted(2) show ?thesis
  proof (rule insert_row_Inr)
    fix sender aad
    assume d: "sdb s' = (sdb s)\<lparr>files := files (sdb s) @ [uploaded_row u sess sender aad]\<rparr>"
    have "status (uploaded_row u sess sender aad) = lit ''pending''"
      by (simp add: uploaded_row_def row_of_def upload_values_def)
    then show ?thesis
      by (cases "lookup_file (sdb s) f") (auto simp: abs_status_def d lookup_append_row intro: drift.intros)
  qed
next
  case (acknowledged q)
  show ?thesis by (rule set_status_drift [OF _ acknowledged(2)]) simp
next
  case (revoked q)
  show ?thesis by (rule set_status_drift [OF _ revoked(2)]) simp
next
  case (expired g h)
  show ?thesis by (rule set_status_drift [OF _ expired(3)]) simp
qed

lemma pool_step_drift: "pool_step C ca p p' \<Longrightarrow> drift (pool_status p f) (pool_status p' f)"
proof (erule pool_stepE)
  fix now
  assume "p' = p\<lparr>shared := (shared p)\<lparr>sdb := fst (mark_expired (sdb (shared p)) now)\<rparr>\<rparr>"
  then show ?thesis
    by (cases "lookup_file (sdb (shared p)) f")
      (auto simp: pool_status_def abs_status_def lookup_mark_expired intro: drift.intros)
qed (auto simp: pool_status_def abs_status_def intro: drift.stay dest: job_step_drift [unfolded abs_status_def])

interpretation pools: status_system "pool_step C ca" pool_status "pool_ok C ca" drift for C ca
  by unfold_locales (erule pool_step_ok, assumption, erule pool_step_drift)

section \<open>Who may change a status\<close>

definition holds_signed :: "crypto \<Rightarrow> bytes \<Rightarrow> thread \<Rightarrow> pystr \<Rightarrow> pystr \<Rightarrow> (signed_request \<Rightarrow> json) \<Rightarrow> bool" where
  "holds_signed C ca T who f struct \<longleftrightarrow>
     (\<exists>q. parse_signed (e_payload (th_msg T)) = Inr q \<and> r_file_id q = f
        \<and> peer_subject (th_sess T) = JStr who
        \<and> verify_certificate C (t_cert (th_env T)) (peer_cert (th_sess T)) ca (Some (JStr who)) = Inr True
        \<and> signed_by C (peer_cert (th_sess T)) (r_signature q) (struct q))"

definition receipt_from :: "crypto \<Rightarrow> bytes \<Rightarrow> thread \<Rightarrow> frow \<Rightarrow> bool" where
  "receipt_from C ca T row \<longleftrightarrow> holds_signed C ca T (recipient_id row) (file_id row)
     (\<lambda>q. ack_struct (JStr (r_file_id q)) (r_timestamp q))"

definition revocation_from :: "crypto \<Rightarrow> bytes \<Rightarrow> thread \<Rightarrow> frow \<Rightarrow> bool" where
  "revocation_from C ca T row \<longleftrightarrow> holds_signed C ca T (sender_id row) (file_id row)
     (\<lambda>q. revoke_struct (JStr (sender_id row)) (JStr (r_file_id q)) (r_timestamp q))"

definition overdue_for :: "thread \<Rightarrow> frow \<Rightarrow> bool" where
  "overdue_for T row \<longleftrightarrow> peer_subject (th_sess T) = JStr (recipient_id row) \<and> expiration row \<le> t_auth (th_env T)"

lemma receipt_from_status [simp]: "receipt_from C ca T (row\<lparr>status := st\<rparr>) = receipt_from C ca T row"
  and revocation_from_status [simp]: "revocation_from C ca T (row\<lparr>status := st\<rparr>) = revocation_from C ca T row"
  and overdue_for_status [simp]: "overdue_for T (row\<lparr>status := st\<rparr>) = overdue_for T row"
  by (simp_all add: receipt_from_def revocation_from_def overdue_for_def)

lemma ack_authorised_receipt:
  assumes "ack_authorised (th_env T) s0 (th_sess T) (th_msg T) q row" "lib (th_env T) = C" "ca_pubkey (th_env T) = ca"
  shows "receipt_from C ca T row"
  using assms lookup_file_SomeD [of "sdb s0" "r_file_id q" row]
  by (auto simp: ack_authorised_def receipt_from_def holds_signed_def)

lemma revoke_authorised_revocation:
  assumes "revoke_authorised (th_env T) s0 (th_sess T) (th_msg T) q row" "lib (th_env T) = C" "ca_pubkey (th_env T) = ca"
  shows "revocation_from C ca T row"
  using assms lookup_file_SomeD [of "sdb s0" "r_file_id q" row]
  by (auto simp: revoke_authorised_def revocation_from_def holds_signed_def)

text \<open>An update of one row: what it was and what it is now.\<close>

lemma lookup_update:
  assumes "lookup_file db f = Some row" "lookup_file (set_status g st db) f = Some row'" "status row' \<noteq> status row"
  shows "g = f \<and> row' = row\<lparr>status := st\<rparr>"
  using assms by (auto simp: lookup_set_status split: if_split_asm)

lemma job_step_mark:
  assumes j: "job_step (th_env T) (th_sess T) (th_peer T) (th_msg T) j s = (s', r)"
    and ok: "thread_ok C ca s T" "th_job T = Inr j"
    and rows: "lookup_file (sdb s) f = Some row" "lookup_file (sdb s') f = Some row'" "status row' \<noteq> status row"
  shows "status row' = lit ''downloaded'' \<and> receipt_from C ca T row
    \<or> status row' = lit ''revoked'' \<and> revocation_from C ca T row
    \<or> status row' = lit ''expired'' \<and> overdue_for T row"
proof -
  have c: "lib (th_env T) = C" "ca_pubkey (th_env T) = ca" "job_ok (th_env T) (th_sess T) (th_msg T) s j"
    using ok by (auto simp: thread_ok_def)
  have now: "\<exists>st. r0 = row\<lparr>status := st\<rparr>" if "still s f r0" for r0
    using that rows(1) by (auto simp: still_def)
  from j show ?thesis
  proof (cases rule: job_step_cases)
    case same
    then have "lookup_file (sdb s') f = lookup_file (sdb s) f"
      by (simp add: quiet_def same_db_files_def lookup_file_def)
    with rows show ?thesis by simp
  next
    case (inserted u)
    from inserted(2) have "lookup_file (sdb s') f = lookup_file (sdb s) f"
      by (elim insert_row_Inr) (simp add: lookup_append_row rows(1))
    with rows show ?thesis by simp
  next
    case (acknowledged q)
    then have u: "r_file_id q = f" "row' = row\<lparr>status := lit ''downloaded''\<rparr>"
      using lookup_update rows by metis+
    obtain s0 r0 where a: "ack_authorised (th_env T) s0 (th_sess T) (th_msg T) q r0" "still s f r0"
      using c(3) acknowledged(1) u(1) by auto
    from ack_authorised_receipt [OF a(1) c(1,2)] now [OF a(2)] have "receipt_from C ca T row" by auto
    with u(2) show ?thesis by simp
  next
    case (revoked q)
    then have u: "r_file_id q = f" "row' = row\<lparr>status := lit ''revoked''\<rparr>"
      using lookup_update rows by metis+
    obtain s0 r0 where a: "revoke_authorised (th_env T) s0 (th_sess T) (th_msg T) q r0" "still s f r0"
      using c(3) revoked(1) u(1) by auto
    from revoke_authorised_revocation [OF a(1) c(1,2)] now [OF a(2)] have "revocation_from C ca T row" by auto
    with u(2) show ?thesis by simp
  next
    case (expired h g)
    then have u: "g = f" "row' = row\<lparr>status := lit ''expired''\<rparr>"
      using lookup_update rows by metis+
    obtain r0 where a: "file_id r0 = g" "still s (file_id r0) r0" "overdue_for T r0"
      using c(3) expired(1,2) by (auto simp: overdue_for_def)
    from now [of r0] a u(1) have "overdue_for T row" by auto
    with u(2) show ?thesis by simp
  qed
qed

lemma pool_step_mark:
  assumes step: "pool_step C ca p p'" and ok: "pool_ok C ca p"
    and rows: "lookup_file (sdb (shared p)) f = Some row" "lookup_file (sdb (shared p')) f = Some row'"
      "status row' \<noteq> status row"
  shows "status row' = lit ''downloaded'' \<and> (\<exists>T \<in> set (threads p). receipt_from C ca T row)
    \<or> status row' = lit ''revoked'' \<and> (\<exists>T \<in> set (threads p). revocation_from C ca T row)
    \<or> status row' = lit ''expired'' \<and> (status row = lit ''pending'' \<or> (\<exists>T \<in> set (threads p). overdue_for T row))"
  using step
proof cases
  case (run i T j s' r)
  then have T: "T \<in> set (threads p)" by auto
  then have "thread_ok C ca (shared p) T" using ok by (simp add: pool_ok_def)
  from job_step_mark [OF run(5) this run(4) rows(1)] rows(2,3) run(1) T show ?thesis by auto
next
  case (expire now)
  then show ?thesis using rows
    by (auto simp: lookup_mark_expired expires_def split: if_split_asm)
qed (use rows in auto)

section \<open>Running one thread\<close>

abbreviation alone :: "server \<Rightarrow> pool" where
  "alone s \<equiv> \<lparr>shared = s, threads = []\<rparr>"

text \<open>A thread that nobody interrupts is a run of the pool.\<close>

lemma pool_runs_alone:
  assumes "run_alone n (th_env T) (th_sess T) (th_peer T) (th_msg T) j (shared p) = Some (s', acts, ex)"
    and "i < length (threads p)" "threads p ! i = T\<lparr>th_job := Inr j\<rparr>"
  shows "(pool_step C ca)\<^sup>*\<^sup>* p (p\<lparr>shared := s', threads := (threads p)[i := T\<lparr>th_job := Inl (acts, ex)\<rparr>]\<rparr>)"
  using assms
proof (induction n arbitrary: j p)
  case (Suc n)
  obtain s1 r where j: "job_step (th_env T) (th_sess T) (th_peer T) (th_msg T) j (shared p) = (s1, r)" by fastforce
  let ?q = "p\<lparr>shared := s1, threads := (threads p)[i := T\<lparr>th_job := r\<rparr>]\<rparr>"
  have step: "pool_step C ca p ?q"
    using pool_step.run [OF Suc.prems(2,3), of j s1 r C ca] j by simp
  show ?case
  proof (cases r)
    case (Inl a)
    then have "r = Inl (acts, ex)" "s1 = s'" using Suc.prems(1) j by (auto split: prod.split_asm)
    then show ?thesis using step by auto
  next
    case (Inr j')
    have "run_alone n (th_env T) (th_sess T) (th_peer T) (th_msg T) j' (shared ?q) = Some (s', acts, ex)"
      using Suc.prems(1) j Inr by simp
    from Suc.IH [OF this] Inr Suc.prems(2)
    have "(pool_step C ca)\<^sup>*\<^sup>* ?q (p\<lparr>shared := s', threads := (threads p)[i := T\<lparr>th_job := Inl (acts, ex)\<rparr>]\<rparr>)"
      by simp
    with step show ?thesis by (rule converse_rtranclp_into_rtranclp)
  qed
qed simp

lemma revoke_mark_done:
  assumes "mark_fault w = None" "wf_str (r_file_id q)"
  obtains acts where "revoke_mark w sess e q s = (s\<lparr>sdb := set_status (r_file_id q) (lit ''revoked'') (sdb s)\<rparr>, acts, None)"
    "sends acts = [revoke_reply q]"
proof -
  have "mark_status (real_text w) (sdb s) (JStr (r_file_id q)) (lit ''revoked'') =
      Inr (set_status (r_file_id q) (lit ''revoked'') (sdb s))"
    using assms(2) by (simp add: mark_status_JStr STATUSES_def)
  with assms(1) that show thesis by (simp add: revoke_mark_def Let_def finish_def)
qed

text \<open>
  A revocation that has been checked, a request of another thread that runs whole, and then
  the update of the revocation.
\<close>

lemma overtaken_revocation:
  assumes g: "gate_passed (th_env T1) (th_msg T1) s0 s1"
    and r: "e_type (th_msg T1) = lit ''REVOKE_REQUEST''"
      "revoke_ready (th_env T1) (th_sess T1) (th_msg T1) s1 = Some q"
    and d: "dispatch (th_env T2) s1 (th_sess T2) (th_peer T2) (th_msg T2) = (s2, acts2, ex2)"
    and m: "revoke_mark (th_env T1) (th_sess T1) (th_msg T1) q s2 = (s3, acts1, ex1)"
    and C: "lib (th_env T1) = C" "ca_pubkey (th_env T1) = ca" "lib (th_env T2) = C" "ca_pubkey (th_env T2) = ca"
  shows "(pool_step C ca)\<^sup>*\<^sup>* (alone s0)
      \<lparr>shared = s2, threads = [T1\<lparr>th_job := Inr (Revoking q)\<rparr>, T2\<lparr>th_job := Inl (acts2, ex2)\<rparr>]\<rparr>"
    and "pool_step C ca
      \<lparr>shared = s2, threads = [T1\<lparr>th_job := Inr (Revoking q)\<rparr>, T2\<lparr>th_job := Inl (acts2, ex2)\<rparr>]\<rparr>
      \<lparr>shared = s3, threads = [T1\<lparr>th_job := Inl (acts1, ex1)\<rparr>, T2\<lparr>th_job := Inl (acts2, ex2)\<rparr>]\<rparr>"
proof -
  let ?A = "Inr Arrived :: answer + job"
  let ?t1 = "\<lambda>j. T1\<lparr>th_job := j\<rparr>" and ?t2 = "\<lambda>j. T2\<lparr>th_job := j\<rparr>"
  have gate: "has_gate (th_msg T1)" using r(1) by (simp add: has_gate_def)
  have a: "admitted (th_env T1) (th_msg T1) s0 = Some s1" using g by (simp add: admitted_iff)
  have 1: "pool_step C ca (alone s0) \<lparr>shared = s0, threads = [?t1 ?A]\<rparr>"
    using pool_step.spawn [of "?t1 ?A" C ca "alone s0"] C by simp
  have 2: "pool_step C ca \<lparr>shared = s0, threads = [?t1 ?A]\<rparr> \<lparr>shared = s0, threads = [?t1 ?A, ?t2 ?A]\<rparr>"
    using pool_step.spawn [of "?t2 ?A" C ca "\<lparr>shared = s0, threads = [?t1 ?A]\<rparr>"] C by simp
  have 3: "pool_step C ca \<lparr>shared = s0, threads = [?t1 ?A, ?t2 ?A]\<rparr>
      \<lparr>shared = s1, threads = [?t1 (Inr Checking), ?t2 ?A]\<rparr>"
    using pool_step.run [of 0 "\<lparr>shared = s0, threads = [?t1 ?A, ?t2 ?A]\<rparr>" "?t1 ?A" Arrived s1 "Inr Checking" C ca] gate a
    by simp
  have "check_step (th_env T1) (th_sess T1) (th_msg T1) s1 = (s1, Inr (Revoking q))"
    using r by (simp add: check_step_def)
  then have 4: "pool_step C ca \<lparr>shared = s1, threads = [?t1 (Inr Checking), ?t2 ?A]\<rparr>
      \<lparr>shared = s1, threads = [?t1 (Inr (Revoking q)), ?t2 ?A]\<rparr>"
    using pool_step.run [of 0 "\<lparr>shared = s1, threads = [?t1 (Inr Checking), ?t2 ?A]\<rparr>" "?t1 (Inr Checking)"
        Checking s1 "Inr (Revoking q)" C ca]
    by simp
  have 5: "(pool_step C ca)\<^sup>*\<^sup>* \<lparr>shared = s1, threads = [?t1 (Inr (Revoking q)), ?t2 ?A]\<rparr>
      \<lparr>shared = s2, threads = [?t1 (Inr (Revoking q)), ?t2 (Inl (acts2, ex2))]\<rparr>"
    using pool_runs_alone [of 5 T2 Arrived "\<lparr>shared = s1, threads = [?t1 (Inr (Revoking q)), ?t2 ?A]\<rparr>" s2 acts2 ex2 1 C ca]
      dispatch_alone [of "th_env T2" "th_sess T2" "th_peer T2" "th_msg T2" s1] d
    by (simp del: run_alone.simps)
  from 1 2 3 4 5 show "(pool_step C ca)\<^sup>*\<^sup>* (alone s0)
      \<lparr>shared = s2, threads = [?t1 (Inr (Revoking q)), ?t2 (Inl (acts2, ex2))]\<rparr>"
    by (meson converse_rtranclp_into_rtranclp)
  show "pool_step C ca \<lparr>shared = s2, threads = [?t1 (Inr (Revoking q)), ?t2 (Inl (acts2, ex2))]\<rparr>
      \<lparr>shared = s3, threads = [?t1 (Inl (acts1, ex1)), ?t2 (Inl (acts2, ex2))]\<rparr>"
    using pool_step.run [of 0 "\<lparr>shared = s2, threads = [?t1 (Inr (Revoking q)), ?t2 (Inl (acts2, ex2))]\<rparr>"
        "?t1 (Inr (Revoking q))" "Revoking q" s3 "Inl (acts1, ex1)" C ca] m
    by simp
qed

text \<open>
  Two uploads of one file id: the second writes the shared temporary file between the write
  and the move of the first.  The first is acknowledged, with its own row and the second
  one's ciphertext in the file.
\<close>

lemma mixed_uploads:
  assumes one: "job_step w1 sess1 peer1 e1 (Storing u1) s = (s1, Inr (Installing u1))"
    and two: "job_step w2 sess2 peer2 e2 (Storing u2) s1 = (s2, Inr (Installing u2))"
    and one': "job_step w1 sess1 peer1 e1 (Installing u1) s2 = (s3, Inr (Inserting u1))"
    and row: "insert_row w1 sess1 u1 (sdb s3) = Inr db" "job_step w1 sess1 peer1 e1 (Inserting u1) s3 = (s4, Inl (acts, ex))"
    and same: "u_file_id u1 = u_file_id u2" "cfg w1 = cfg w2"
  shows "ex = None \<and> was_sent acts (lit ''UPLOAD_ACK'')
    \<and> sfs s4 (file_blob_path_for (cfg w1) (u_file_id u1)) = Some (u_ciphertext u2)
    \<and> (\<exists>r. lookup_file (sdb s4) (u_file_id u1) = Some r \<and> ciphertext_sha256 r = sha256_hex (u_ciphertext u1))"
proof -
  let ?p = "file_blob_path_for (cfg w1) (u_file_id u1)"
  have "sfs s2 (tmp_path_for ?p) = Some (u_ciphertext u2)"
    using two same by (cases "disk w2") (auto simp: write_tmp_def)
  then have "sfs s3 ?p = Some (u_ciphertext u2)"
    using one' by (cases "disk w1") (auto simp: install_blob_def)
  moreover have "s4 = s3\<lparr>sdb := db\<rparr>" "ex = None" "was_sent acts (lit ''UPLOAD_ACK'')"
    using row by (auto simp: upload_answer_def ends_def finish_def was_sent_def)
  moreover obtain sender aad where "db = (sdb s3)\<lparr>files := files (sdb s3) @ [uploaded_row u1 sess1 sender aad]\<rparr>"
      "lookup_file (sdb s3) (u_file_id u1) = None"
    using row(1) by (rule insert_row_Inr)
  then have "lookup_file db (u_file_id u1) = Some (uploaded_row u1 sess1 sender aad)"
    by (simp add: lookup_append_row uploaded_row_def row_of_def upload_values_def)
  ultimately show ?thesis by (simp add: uploaded_row_def row_of_def upload_values_def)
qed

end
