(* ===== verification/Timed.thy ===== *)
theory Timed
  imports Lifecycle
begin

text \<open>
  The server's steps with a clock: no step reads the replay clock earlier than a step
  before it.  What the replay cache promises, seen from the requests.
\<close>

inductive timed_step :: "crypto \<Rightarrow> bytes \<Rightarrow> int \<times> server \<Rightarrow> int \<times> server \<Rightarrow> bool" for C ca where
  request: "lib w = C \<Longrightarrow> ca_pubkey w = ca \<Longrightarrow> t \<le> t_replay w \<Longrightarrow>
     dispatch w s sess peer e = (s', acts, ex) \<Longrightarrow> timed_step C ca (t, s) (t_replay w, s')"
| cleanup: "t \<le> global_now k \<Longrightarrow>
     timed_step C ca (t, s) (global_now k, s\<lparr>sdb := fst (run_cleanup_pass k (sdb s))\<rparr>)"

inductive_cases timed_stepE [elim]: "timed_step C ca (t, s) (t', s')"

lemma timed_is_step: "timed_step C ca (t, s) (t', s') \<Longrightarrow> sys_step C ca s s' \<and> t \<le> t'"
  by (elim timed_stepE) (auto intro: sys_step.intros)

section \<open>The nonces a step records\<close>

definition nonces_step :: "env \<Rightarrow> envelope \<Rightarrow> server \<Rightarrow> server \<Rightarrow> bool" where
  "nonces_step w e s s' \<longleftrightarrow> seen_nonces (sdb s') = seen_nonces (sdb s)
     \<or> (\<exists>s1. gate_passed w e s s1 \<and> seen_nonces (sdb s') = seen_nonces (sdb s1))"

lemma only_nonce_nonces: "only_nonce w e s s' \<Longrightarrow> nonces_step w e s s'"
  by (auto simp: only_nonce_def nonces_step_def)

lemma expiry_only_nonces: "expiry_only w sess db db' \<Longrightarrow> seen_nonces db' = seen_nonces db"
  by (auto simp: expiry_only_def set_status_def)

lemma upload_done_nonces: "upload_done w sess u s s' \<Longrightarrow> seen_nonces (sdb s') = seen_nonces (sdb s)"
  by (auto elim!: upload_done_row)

lemma acked_nonces: "acked w q s s' \<Longrightarrow> seen_nonces (sdb s') = seen_nonces (sdb s)"
  by (auto simp: acked_def set_status_def dest: record_ack_files)

lemma half_acked_nonces: "half_acked w q s s' \<Longrightarrow> seen_nonces (sdb s') = seen_nonces (sdb s)"
  by (auto simp: half_acked_def dest: record_ack_files)

lemma dispatch_nonces:
  assumes "dispatch w s sess peer e = (s', acts, ex)"
  shows "nonces_step w e s s'"
proof -
  have u: ?thesis if "handle_upload_request w s sess e = (s', acts, ex)"
    using that by (cases rule: handle_upload_cases)
      (auto simp: nonces_step_def upload_done_nonces dest: only_nonce_nonces [unfolded nonces_step_def])
  have d: ?thesis if "handle_download_request w s sess e = (s', acts, ex)"
    using that by (cases rule: handle_download_cases) (auto simp: nonces_step_def dest: expiry_only_nonces)
  have k: ?thesis if "handle_download_ack w s sess e = (s', acts, ex)"
    using that by (cases rule: handle_ack_cases)
      (auto simp: nonces_step_def dest: only_nonce_nonces [unfolded nonces_step_def] acked_nonces half_acked_nonces)
  have r: ?thesis if "handle_revoke_request w s sess e = (s', acts, ex)"
    using that by (cases rule: handle_revoke_cases)
      (auto simp: nonces_step_def set_status_def dest: only_nonce_nonces [unfolded nonces_step_def])
  have same: ?thesis if "s' = s" using that by (simp add: nonces_step_def)
  show ?thesis
    using assms u d k r same unfolding dispatch_def
    by (auto dest: get_pubkey_state list_pending_state split: if_split_asm)
qed

section \<open>An accepted request is remembered\<close>

lemma gate_history:
  assumes "gate_passed w e s s1"
  obtains n ts where "b64_field (e_nonce e) = Some n" "as_int (e_timestamp e) = Some ts"
    "check_and_record (sdb s) n ts (t_replay w) = (sdb s1, True)"
  using assms by (auto simp: gate_passed_def)

lemma cleanup_nonces:
  "seen_nonces (fst (run_cleanup_pass k db)) \<in> {seen_nonces db, seen_nonces (purge_pass db (global_now k))}"
  by (auto simp: run_cleanup_pass_def purge_pass_def mark_expired_def split: option.split prod.split)

text \<open>Every step leaves the nonces alone, checks one or purges them.\<close>

lemma timed_remembers:
  assumes "timed_step C ca (t1, s1) (t2, s2)" "remembered t1 (sdb s1) n ts"
  shows "remembered t2 (sdb s2) n ts"
proof -
  have le: "t1 \<le> t2" using timed_is_step assms(1) by blast
  have keep: ?thesis if "seen_nonces (sdb s2) = seen_nonces (sdb s1)"
    using remembered_same [OF assms(2) that le] .
  from assms(1) show ?thesis
  proof (elim timed_stepE)
    fix w sess peer e acts ex
    assume r: "dispatch w s1 sess peer e = (s2, acts, ex)"
    from dispatch_nonces [OF r] show ?thesis
      unfolding nonces_step_def
    proof (elim disjE exE conjE)
      fix s' assume g: "gate_passed w e s1 s'" "seen_nonces (sdb s2) = seen_nonces (sdb s')"
      obtain m us where "check_and_record (sdb s1) m us (t_replay w) = (sdb s', True)"
        using g(1) by (rule gate_history)
      then show ?thesis
        using remembered_step [OF assms(2), of "sdb s2" "Check m us (t_replay w)" t2] g(2) le
        by (simp add: purged_by_def)
    qed (rule keep)
  next
    fix k
    assume c: "t2 = global_now k" "s2 = s1\<lparr>sdb := fst (run_cleanup_pass k (sdb s1))\<rparr>"
    then have "seen_nonces (sdb s2) \<in> {seen_nonces (sdb s1), seen_nonces (purge_pass (sdb s1) (global_now k))}"
      using cleanup_nonces by simp
    then show ?thesis
      using keep remembered_step [OF assms(2), of "sdb s2" "Purge (global_now k)" t2] c(1) le
      by (auto simp: purged_by_def)
  qed
qed

text \<open>A nonce let through once is not let through again.\<close>

lemma gate_once:
  assumes g: "gate_passed w e s s1" and n: "seen_nonces (sdb s') = seen_nonces (sdb s1)"
    and run: "(timed_step C ca)\<^sup>*\<^sup>* (t_replay w, s') (t2, s2)" and t: "t2 \<le> t_replay w2"
    and same: "e_nonce e2 = e_nonce e" "e_timestamp e2 = e_timestamp e"
  shows "\<not> gate_passed w2 e2 s2 s3"
proof
  assume g2: "gate_passed w2 e2 s2 s3"
  obtain m ts where a: "b64_field (e_nonce e) = Some m" "as_int (e_timestamp e) = Some ts"
      "check_and_record (sdb s) m ts (t_replay w) = (sdb s1, True)"
    using g by (rule gate_history)
  have "remembered (t_replay w) (sdb s') m ts"
    using remembered_same [OF remembered_now [OF a(3)] n order_refl] .
  with run have "remembered t2 (sdb s2) m ts"
    by (induction rule: rtranclp_induct2) (auto intro: timed_remembers)
  then have "\<not> snd (check_and_record (sdb s2) m ts (t_replay w2))"
    using t by (intro remembered_refuses) auto
  moreover from g2 have "snd (check_and_record (sdb s2) m ts (t_replay w2))"
    using a same by (auto simp: gate_passed_def)
  ultimately show False by simp
qed

section \<open>What has an effect has passed the gate\<close>

definition EFFECTS :: "pystr set" where
  "EFFECTS = {lit ''UPLOAD_ACK'', lit ''DOWNLOAD_RESPONSE'', lit ''ACK_OK'', lit ''REVOKE_ACK''}"

lemma dispatch_effect:
  assumes "dispatch w s sess peer e = (s', acts, ex)" "t \<in> EFFECTS" "was_sent acts t"
  shows "\<exists>s1. gate_passed w e s s1 \<and> seen_nonces (sdb s') = seen_nonces (sdb s1)"
proof -
  have none: "\<not> was_sent acts t" if "one_error acts ex"
    using that assms(2) by (auto simp: one_error_def was_sent_def EFFECTS_def)
  have u: ?thesis if "handle_upload_request w s sess e = (s', acts, ex)"
    using that assms(3) none by (cases rule: handle_upload_cases) (auto dest: upload_done_nonces)
  have d: ?thesis if "handle_download_request w s sess e = (s', acts, ex)"
    using that assms(3) none by (cases rule: handle_download_cases) auto
  have k: ?thesis if "handle_download_ack w s sess e = (s', acts, ex)"
    using that assms(3) none by (cases rule: handle_ack_cases) (auto dest: acked_nonces)
  have r: ?thesis if "handle_revoke_request w s sess e = (s', acts, ex)"
    using that assms(3) none by (cases rule: handle_revoke_cases) (auto simp: set_status_def)
  have g: False if "handle_get_pubkey w s sess e = (s', acts, ex)"
    using that assms(2,3) unfolding handle_get_pubkey_def Let_def
    by (auto simp: was_sent_def EFFECTS_def split: sum.split_asm option.split_asm)
  have l: False if "handle_list_pending w s sess e = (s', acts, ex)"
    using that assms(2,3) unfolding handle_list_pending_def Let_def
    by (auto simp: was_sent_def EFFECTS_def split: sum.split_asm)
  show ?thesis
    using assms u d k r g l unfolding dispatch_def
    by (auto simp: was_sent_def EFFECTS_def split: if_split_asm)
qed

text \<open>Without passing the gate, a request leaves the tables alone.\<close>

lemma dispatch_not_passed:
  assumes "dispatch w s sess peer e = (s', acts, ex)" "\<forall>s1. \<not> gate_passed w e s s1"
  shows "sdb s' = sdb s \<and> (\<forall>t \<in> EFFECTS. \<not> was_sent acts t)"
proof -
  have "\<forall>t \<in> EFFECTS. \<not> was_sent acts t" using dispatch_effect [OF assms(1)] assms(2) by blast
  moreover have "sdb s' = sdb s"
  proof -
    have gate: "s' = s" if "replay_gate w s sess e ev who scope k = (s', acts, ex)" for ev who scope k
      using that assms(2) by (cases rule: replay_gate_cases) auto
    show ?thesis
      using assms(1) unfolding dispatch_def handle_upload_request_def handle_download_request_def
        handle_download_ack_def handle_revoke_request_def
      by (auto dest: get_pubkey_state list_pending_state gate split: if_split_asm)
  qed
  ultimately show ?thesis by blast
qed

end
