(* ===== verification/Pool_Time.thy ===== *)
theory Pool_Time
  imports Concurrent Timed
begin

text \<open>
  The replay cache under interleaving.  A thread reads the clock before its transaction, so
  the reading may be old when the nonce is looked up; the latest clock reading of a purge is
  kept beside the pool, and a replay check may lag behind it by \<open>REPLAY_SLACK\<close> seconds.
\<close>

inductive clocked_step :: "crypto \<Rightarrow> bytes \<Rightarrow> int \<times> pool \<Rightarrow> int \<times> pool \<Rightarrow> bool" for C ca where
  spawn: "lib (th_env T) = C \<Longrightarrow> ca_pubkey (th_env T) = ca \<Longrightarrow> th_job T = Inr Arrived \<Longrightarrow>
     clocked_step C ca (t, p) (t, p\<lparr>threads := threads p @ [T]\<rparr>)"
| run: "i < length (threads p) \<Longrightarrow> threads p ! i = T \<Longrightarrow> th_job T = Inr j \<Longrightarrow>
     j = Arrived \<longrightarrow> t \<le> t_replay (th_env T) + REPLAY_SLACK \<Longrightarrow>
     job_step (th_env T) (th_sess T) (th_peer T) (th_msg T) j (shared p) = (s', r) \<Longrightarrow>
     clocked_step C ca (t, p) (t, p\<lparr>shared := s', threads := (threads p)[i := T\<lparr>th_job := r\<rparr>]\<rparr>)"
| purge: "clocked_step C ca (t, p) (max t now, p\<lparr>shared := (shared p)\<lparr>sdb := purge_pass (sdb (shared p)) now\<rparr>\<rparr>)"
| expire: "clocked_step C ca (t, p) (t, p\<lparr>shared := (shared p)\<lparr>sdb := fst (mark_expired (sdb (shared p)) now)\<rparr>\<rparr>)"

lemma clocked_is_step: "clocked_step C ca (t, p) (t', p') \<Longrightarrow> pool_step C ca p p' \<and> t \<le> t'"
  by (elim clocked_step.cases) (auto simp: purge_pass_def intro: pool_step.intros)

section \<open>Who is past the gate\<close>

text \<open>A thread past its replay check that is still running, or that has answered with
  anything but an error.\<close>

definition past_gate :: "thread \<Rightarrow> bool" where
  "past_gate T \<longleftrightarrow> has_gate (th_msg T)
     \<and> (case th_job T of Inr j \<Rightarrow> j \<noteq> Arrived | Inl (acts, ex) \<Rightarrow> \<exists>m \<in> EFFECTS. was_sent acts m)"

definition token :: "thread \<Rightarrow> bytes option \<times> int option" where
  "token T = (b64_field (e_nonce (th_msg T)), as_int (e_timestamp (th_msg T)))"

lemma token_job [simp]: "token (T\<lparr>th_job := r\<rparr>) = token T"
  by (simp add: token_def)

lemma insert_row_nonces: "insert_row w sess u db = Inr db' \<Longrightarrow> seen_nonces db' = seen_nonces db"
  by (auto elim!: insert_row_Inr)

lemma job_step_nonces:
  assumes "job_step w sess peer e j s = (s', r)" "j \<noteq> Arrived"
  shows "seen_nonces (sdb s') = seen_nonces (sdb s)"
proof (cases j)
  case (Inserting u)
  with assms show ?thesis
    by (auto simp: ends_def split: prod.split_asm sum.split_asm dest!: upload_answer_state insert_row_nonces)
next
  case (Recording q)
  with assms show ?thesis using record_ack_files
    by (auto simp: ends_def abort_def split: sum.split_asm)
next
  case Checking
  with assms show ?thesis by (auto dest!: check_step_state)
next
  case (Storing u)
  with assms show ?thesis
    by (auto simp: ends_def abort_def split: if_split_asm prod.split_asm option.split_asm dest!: upload_answer_state)
next
  case (Installing u)
  with assms show ?thesis
    by (auto simp: ends_def split: prod.split_asm option.split_asm dest!: upload_answer_state)
next
  case (Reading f row)
  with assms show ?thesis by (auto simp: ends_def split: prod.split_asm elim: serve_blob_cases)
next
  case (Acknowledging q)
  with assms show ?thesis
    by (auto simp: ack_mark_def ends_def finish_def abort_def mark_status_JStr set_status_def
        split: sum.split_asm if_split_asm prod.split_asm)
next
  case (Revoking q)
  with assms show ?thesis
    by (auto simp: revoke_mark_def Let_def ends_def finish_def abort_def mark_status_JStr set_status_def
        split: sum.split_asm if_split_asm prod.split_asm)
next
  case (Expiring f)
  with assms show ?thesis
    by (auto simp: expire_mark_def download_answer_def ends_def finish_def abort_def mark_status_def
        rbind_Inr_iff set_status_def
        split: sum.split_asm if_split_asm prod.split_asm option.split_asm)
qed (use assms in simp)

text \<open>The first access: either the nonce is accepted and recorded, or nothing has an effect.\<close>

lemma arrived_cases:
  assumes "job_step w sess peer e Arrived s = (s', r)" "has_gate e"
  obtains (admitted) "gate_passed w e s s'" "r = Inr Checking"
  | (refused) acts ex where "s' = s" "r = Inl (acts, ex)" "\<forall>m \<in> EFFECTS. \<not> was_sent acts m"
proof (cases "admitted w e s")
  case None
  then have none: "\<forall>s1. \<not> gate_passed w e s s1" by (simp add: admitted_iff [symmetric])
  obtain acts ex where d: "dispatch w s sess peer e = (s', acts, ex)" "r = Inl (acts, ex)"
    using assms None by (auto simp: ends_def split: prod.split_asm)
  have "s' = s" by (rule arrived_refused [OF d(1)]) (simp add: None)
  with dispatch_not_passed [OF d(1) none] d(2) refused show thesis by blast
next
  case (Some s1)
  then have "gate_passed w e s s1" by (simp add: admitted_iff)
  with Some assms admitted show thesis by simp
qed

section \<open>Each token passes once\<close>

definition tokens_once :: "int \<Rightarrow> pool \<Rightarrow> bool" where
  "tokens_once t p \<longleftrightarrow>
     (\<forall>T \<in> set (threads p). past_gate T \<longrightarrow>
        (\<exists>n ts. token T = (Some n, Some ts) \<and> remembered t (sdb (shared p)) n ts))
     \<and> (\<forall>i < length (threads p). \<forall>k < length (threads p). i \<noteq> k \<and> past_gate (threads p ! i) \<and> past_gate (threads p ! k)
          \<longrightarrow> token (threads p ! i) \<noteq> token (threads p ! k))"

text \<open>A step that leaves the threads alone, or one that only takes threads out.\<close>

lemma tokens_once_mono:
  assumes ok: "tokens_once t p"
    and rem: "\<And>n ts. remembered t (sdb (shared p)) n ts \<Longrightarrow> remembered t' (sdb (shared p')) n ts"
    and same: "\<And>i. i < length (threads p') \<Longrightarrow> past_gate (threads p' ! i) \<Longrightarrow>
      i < length (threads p) \<and> past_gate (threads p ! i) \<and> token (threads p ! i) = token (threads p' ! i)"
  shows "tokens_once t' p'"
  unfolding tokens_once_def
proof (intro conjI ballI allI impI)
  fix T assume T: "T \<in> set (threads p')" "past_gate T"
  then obtain i where i: "i < length (threads p')" "T = threads p' ! i" by (auto simp: in_set_conv_nth)
  with same [OF i(1)] T(2) ok obtain n ts where "token T = (Some n, Some ts)" "remembered t (sdb (shared p)) n ts"
    unfolding tokens_once_def by (metis nth_mem)
  with rem show "\<exists>n ts. token T = (Some n, Some ts) \<and> remembered t' (sdb (shared p')) n ts" by blast
next
  fix i k assume "i < length (threads p')" "k < length (threads p')"
    "i \<noteq> k \<and> past_gate (threads p' ! i) \<and> past_gate (threads p' ! k)"
  with same [of i] same [of k] ok show "token (threads p' ! i) \<noteq> token (threads p' ! k)"
    unfolding tokens_once_def by metis
qed

lemma clocked_step_once:
  assumes step: "clocked_step C ca (t, p) (t', p')" and ok: "tokens_once t p"
  shows "tokens_once t' p'"
  using step
proof cases
  case (spawn T)
  show ?thesis
    by (rule tokens_once_mono [OF ok]) (use spawn in \<open>auto simp: nth_append past_gate_def less_Suc_eq split: if_split_asm\<close>)
next
  case (purge now)
  show ?thesis
  proof (rule tokens_once_mono [OF ok])
    fix n ts assume "remembered t (sdb (shared p)) n ts"
    then show "remembered t' (sdb (shared p')) n ts"
      by (rule remembered_step [where ev = "Purge now"]) (simp_all add: purge purged_by_def)
  qed (simp add: purge)
next
  case (expire now)
  show ?thesis
  proof (rule tokens_once_mono [OF ok])
    fix n ts assume "remembered t (sdb (shared p)) n ts"
    then show "remembered t' (sdb (shared p')) n ts"
      by (rule remembered_same) (simp_all add: expire mark_expired_def)
  qed (simp add: expire)
next
  case (run i T j s' r)
  have at: "threads p' ! k = (if k = i then T\<lparr>th_job := r\<rparr> else threads p ! k)" "length (threads p') = length (threads p)"
    if "k < length (threads p)" for k
    using that run(2) by (simp_all add: nth_list_update)
  show ?thesis
  proof (cases "j = Arrived \<and> has_gate (th_msg T)")
    case False
    have n: "seen_nonces (sdb s') = seen_nonces (sdb (shared p))"
    proof (cases "j = Arrived")
      case True
      with False have "\<not> has_gate (th_msg T)" by simp
      with run(7) True obtain acts ex where "dispatch (th_env T) (shared p) (th_sess T) (th_peer T) (th_msg T) = (s', acts, ex)"
        by (auto simp: ends_def split: prod.split_asm)
      then have "s' = shared p" by (rule arrived_refused) (simp add: \<open>\<not> has_gate (th_msg T)\<close>)
      then show ?thesis by simp
    qed (rule job_step_nonces [OF run(7)])
    show ?thesis
    proof (rule tokens_once_mono [OF ok])
      fix n ts assume "remembered t (sdb (shared p)) n ts"
      then show "remembered t' (sdb (shared p')) n ts" by (rule remembered_same) (simp_all add: run(1,2) n)
    next
      fix k assume k: "k < length (threads p')" "past_gate (threads p' ! k)"
      then have l: "k < length (threads p)" using at run(3) by simp
      moreover have "past_gate (threads p ! k)"
        using k(2) at(1) [OF l] False run(4,5) by (auto simp: past_gate_def split: if_split_asm)
      ultimately show "k < length (threads p) \<and> past_gate (threads p ! k) \<and> token (threads p ! k) = token (threads p' ! k)"
        using at(1) [OF l] run(4) by auto
    qed
  next
    case True
    then have j: "j = Arrived" "has_gate (th_msg T)" by simp_all
    have not: "\<not> past_gate (threads p ! i)" using run(4,5) j by (simp add: past_gate_def)
    from run(7) [unfolded j(1)] j(2) show ?thesis
    proof (cases rule: arrived_cases)
      case (refused acts ex)
      show ?thesis
      proof (rule tokens_once_mono [OF ok])
        fix n ts assume "remembered t (sdb (shared p)) n ts"
        then show "remembered t' (sdb (shared p')) n ts" by (rule remembered_same) (simp_all add: run(1,2) refused(1))
      next
        fix k assume k: "k < length (threads p')" "past_gate (threads p' ! k)"
        then have l: "k < length (threads p)" using at run(3) by simp
        have "k \<noteq> i" using k(2) at(1) [OF l] refused(2,3) by (auto simp: past_gate_def)
        then show "k < length (threads p) \<and> past_gate (threads p ! k) \<and> token (threads p ! k) = token (threads p' ! k)"
          using k(2) l at(1) [OF l] by simp
      qed
    next
      case admitted
      obtain n ts where a: "b64_field (e_nonce (th_msg T)) = Some n" "as_int (e_timestamp (th_msg T)) = Some ts"
          "check_and_record (sdb (shared p)) n ts (t_replay (th_env T)) = (sdb s', True)"
        using admitted(1) by (rule gate_history)
      have tok: "token T = (Some n, Some ts)" using a by (simp add: token_def)
      have fresh: "\<not> remembered t (sdb (shared p)) n ts"
        using remembered_refuses a(3) run(6) j(1) by fastforce
      have old: "remembered t' (sdb (shared p')) m us" if "remembered t (sdb (shared p)) m us" for m us
        using that by (rule remembered_step [where ev = "Check n ts (t_replay (th_env T))"])
          (simp_all add: run(1,2) a(3) purged_by_def)
      have new: "remembered t' (sdb (shared p')) n ts" using remembered_now [OF a(3)] by (simp add: run(1,2))
      have others: "token (threads p ! k) \<noteq> (Some n, Some ts)"
        if "k < length (threads p)" "past_gate (threads p ! k)" for k
        using ok that fresh nth_mem unfolding tokens_once_def by fastforce
      show ?thesis
        unfolding tokens_once_def
      proof (intro conjI ballI allI impI)
        fix U assume U: "U \<in> set (threads p')" "past_gate U"
        then obtain k where k: "k < length (threads p)" "U = threads p' ! k"
          using at(2) run(3) by (auto simp: in_set_conv_nth)
        show "\<exists>n ts. token U = (Some n, Some ts) \<and> remembered t' (sdb (shared p')) n ts"
        proof (cases "k = i")
          case True
          with k at(1) [OF k(1)] tok new show ?thesis by simp
        next
          case False
          then have "U = threads p ! k" using k at(1) by simp
          then have "U \<in> set (threads p)" using k(1) by simp
          with ok U(2) old show ?thesis unfolding tokens_once_def by blast
        qed
      next
        fix k l
        assume kl: "k < length (threads p')" "l < length (threads p')"
          "k \<noteq> l \<and> past_gate (threads p' ! k) \<and> past_gate (threads p' ! l)"
        then have b: "k < length (threads p)" "l < length (threads p)" using at(2) run(3) by simp_all
        show "token (threads p' ! k) \<noteq> token (threads p' ! l)"
        proof (cases "k = i \<or> l = i")
          case True
          then show ?thesis using kl(3) others [OF b(1)] others [OF b(2)] at(1) [OF b(1)] at(1) [OF b(2)] tok by auto
        next
          case False
          with kl(3) b ok at(1) show ?thesis unfolding tokens_once_def by simp
        qed
      qed
    qed
  qed
qed

lemma clocked_reach_once:
  "(clocked_step C ca)\<^sup>*\<^sup>* (t0, alone s0) (t, p) \<Longrightarrow> tokens_once t p"
proof (induction rule: rtranclp_induct2)
  case refl
  show ?case by (simp add: tokens_once_def)
next
  case (step t1 p1 t2 p2)
  from clocked_step_once [OF step.hyps(2) step.IH] show ?case .
qed

end
