(* ===== verification/Startup.thy ===== *)
theory Startup
  imports Serve Cleanup
begin

text \<open>
  What is set up around the components: the loggers (\<open>get_logger\<close>), the body of the cleanup
  thread, and \<open>server/main.py\<close>: what is checked before the server listens, the \<open>server_state\<close> every
  connection is given, and what is logged until the process ends.  \<open>argparse\<close>, the sockets
  and the threads themselves are not modelled: \<open>socket_server\<close> says whether the address could
  be bound, how \<open>serve_forever\<close> ended and whether the cleanup thread was still alive after five seconds.
\<close>

section \<open>Loggers\<close>

text \<open>The handlers of the package's logger: the console, and files by their \<open>baseFilename\<close>.  The
  paths of the system: \<open>os.path.abspath\<close>, and \<open>path.resolve()\<close>, which follows symbolic links.\<close>

datatype log_handler = Console | To_file path

record package_logger =
  log_handlers :: "log_handler list"
  log_level :: level

record log_system =
  abs_path :: "path \<Rightarrow> path"
  resolved :: "path \<Rightarrow> path"
  log_mkdir_fault :: "exc option"
  log_open_fault :: "exc option"

definition ROOT_NAME :: pystr where
  "ROOT_NAME = lit ''zerotrust''"

definition with_console :: "level \<Rightarrow> package_logger \<Rightarrow> package_logger" where
  "with_console lv r = r\<lparr>log_handlers := (if log_handlers r = [] then [Console] else log_handlers r), log_level := lv\<rparr>"

definition with_file :: "log_system \<Rightarrow> path \<Rightarrow> package_logger \<Rightarrow> package_logger \<times> exc option" where
  "with_file y p r =
     (case log_mkdir_fault y of
        Some e \<Rightarrow> (r, Some e)
      | None \<Rightarrow>
          if To_file (resolved y p) \<in> set (log_handlers r) then (r, None)
          else
            (case log_open_fault y of
               Some e \<Rightarrow> (r, Some e)
             | None \<Rightarrow> (r\<lparr>log_handlers := log_handlers r @ [To_file (abs_path y p)]\<rparr>, None)))"

definition get_logger ::
    "log_system \<Rightarrow> pystr option \<Rightarrow> path option \<Rightarrow> level \<Rightarrow> package_logger \<Rightarrow> package_logger \<times> pystr res" where
  "get_logger y name log_file lv r =
     (case (case log_file of None \<Rightarrow> (with_console lv r, None) | Some p \<Rightarrow> with_file y p (with_console lv r)) of
        (r', Some e) \<Rightarrow> (r', Inl e)
      | (r', None) \<Rightarrow> (r', Inr (case name of None \<Rightarrow> ROOT_NAME | Some n \<Rightarrow> ROOT_NAME @ lit ''.'' @ n)))"

lemma with_console_again [simp]: "log_handlers r \<noteq> [] \<Longrightarrow> log_level r = lv \<Longrightarrow> with_console lv r = r"
  by (simp add: with_console_def)

lemma with_console_made: "log_handlers (with_console lv r) \<noteq> []" "log_level (with_console lv r) = lv"
  by (simp_all add: with_console_def)

text \<open>A second call changes nothing, as documented, provided the path holds no symbolic link \<dots>\<close>

lemma get_logger_idempotent:
  assumes "get_logger y name (Some p) lv r = (r', Inr n)" "resolved y p = abs_path y p"
  shows "get_logger y name (Some p) lv r' = (r', Inr n)"
  using assms with_console_made [of lv r]
  by (auto simp: get_logger_def with_file_def split: option.splits if_splits)

text \<open>\<dots> otherwise every call adds a handler, and every line is written once more.\<close>

lemma get_logger_duplicates:
  assumes "get_logger y name (Some p) lv r = (r', Inr n)" "resolved y p \<noteq> abs_path y p"
    and "To_file (resolved y p) \<notin> set (log_handlers r)"
  shows "get_logger y name (Some p) lv r' = (r'\<lparr>log_handlers := log_handlers r' @ [To_file (abs_path y p)]\<rparr>, Inr n)"
proof -
  have "To_file (resolved y p) \<notin> set (log_handlers (with_console lv r))" using assms(3) by (simp add: with_console_def)
  then show ?thesis
    using assms(1,2) with_console_made [of lv r]
    by (auto simp: get_logger_def with_file_def split: option.splits if_splits)
qed

section \<open>The cleanup thread\<close>

text \<open>\<open>_cleanup_loop\<close> around its passes: the connection and the schemas first.  A fault there is
  raised through the thread, which then has made no pass.\<close>

datatype cleanup_line = Cleanup_started pystr | Cleanup_pass pass_log | Cleanup_stopped

definition cleanup_thread :: "exc option \<Rightarrow> pystr \<Rightarrow> tick list \<Rightarrow> db \<Rightarrow> db \<times> cleanup_line list \<times> exc option" where
  "cleanup_thread open_fault db_path ticks db =
     (case open_fault of
        Some e \<Rightarrow> (db, [Cleanup_started db_path, Cleanup_stopped], Some e)
      | None \<Rightarrow>
          (case cleanup_loop ticks db of
             (db', logs) \<Rightarrow> (db', Cleanup_started db_path # map Cleanup_pass logs @ [Cleanup_stopped], None)))"

lemma cleanup_thread_ok: "db_ok db \<Longrightarrow> db_ok (fst (cleanup_thread f p ticks db))"
  using cleanup_loop_ok [of db ticks] by (auto simp: cleanup_thread_def split: option.split prod.split)

section \<open>The server's program\<close>

record server_args =
  a_host :: pystr
  a_port :: int
  a_db :: pystr
  a_ca_cert :: pystr
  a_cert :: pystr
  a_key :: pystr

definition default_args :: server_args where
  "default_args =
     \<lparr>a_host = lit ''127.0.0.1'', a_port = 5050, a_db = lit ''zerotrust/server/storage/metadata.db'',
      a_ca_cert = lit ''ca_data/ca_cert.json'', a_cert = lit ''users/server/cert.json'',
      a_key = lit ''users/server/private.pem''\<rparr>"

datatype serving = Interrupted | Broke pystr

record socket_server =
  bind_fault :: "exc option"
  served_until :: serving
  cleanup_alive :: bool

type_synonym log_line = "level \<times> pystr"

definition server_state_of :: "server_args \<Rightarrow> pystr \<Rightarrow> assets" where
  "server_state_of a env =
     \<lparr>st_server_cert = None, st_cert_path = Some (a_cert a), st_server_priv = None,
      st_key_path = Some (a_key a), st_ca_pubkey = None, st_ca_cert_path = Some (a_ca_cert a),
      st_password = PasswordUnset, env_password = env\<rparr>"

definition stop_logs :: "socket_server \<Rightarrow> log_line list" where
  "stop_logs z =
     (case served_until z of
        Interrupted \<Rightarrow> [(INFO, [10] @ lit ''[*] SIGINT alindi. Sunucu temiz bir sekilde kapatiliyor...'')]
      | Broke what \<Rightarrow> [(ERROR, lit ''Sunucu calisirken beklenmeyen hata: '' @ what)])
     @ (if cleanup_alive z
        then [(WARNING, lit ''[*] Cleanup thread 5s icinde kapanmadi (daemon, process exit'' @ [39] @ lit ''te oluyor).'')]
        else [])
     @ [(INFO, lit ''[*] Sunucu kapandi.'')]"

text \<open>Its log, and the exit code of \<open>sys.exit\<close>, the exception the process dies of, or the state
  the connections are served with.\<close>

datatype server_run = Exited int | Died exc | Served assets

definition server_main ::
    "(pystr \<Rightarrow> bool) \<Rightarrow> server_args \<Rightarrow> pystr \<Rightarrow> socket_server \<Rightarrow> log_line list \<times> server_run" where
  "server_main exists a env z =
     (if \<not> exists (a_cert a) then
        ([(ERROR, lit ''Kritik Hata: Sunucu sertifikasi ('' @ a_cert a @ lit '') bulunamadi!'')], Exited 1)
      else if \<not> exists (a_key a) then
        ([(ERROR, lit ''Kritik Hata: Sunucu private key'' @ [39] @ lit ''i ('' @ a_key a @ lit '') bulunamadi!'')], Exited 1)
      else
        (let checked = (INFO, lit ''Sertifika ve anahtar dosyalari basariyla dogrulandi.'') in
         case bind_fault z of
           Some e \<Rightarrow> ([checked], Died e)
         | None \<Rightarrow>
             ([checked,
               (INFO, lit ''[*] Sunucu baslatiliyor -> '' @ a_host a @ lit '':'' @ str_int (a_port a)),
               (INFO, lit ''Kapatmak icin CTRL+C (SIGINT) kullanin.'')] @ stop_logs z,
              Served (server_state_of a env))))"

lemma server_main_starts_iff:
  "snd (server_main exists a env z) = Served st \<longleftrightarrow>
     exists (a_cert a) \<and> exists (a_key a) \<and> bind_fault z = None \<and> st = server_state_of a env"
  by (auto simp: server_main_def Let_def split: option.split)

text \<open>The authority's certificate is not among the files that are checked: without it the
  server starts, and every connection ends before its handshake.\<close>

lemma read_file_missing: "fs (mk_path p) = None \<Longrightarrow> read_file fs (Some p) = Inl FileNotFoundError"
  by (simp add: read_file_def)

lemma no_ca_no_assets:
  assumes "snd (server_main exists a env z) = Served st" "fs (mk_path (a_ca_cert a)) = None"
  shows "load_server_assets fs st \<noteq> Inr x"
  using assms by (auto simp: server_main_starts_iff server_state_of_def load_server_assets_def
      read_file_missing rbind_Inr_iff)

end
