(* ===== verification/Legacy.thy ===== *)
theory Legacy
  imports Handshake
begin

text \<open>
  The superseded prototype \<open>legacy/server_x509.py\<close> and \<open>legacy/client_x509.py\<close>: its framing,
  its certificate check and its handshake.  X.509 parsing and PKCS1v15 verification are
  parameters like the rest of the \<open>cryptography\<close> package.  Both programs catch every exception
  and print it, so a run ends in session keys, in a refusal or in an exception; the console
  output is left out.
\<close>

section \<open>X.509\<close>

text \<open>What the code reads of a certificate; \<open>None\<close> is a public key that is not RSA.\<close>

record x509 =
  x_key :: "nat option"
  x_sig :: bytes
  x_tbs :: bytes
  x_hash :: string
  x_subject :: "(string \<times> pystr) list"
  x_not_before :: int
  x_not_after :: int

record x509_lib =
  x_crypto :: crypto
  load_x509 :: "bytes \<Rightarrow> x509 res"
  pkcs1_verify :: "nat \<Rightarrow> bytes \<Rightarrow> bytes \<Rightarrow> string \<Rightarrow> bool"

text \<open>What one side brings to a run: its key, the PEM bytes of its certificate, the authority's
  certificate, its random values, its clock and the faults of its sends.\<close>

record legacy_party =
  lp_key :: nat
  lp_cert_pem :: bytes
  lp_ca :: x509
  lp_nonce :: bytes
  lp_secret :: bytes
  lp_seed :: bytes
  lp_salt :: bytes
  lp_now :: int
  lp_send_fault :: "nat \<Rightarrow> exc option"

definition signed_by_ca :: "x509_lib \<Rightarrow> x509 \<Rightarrow> x509 \<Rightarrow> bool" where
  "signed_by_ca L cert ca \<longleftrightarrow>
     (case x_key ca of None \<Rightarrow> False | Some k \<Rightarrow> pkcs1_verify L k (x_sig cert) (x_tbs cert) (x_hash cert))"

text \<open>The server looks at the validity, the client does not; neither looks at the subject.\<close>

definition server_verify_chain :: "x509_lib \<Rightarrow> int \<Rightarrow> x509 \<Rightarrow> x509 \<Rightarrow> bool" where
  "server_verify_chain L now cert ca \<longleftrightarrow>
     signed_by_ca L cert ca \<and> x_not_before cert \<le> now \<and> now \<le> x_not_after cert"

definition client_verify_chain :: "x509_lib \<Rightarrow> x509 \<Rightarrow> x509 \<Rightarrow> bool" where
  "client_verify_chain L cert ca \<longleftrightarrow> signed_by_ca L cert ca"

section \<open>Framing\<close>

text \<open>\<open>None\<close> when the stream ends early; no bound on the length.\<close>

function legacy_recvall :: "nat \<Rightarrow> bytes \<Rightarrow> sock \<Rightarrow> (bytes option \<times> sock) res" where
  "legacy_recvall n data s =
     (if length data < n then
        (case sock_recv (n - length data) s of
           Inl e \<Rightarrow> Inl e
         | Inr (packet, s') \<Rightarrow>
             if packet = [] then Inr (None, s') else legacy_recvall n (data @ packet) s')
      else Inr (Some data, s))"
  by pat_completeness auto
termination
  by (relation "measure (\<lambda>(n, data, s). n - length data)") (auto intro!: diff_less_mono2)

declare legacy_recvall.simps [simp del]

definition legacy_recv_msg :: "sock \<Rightarrow> (bytes option \<times> sock) res" where
  "legacy_recv_msg s =
     rbind (legacy_recvall 4 [] s) (\<lambda>(raw, s1).
       case raw of
         None \<Rightarrow> Inr (None, s1)
       | Some h \<Rightarrow> if h = [] then Inr (None, s1) else legacy_recvall (unpack_length h) [] s1)"

text \<open>\<open>json.dumps(d).encode('utf-8')\<close> behind its length; \<open>struct\<close> refuses what does not fit in
  32 bits.\<close>

definition legacy_frame :: "jdict \<Rightarrow> bytes res" where
  "legacy_frame d =
     rbind (utf8_encode (dumps default_opts (JObj d))) (\<lambda>b.
       if length b < 4294967296 then Inr (pack_length (length b) @ b) else Inl OverflowError)"

definition legacy_send :: "exc option \<Rightarrow> jdict \<Rightarrow> bytes res" where
  "legacy_send fault d = rbind (legacy_frame d) (\<lambda>b. with_fault fault (Inr b))"

section \<open>Fields\<close>

text \<open>\<open>base64.b64decode\<close> without \<open>validate\<close>: characters outside the alphabet are skipped, and
  what follows a complete padding is ignored.\<close>

fun a2b_lenient :: "nat \<Rightarrow> nat \<Rightarrow> nat \<Rightarrow> pystr \<Rightarrow> bytes option" where
  "a2b_lenient q l p [] = (if q = 0 then Some [] else None)"
| "a2b_lenient q l p (c # cs) =
     (if c = 61 then
        (if 2 \<le> q \<and> 4 \<le> q + (p + 1) then Some []
         else a2b_lenient q l (if 2 \<le> q then p + 1 else p) cs)
      else
        (case b64_value c of
           None \<Rightarrow> a2b_lenient q l p cs
         | Some v \<Rightarrow>
             if q = 0 then a2b_lenient 1 v 0 cs
             else if q = 1 then map_option (Cons (b8 (4 * l + v div 16))) (a2b_lenient 2 (v mod 16) 0 cs)
             else if q = 2 then map_option (Cons (b8 (16 * l + v div 4))) (a2b_lenient 3 (v mod 4) 0 cs)
             else map_option (Cons (b8 (64 * l + v))) (a2b_lenient 0 0 0 cs)))"

definition legacy_b64 :: "json \<Rightarrow> bytes res" where
  "legacy_b64 v =
     rbind (some_or TypeError (as_str v)) (\<lambda>s.
       if list_all (\<lambda>c. c < 128) s then some_or ValueError (a2b_lenient 0 0 0 s) else Inl ValueError)"

definition legacy_loads :: "bytes \<Rightarrow> json res" where
  "legacy_loads b = rbind (utf8_decode b) json_loads"

text \<open>\<open>base64.b64decode(msg[k])\<close>\<close>

definition legacy_field :: "json \<Rightarrow> string \<Rightarrow> bytes res" where
  "legacy_field v k =
     rbind (some_or TypeError (as_dict v)) (\<lambda>d. rbind (jitem d (lit k)) legacy_b64)"

definition b64_text :: "bytes \<Rightarrow> json" where
  "b64_text b = JStr (b64encode b)"

section \<open>The handshake\<close>

datatype legacy_end = Keys bytes bytes | Refused | Failed exc

definition legacy_keys :: "x509_lib \<Rightarrow> bytes \<Rightarrow> bytes \<Rightarrow> bytes \<Rightarrow> legacy_end" where
  "legacy_keys L nonce_c nonce_s secret =
     (let material = hkdf_sha256 (x_crypto L) secret (nonce_c @ nonce_s) (map b8 (lit ''zero-trust-file-drop'')) 64 in
      Keys (take 32 material) (drop 32 material))"

definition end_of :: "legacy_end option res \<Rightarrow> legacy_end" where
  "end_of r = (case r of Inl e \<Rightarrow> Failed e | Inr None \<Rightarrow> Refused | Inr (Some x) \<Rightarrow> x)"

definition server_hello_msg :: "legacy_party \<Rightarrow> bytes \<Rightarrow> jdict" where
  "server_hello_msg h sig =
     [(lit ''type'', JStr (lit ''ServerHello'')), (lit ''cert'', b64_text (lp_cert_pem h)),
      (lit ''nonce_s'', b64_text (lp_nonce h)), (lit ''signature'', b64_text sig)]"

definition client_hello_msg :: "legacy_party \<Rightarrow> jdict" where
  "client_hello_msg h =
     [(lit ''type'', JStr (lit ''ClientHello'')), (lit ''cert'', b64_text (lp_cert_pem h)),
      (lit ''nonce'', b64_text (lp_nonce h))]"

definition client_key_exchange_msg :: "bytes \<Rightarrow> bytes \<Rightarrow> jdict" where
  "client_key_exchange_msg enc sig =
     [(lit ''type'', JStr (lit ''ClientKeyExchange'')), (lit ''encrypted_secret'', b64_text enc),
      (lit ''signature'', b64_text sig)]"

text \<open>\<open>handle_client\<close>, steps 1, 3 and 4; \<open>None\<close> is a refusal.\<close>

definition legacy_server_hello :: "x509_lib \<Rightarrow> legacy_party \<Rightarrow> sock \<Rightarrow> (x509 \<times> bytes \<times> sock) option res" where
  "legacy_server_hello L h s =
     rbind (legacy_recv_msg s) (\<lambda>(m, s1).
       case m of
         None \<Rightarrow> Inr None
       | Some b \<Rightarrow>
           if b = [] then Inr None
           else
             rbind (legacy_loads b) (\<lambda>hello.
             rbind (legacy_field hello ''cert'') (\<lambda>pem.
             rbind (load_x509 L pem) (\<lambda>cert.
               if \<not> server_verify_chain L (lp_now h) cert (lp_ca h) then Inr None
               else rbind (legacy_field hello ''nonce'') (\<lambda>nonce_c. Inr (Some (cert, nonce_c, s1)))))))"

definition legacy_server_finish :: "x509_lib \<Rightarrow> legacy_party \<Rightarrow> x509 \<Rightarrow> bytes \<Rightarrow> sock \<Rightarrow> legacy_end option res" where
  "legacy_server_finish L h cert nonce_c s =
     rbind (legacy_recv_msg s) (\<lambda>(m, s1).
     rbind (some_or AttributeError m) (\<lambda>b.
     rbind (legacy_loads b) (\<lambda>cke.
     rbind (legacy_field cke ''encrypted_secret'') (\<lambda>enc.
     rbind (legacy_field cke ''signature'') (\<lambda>sig.
     rbind (some_or ValueError (oaep_decrypt (x_crypto L) (lp_key h) enc)) (\<lambda>secret.
       Inr (case x_key cert of
              None \<Rightarrow> None
            | Some k \<Rightarrow>
                if pss_verify (x_crypto L) k sig (nonce_c @ lp_nonce h @ secret)
                then Some (legacy_keys L nonce_c (lp_nonce h) secret) else None)))))))"

definition legacy_server :: "x509_lib \<Rightarrow> legacy_party \<Rightarrow> sock \<Rightarrow> bytes list \<times> legacy_end" where
  "legacy_server L h s =
     (case legacy_server_hello L h s of
        Inl e \<Rightarrow> ([], Failed e)
      | Inr None \<Rightarrow> ([], Refused)
      | Inr (Some (cert, nonce_c, s1)) \<Rightarrow>
          (case rbind (some_or ValueError (pss_sign (x_crypto L) (lp_key h) (lp_salt h) (nonce_c @ lp_nonce h)))
                  (\<lambda>sig. legacy_send (lp_send_fault h 0) (server_hello_msg h sig)) of
             Inl e \<Rightarrow> ([], Failed e)
           | Inr out \<Rightarrow> ([out], end_of (legacy_server_finish L h cert nonce_c s1))))"

text \<open>\<open>connect_and_handshake\<close>: what it checks of the server's answer, and the key exchange.\<close>

definition legacy_client_hello :: "x509_lib \<Rightarrow> legacy_party \<Rightarrow> sock \<Rightarrow> (nat \<times> bytes) option res" where
  "legacy_client_hello L h s =
     rbind (legacy_recv_msg s) (\<lambda>(m, s1).
     rbind (some_or AttributeError m) (\<lambda>b.
     rbind (legacy_loads b) (\<lambda>hello.
     rbind (legacy_field hello ''cert'') (\<lambda>pem.
     rbind (load_x509 L pem) (\<lambda>cert.
       if \<not> client_verify_chain L cert (lp_ca h) then Inr None
       else
         rbind (legacy_field hello ''nonce_s'') (\<lambda>nonce_s.
         rbind (legacy_field hello ''signature'') (\<lambda>sig.
           Inr (case x_key cert of
                  None \<Rightarrow> None
                | Some k \<Rightarrow>
                    if pss_verify (x_crypto L) k sig (lp_nonce h @ nonce_s) then Some (k, nonce_s) else None))))))))"

definition legacy_key_exchange :: "x509_lib \<Rightarrow> legacy_party \<Rightarrow> nat \<Rightarrow> bytes \<Rightarrow> bytes res" where
  "legacy_key_exchange L h k nonce_s =
     rbind (some_or ValueError (oaep_encrypt (x_crypto L) k (lp_seed h) (lp_secret h))) (\<lambda>enc.
     rbind (some_or ValueError (pss_sign (x_crypto L) (lp_key h) (lp_salt h) (lp_nonce h @ nonce_s @ lp_secret h))) (\<lambda>sig.
       legacy_send (lp_send_fault h 1) (client_key_exchange_msg enc sig)))"

definition legacy_client :: "x509_lib \<Rightarrow> legacy_party \<Rightarrow> sock \<Rightarrow> bytes list \<times> legacy_end" where
  "legacy_client L h s =
     (case legacy_send (lp_send_fault h 0) (client_hello_msg h) of
        Inl e \<Rightarrow> ([], Failed e)
      | Inr hello \<Rightarrow>
          (case legacy_client_hello L h s of
             Inl e \<Rightarrow> ([hello], Failed e)
           | Inr None \<Rightarrow> ([hello], Refused)
           | Inr (Some (k, nonce_s)) \<Rightarrow>
               (case legacy_key_exchange L h k nonce_s of
                  Inl e \<Rightarrow> ([hello], Failed e)
                | Inr out \<Rightarrow> ([hello, out], legacy_keys L (lp_nonce h) nonce_s (lp_secret h)))))"

section \<open>A frame is received as it was sent\<close>

lemma legacy_recvall_clean:
  assumes "clean s" "length buf \<le> n" "n - length buf \<le> length (stream s)"
  shows "\<exists>s'. legacy_recvall n buf s = Inr (Some (buf @ take (n - length buf) (stream s)), s')
    \<and> clean s' \<and> stream s' = drop (n - length buf) (stream s)"
  using assms
proof (induction n buf s rule: legacy_recvall.induct)
  case (1 n buf s)
  show ?case
  proof (cases "length buf < n")
    case False
    then have "legacy_recvall n buf s = Inr (Some buf, s)" by (subst legacy_recvall.simps) simp
    with "1.prems" False show ?thesis by simp
  next
    case True
    obtain chunk s' where c: "sock_recv (n - length buf) s = Inr (chunk, s')"
      using sock_recv_total [OF "1.prems"(1)] by blast
    have "0 < n - length buf" using True by simp
    note r = sock_recv_clean [OF "1.prems"(1) this c]
    have s': "clean s'" "stream s = chunk @ stream s'" "length chunk \<le> n - length buf"
        "chunk = [] \<longleftrightarrow> stream s = []"
      using r by blast+
    have "0 < length (stream s)" using True "1.prems"(3) by linarith
    then have ne: "chunk \<noteq> []" using s'(4) by blast
    then have unf: "legacy_recvall n buf s = legacy_recvall n (buf @ chunk) s'"
      using True c by (subst legacy_recvall.simps) simp
    have "clean s'" "length (buf @ chunk) \<le> n" "n - length (buf @ chunk) \<le> length (stream s')"
      using s' "1.prems"(2,3) by auto
    from "1.IH" [OF True c refl ne this] show ?thesis
      unfolding unf s'(2) using s'(3) by (auto simp: less_diff_conv le_diff_conv add.commute)
  qed
qed

lemma legacy_frame_Inr:
  assumes "legacy_frame d = Inr b"
  obtains body where "utf8_encode (dumps default_opts (JObj d)) = Inr body" "length body < 4294967296"
    "b = pack_length (length body) @ body"
  using assms by (auto simp: legacy_frame_def rbind_Inr_iff split: if_splits)

lemma legacy_frame_nonempty: "legacy_frame d = Inr b \<Longrightarrow> b \<noteq> []"
  by (erule legacy_frame_Inr) (simp add: pack_length_def)

lemma legacy_send_Inr: "legacy_send f d = Inr b \<longleftrightarrow> f = None \<and> legacy_frame d = Inr b"
  by (cases f) (auto simp: legacy_send_def rbind_Inr_iff with_fault_def)

lemma legacy_recv_frame:
  assumes s: "clean s" "stream s = b @ rest" and d: "legacy_frame d = Inr b" "wf_json (JObj d)"
  shows "\<exists>body s'. legacy_recv_msg s = Inr (Some body, s') \<and> body \<noteq> [] \<and> legacy_loads body = Inr (JObj d)
    \<and> clean s' \<and> stream s' = rest"
proof -
  obtain body where b: "utf8_encode (dumps default_opts (JObj d)) = Inr body" "length body < 4294967296"
      "b = pack_length (length body) @ body"
    using d(1) by (rule legacy_frame_Inr) blast
  obtain s1 where s1: "legacy_recvall 4 [] s = Inr (Some (pack_length (length body)), s1)" "clean s1"
      "stream s1 = body @ rest"
    using legacy_recvall_clean [OF s(1), of "[]" 4] s(2) b(3) by auto
  obtain s2 where s2: "legacy_recvall (length body) [] s1 = Inr (Some body, s2)" "clean s2" "stream s2 = rest"
    using legacy_recvall_clean [OF s1(2), of "[]" "length body"] s1(3) by auto
  have loads: "legacy_loads body = Inr (JObj d)"
    using utf8_decode_encode [OF b(1)] json_loads_dumps [OF ok_opts_simps(3) d(2)]
    by (simp add: legacy_loads_def del: dumps.simps)
  have "dumps default_opts (JObj d) \<noteq> []" "utf8_decode [] = Inr []"
    by (simp_all add: utf8_decode_def)
  then have "body \<noteq> []" using utf8_decode_encode [OF b(1)] by auto
  moreover have "pack_length (length body) \<noteq> []" by (simp add: pack_length_def)
  ultimately show ?thesis
    using s1(1) s2 loads unpack_pack_length [OF b(2)] by (simp add: legacy_recv_msg_def)
qed

section \<open>Fields are read as they were written\<close>

lemma a2b_lenient_b64encode: "a2b_lenient 0 0 0 (b64encode bs) = Some bs"
  by (induction bs rule: b64encode.induct) simp_all

lemma legacy_b64_text [simp]: "legacy_b64 (b64_text b) = Inr b"
  by (simp add: legacy_b64_def b64_text_def a2b_lenient_b64encode b64encode_ascii)

text \<open>The lenient decoder reads all that the strict one reads, and as the same bytes.\<close>

lemma a2b_lenient_strict:
  "a2b_strict q l p st s = Some b \<Longrightarrow> a2b_lenient q l p s = Some b"
  by (induction q l p st s arbitrary: b rule: a2b_strict.induct) (auto split: if_splits option.splits)

lemma wf_b64_text [simp]: "wf_json (b64_text b)"
  using b64encode_ascii by (auto simp: b64_text_def list_all_set intro!: wf_str_ascii)

lemma wf_legacy_msgs [simp]:
  "wf_json (JObj (server_hello_msg h sig))" "wf_json (JObj (client_hello_msg h))"
  "wf_json (JObj (client_key_exchange_msg enc sig))"
  by (simp_all add: server_hello_msg_def client_hello_msg_def client_key_exchange_msg_def)

lemma legacy_fields [simp]:
  "legacy_field (JObj (server_hello_msg h sig)) ''cert'' = Inr (lp_cert_pem h)"
  "legacy_field (JObj (server_hello_msg h sig)) ''nonce_s'' = Inr (lp_nonce h)"
  "legacy_field (JObj (server_hello_msg h sig)) ''signature'' = Inr sig"
  "legacy_field (JObj (client_hello_msg h)) ''cert'' = Inr (lp_cert_pem h)"
  "legacy_field (JObj (client_hello_msg h)) ''nonce'' = Inr (lp_nonce h)"
  "legacy_field (JObj (client_key_exchange_msg enc sig)) ''encrypted_secret'' = Inr enc"
  "legacy_field (JObj (client_key_exchange_msg enc sig)) ''signature'' = Inr sig"
  by (simp_all add: legacy_field_def server_hello_msg_def client_hello_msg_def client_key_exchange_msg_def
      jitem_def)

section \<open>Whom a run lets in\<close>

lemma end_of_Keys: "end_of r = Keys a b \<longleftrightarrow> r = Inr (Some (Keys a b))"
  by (cases r) (auto simp: end_of_def split: option.splits)

text \<open>The server's keys: a certificate of the authority within its validity, and its holder's
  signature over both nonces and the secret.\<close>

lemma legacy_server_authenticates:
  assumes "legacy_server L h s = (sent, Keys a b)"
  obtains cert k nonce_c secret sig where
    "signed_by_ca L cert (lp_ca h)" "x_not_before cert \<le> lp_now h" "lp_now h \<le> x_not_after cert"
    "x_key cert = Some k" "pss_verify (x_crypto L) k sig (nonce_c @ lp_nonce h @ secret)"
    "Keys a b = legacy_keys L nonce_c (lp_nonce h) secret"
proof -
  obtain cert nonce_c s1 where 1: "legacy_server_hello L h s = Inr (Some (cert, nonce_c, s1))"
    and 2: "legacy_server_finish L h cert nonce_c s1 = Inr (Some (Keys a b))"
    using assms by (auto simp: legacy_server_def end_of_Keys split: sum.splits option.splits)
  have "server_verify_chain L (lp_now h) cert (lp_ca h)"
    using 1 by (auto simp: legacy_server_hello_def rbind_Inr_iff split: option.splits if_splits)
  moreover obtain k sig secret where "x_key cert = Some k"
      "pss_verify (x_crypto L) k sig (nonce_c @ lp_nonce h @ secret)"
      "Keys a b = legacy_keys L nonce_c (lp_nonce h) secret"
    using 2 by (auto simp: legacy_server_finish_def rbind_Inr_iff split: option.splits if_splits)
  ultimately show thesis using that by (auto simp: server_verify_chain_def)
qed

section \<open>The two programs against each other\<close>

text \<open>What the server reads of an honest client, and the client of an honest server.\<close>

lemma legacy_server_hello_honest:
  assumes c: "load_x509 L (lp_cert_pem c) = Inr cert" "server_verify_chain L (lp_now h) cert (lp_ca h)"
    and m: "legacy_frame (client_hello_msg c) = Inr m" and s: "clean s" "stream s = m @ rest"
  shows "\<exists>s'. legacy_server_hello L h s = Inr (Some (cert, lp_nonce c, s')) \<and> clean s' \<and> stream s' = rest"
proof -
  obtain body s' where r: "legacy_recv_msg s = Inr (Some body, s')" "body \<noteq> []"
      "legacy_loads body = Inr (JObj (client_hello_msg c))" "clean s'" "stream s' = rest"
    using legacy_recv_frame [OF s m wf_legacy_msgs(2)] by blast
  then show ?thesis using c by (simp add: legacy_server_hello_def)
qed

lemma legacy_server_finish_honest:
  assumes laws: "pss_correct (x_crypto L)" "oaep_correct (x_crypto L)"
    and key: "x_key cert = Some (lp_key c)"
    and enc: "oaep_encrypt (x_crypto L) (lp_key h) (lp_seed c) (lp_secret c) = Some enc"
    and sig: "pss_sign (x_crypto L) (lp_key c) (lp_salt c) (lp_nonce c @ lp_nonce h @ lp_secret c) = Some sig"
    and m: "legacy_frame (client_key_exchange_msg enc sig) = Inr m" and s: "clean s" "stream s = m @ rest"
  shows "legacy_server_finish L h cert (lp_nonce c) s
    = Inr (Some (legacy_keys L (lp_nonce c) (lp_nonce h) (lp_secret c)))"
proof -
  obtain body s' where r: "legacy_recv_msg s = Inr (Some body, s')"
      "legacy_loads body = Inr (JObj (client_key_exchange_msg enc sig))"
    using legacy_recv_frame [OF s m wf_legacy_msgs(3)] by blast
  have "oaep_decrypt (x_crypto L) (lp_key h) enc = Some (lp_secret c)"
    "pss_verify (x_crypto L) (lp_key c) sig (lp_nonce c @ lp_nonce h @ lp_secret c)"
    using laws enc sig by (auto simp: oaep_correct_def pss_correct_def)
  then show ?thesis using r key by (simp add: legacy_server_finish_def)
qed

lemma legacy_client_hello_honest:
  assumes laws: "pss_correct (x_crypto L)"
    and h: "load_x509 L (lp_cert_pem h) = Inr cert" "signed_by_ca L cert (lp_ca c)" "x_key cert = Some (lp_key h)"
    and sig: "pss_sign (x_crypto L) (lp_key h) (lp_salt h) (lp_nonce c @ lp_nonce h) = Some sig"
    and m: "legacy_frame (server_hello_msg h sig) = Inr m" and s: "clean s" "stream s = m @ rest"
  shows "legacy_client_hello L c s = Inr (Some (lp_key h, lp_nonce h))"
proof -
  obtain body s' where r: "legacy_recv_msg s = Inr (Some body, s')"
      "legacy_loads body = Inr (JObj (server_hello_msg h sig))"
    using legacy_recv_frame [OF s m wf_legacy_msgs(1)] by blast
  have "pss_verify (x_crypto L) (lp_key h) sig (lp_nonce c @ lp_nonce h)"
    using laws sig by (auto simp: pss_correct_def)
  then show ?thesis using r h by (simp add: legacy_client_hello_def client_verify_chain_def)
qed

text \<open>Nothing is asked of the server's certificate but the authority's signature.\<close>

lemma legacy_runs_agree:
  assumes laws: "pss_correct (x_crypto L)" "oaep_correct (x_crypto L)"
    and h: "load_x509 L (lp_cert_pem h) = Inr hcert" "signed_by_ca L hcert (lp_ca c)" "x_key hcert = Some (lp_key h)"
    and c: "load_x509 L (lp_cert_pem c) = Inr ccert" "server_verify_chain L (lp_now h) ccert (lp_ca h)"
      "x_key ccert = Some (lp_key c)"
    and enc: "oaep_encrypt (x_crypto L) (lp_key h) (lp_seed c) (lp_secret c) = Some enc"
    and sigs: "pss_sign (x_crypto L) (lp_key h) (lp_salt h) (lp_nonce c @ lp_nonce h) = Some sigh"
      "pss_sign (x_crypto L) (lp_key c) (lp_salt c) (lp_nonce c @ lp_nonce h @ lp_secret c) = Some sigc"
    and sent: "legacy_send (lp_send_fault c 0) (client_hello_msg c) = Inr m1"
      "legacy_send (lp_send_fault h 0) (server_hello_msg h sigh) = Inr m2"
      "legacy_send (lp_send_fault c 1) (client_key_exchange_msg enc sigc) = Inr m3"
    and s: "clean ss" "stream ss = m1 @ m3 @ rest" "clean cs" "stream cs = m2 @ rest'"
  shows "legacy_server L h ss = ([m2], legacy_keys L (lp_nonce c) (lp_nonce h) (lp_secret c))
    \<and> legacy_client L c cs = ([m1, m3], legacy_keys L (lp_nonce c) (lp_nonce h) (lp_secret c))"
proof -
  note frames = sent [unfolded legacy_send_Inr, THEN conjunct2]
  obtain s1 where s1: "legacy_server_hello L h ss = Inr (Some (ccert, lp_nonce c, s1))" "clean s1" "stream s1 = m3 @ rest"
    using legacy_server_hello_honest [OF c(1,2) frames(1) s(1,2)] by blast
  have "legacy_server_finish L h ccert (lp_nonce c) s1
      = Inr (Some (legacy_keys L (lp_nonce c) (lp_nonce h) (lp_secret c)))"
    by (rule legacy_server_finish_honest [OF laws c(3) enc sigs(2) frames(3) s1(2,3)])
  with s1(1) sigs(1) sent(2) have "legacy_server L h ss = ([m2], legacy_keys L (lp_nonce c) (lp_nonce h) (lp_secret c))"
    by (simp add: legacy_server_def end_of_def)
  moreover have "legacy_client_hello L c cs = Inr (Some (lp_key h, lp_nonce h))"
    by (rule legacy_client_hello_honest [OF laws(1) h sigs(1) frames(2) s(3,4)])
  then have "legacy_client L c cs = ([m1, m3], legacy_keys L (lp_nonce c) (lp_nonce h) (lp_secret c))"
    using enc sigs(2) sent(1,3) by (simp add: legacy_client_def legacy_key_exchange_def)
  ultimately show ?thesis by simp
qed

end
