(* ===== verification/Legacy_Ca.thy ===== *)
theory Legacy_Ca
  imports Legacy Ca
begin

text \<open>
  \<open>legacy/ca_x509.py\<close>, run as a script: it sets up the prototype's authority, or finds it set
  up, and issues the certificates of the server and of two clients into \<open>certs/\<close>.  The
  certificate builder and the PEM encodings are parameters.  (Imported as a module, the
  program has no \<open>sys\<close>, and \<open>generate_entity_cert\<close> ends with a \<open>NameError\<close>.)
\<close>

section \<open>The library and the surroundings\<close>

text \<open>What the builder is given before \<open>sign(key, SHA256)\<close>.\<close>

record cert_request =
  q_subject :: "(string \<times> pystr) list"
  q_issuer :: "(string \<times> pystr) list"
  q_key :: nat
  q_serial :: nat
  q_from :: int
  q_to :: int
  q_is_ca :: bool

text \<open>What one certificate draws: a key, a serial number and two clock readings.\<close>

record draw =
  d_key :: nat
  d_serial :: nat
  d_from :: int
  d_until :: int

record workshop =
  w_lib :: x509_lib
  w_sign :: "cert_request \<Rightarrow> nat \<Rightarrow> x509 res"
  w_cert_pem :: "x509 \<Rightarrow> bytes"
  w_key_pem :: "nat \<Rightarrow> bytes"
  w_load_key :: "bytes \<Rightarrow> nat res"
  w_write :: "path \<Rightarrow> write_result"
  w_read_fault :: "path \<Rightarrow> exc option"
  w_makedirs :: "exc option"

text \<open>A function that may change files and returns a value or raises.\<close>

type_synonym 'a work = "filesystem \<times> 'a res"

definition wbind :: "'a work \<Rightarrow> (filesystem \<Rightarrow> 'a \<Rightarrow> 'b work) \<Rightarrow> 'b work" where
  "wbind r f = (case r of (fs, Inl e) \<Rightarrow> (fs, Inl e) | (fs, Inr x) \<Rightarrow> f fs x)"

lemma wbind_Inr: "wbind r f = (fs', Inr y) \<longleftrightarrow> (\<exists>fs x. r = (fs, Inr x) \<and> f fs x = (fs', Inr y))"
  by (cases r; cases "snd r") (auto simp: wbind_def)

section \<open>Files\<close>

definition certs_path :: "pystr \<Rightarrow> path" where
  "certs_path name = path_join (mk_path (lit ''certs'')) name"

definition legacy_save :: "workshop \<Rightarrow> filesystem \<Rightarrow> pystr \<Rightarrow> bytes \<Rightarrow> unit work" where
  "legacy_save W fs name data =
     (case w_write W (certs_path name) of
        Written \<Rightarrow> (fs(certs_path name \<mapsto> data), Inr ())
      | Refused e \<Rightarrow> (fs, Inl e)
      | Cut_short e left \<Rightarrow> (fs(certs_path name \<mapsto> left), Inl e))"

definition legacy_load :: "workshop \<Rightarrow> filesystem \<Rightarrow> (bytes \<Rightarrow> 'a res) \<Rightarrow> pystr \<Rightarrow> 'a res" where
  "legacy_load W fs parse name =
     rbind (with_fault (w_read_fault W (certs_path name)) (some_or FileNotFoundError (fs (certs_path name)))) parse"

definition legacy_pair :: "workshop \<Rightarrow> filesystem \<Rightarrow> pystr \<Rightarrow> pystr \<Rightarrow> (nat \<times> x509) res" where
  "legacy_pair W fs key_name cert_name =
     rbind (legacy_load W fs (w_load_key W) key_name) (\<lambda>k.
     rbind (legacy_load W fs (load_x509 (w_lib W)) cert_name) (\<lambda>cert. Inr (k, cert)))"

text \<open>A signed certificate goes to disk behind its key.\<close>

definition legacy_keep :: "workshop \<Rightarrow> filesystem \<Rightarrow> pystr \<Rightarrow> pystr \<Rightarrow> nat \<Rightarrow> x509 res \<Rightarrow> (nat \<times> x509) work" where
  "legacy_keep W fs key_name cert_name k r =
     wbind (fs, r) (\<lambda>fs cert.
     wbind (legacy_save W fs key_name (w_key_pem W k)) (\<lambda>fs _.
     wbind (legacy_save W fs cert_name (w_cert_pem W cert)) (\<lambda>fs _. (fs, Inr (k, cert)))))"

section \<open>The authority and its entities\<close>

definition ca_key_name :: pystr where "ca_key_name = lit ''ca_private.pem''"
definition ca_cert_name :: pystr where "ca_cert_name = lit ''ca_cert.pem''"

definition legacy_ca_name :: "(string \<times> pystr) list" where
  "legacy_ca_name =
     [(''COUNTRY_NAME'', lit ''TR''), (''STATE_OR_PROVINCE_NAME'', lit ''Istanbul''), (''LOCALITY_NAME'', lit ''Kadikoy''),
      (''ORGANIZATION_NAME'', lit ''ZeroTrust CA''), (''COMMON_NAME'', lit ''ZeroTrust Root CA'')]"

definition day_seconds :: "int \<Rightarrow> int" where "day_seconds n = n * 86400"

definition setup_ca :: "workshop \<Rightarrow> draw \<Rightarrow> filesystem \<Rightarrow> (nat \<times> x509) work" where
  "setup_ca W d fs =
     (if fs (certs_path ca_key_name) \<noteq> None \<and> fs (certs_path ca_cert_name) \<noteq> None then
        (fs, legacy_pair W fs ca_key_name ca_cert_name)
      else
        legacy_keep W fs ca_key_name ca_cert_name (d_key d)
          (w_sign W \<lparr>q_subject = legacy_ca_name, q_issuer = legacy_ca_name, q_key = d_key d, q_serial = d_serial d,
             q_from = d_from d, q_to = d_until d + day_seconds 3650, q_is_ca = True\<rparr> (d_key d)))"

definition entity_name :: "pystr \<Rightarrow> (string \<times> pystr) list" where
  "entity_name name =
     [(''COUNTRY_NAME'', lit ''TR''), (''ORGANIZATION_NAME'', lit ''ZeroTrust Entities''), (''COMMON_NAME'', name)]"

definition generate_entity_cert :: "workshop \<Rightarrow> draw \<Rightarrow> filesystem \<Rightarrow> pystr \<Rightarrow> nat \<Rightarrow> x509 \<Rightarrow> (nat \<times> x509) work" where
  "generate_entity_cert W d fs name ca_key ca_cert =
     (let key_name = name @ lit ''_private.pem''; cert_name = name @ lit ''_cert.pem'' in
      if fs (certs_path key_name) \<noteq> None then (fs, legacy_pair W fs key_name cert_name)
      else
        legacy_keep W fs key_name cert_name (d_key d)
          (w_sign W \<lparr>q_subject = entity_name name, q_issuer = x_subject ca_cert, q_key = d_key d, q_serial = d_serial d,
             q_from = d_from d, q_to = d_until d + day_seconds 365, q_is_ca = False\<rparr> ca_key))"

text \<open>The script.\<close>

definition legacy_ca_main :: "workshop \<Rightarrow> (nat \<Rightarrow> draw) \<Rightarrow> filesystem \<Rightarrow> unit work" where
  "legacy_ca_main W ds fs =
     (case w_makedirs W of
        Some e \<Rightarrow> (fs, Inl e)
      | None \<Rightarrow>
          wbind (setup_ca W (ds 0) fs) (\<lambda>fs (ca_key, ca_cert).
          wbind (generate_entity_cert W (ds 1) fs (lit ''server'') ca_key ca_cert) (\<lambda>fs _.
          wbind (generate_entity_cert W (ds 2) fs (lit ''client1'') ca_key ca_cert) (\<lambda>fs _.
          wbind (generate_entity_cert W (ds 3) fs (lit ''client2'') ca_key ca_cert) (\<lambda>fs _.
            (fs, Inr ()))))))"

section \<open>What the library promises\<close>

text \<open>A signed certificate carries what was asked for, verifies under its issuer's key and loads
  again from its PEM text, as keys do.\<close>

definition workshop_correct :: "workshop \<Rightarrow> bool" where
  "workshop_correct W \<longleftrightarrow>
     (\<forall>q k cert. w_sign W q k = Inr cert \<longrightarrow>
        x_subject cert = q_subject q \<and> x_key cert = Some (q_key q) \<and> x_not_before cert = q_from q
        \<and> x_not_after cert = q_to q \<and> pkcs1_verify (w_lib W) k (x_sig cert) (x_tbs cert) (x_hash cert)
        \<and> load_x509 (w_lib W) (w_cert_pem W cert) = Inr cert)
     \<and> (\<forall>k. w_load_key W (w_key_pem W k) = Inr k)"

lemma legacy_save_Inr: "legacy_save W fs n b = (fs', Inr u) \<longleftrightarrow>
    w_write W (certs_path n) = Written \<and> fs' = fs(certs_path n \<mapsto> b)"
  by (auto simp: legacy_save_def split: write_result.split)

text \<open>A key that an interrupted run left without its certificate stops every later run.\<close>

lemma key_without_certificate:
  assumes "fs (certs_path (name @ lit ''_private.pem'')) \<noteq> None" "fs (certs_path (name @ lit ''_cert.pem'')) = None"
  shows "\<exists>e. generate_entity_cert W d fs name ca_key ca_cert = (fs, Inl e)"
proof -
  have "legacy_load W fs (load_x509 (w_lib W)) (name @ lit ''_cert.pem'') \<noteq> Inr cert" for cert
    using assms(2) by (auto simp: legacy_load_def with_fault_def rbind_Inr_iff split: option.splits)
  then have "legacy_pair W fs (name @ lit ''_private.pem'') (name @ lit ''_cert.pem'') \<noteq> Inr x" for x
    by (auto simp: legacy_pair_def rbind_Inr_iff)
  then show ?thesis
    using assms(1) by (cases "legacy_pair W fs (name @ lit ''_private.pem'') (name @ lit ''_cert.pem'')")
      (auto simp: generate_entity_cert_def Let_def)
qed

section \<open>What a run from an empty directory leaves\<close>

text \<open>An entity's two files.\<close>

definition equipped :: "workshop \<Rightarrow> filesystem \<Rightarrow> x509 \<Rightarrow> pystr \<Rightarrow> draw \<Rightarrow> x509 \<Rightarrow> bool" where
  "equipped W fs ca name d cert \<longleftrightarrow>
     fs (certs_path (name @ lit ''_private.pem'')) = Some (w_key_pem W (d_key d))
     \<and> fs (certs_path (name @ lit ''_cert.pem'')) = Some (w_cert_pem W cert)
     \<and> x_key cert = Some (d_key d) \<and> x_subject cert = entity_name name
     \<and> x_not_before cert = d_from d \<and> x_not_after cert = d_until d + day_seconds 365
     \<and> signed_by_ca (w_lib W) cert ca \<and> load_x509 (w_lib W) (w_cert_pem W cert) = Inr cert"

lemma legacy_keep_Inr:
  "legacy_keep W fs kn cn k r = (fs', Inr x) \<longleftrightarrow>
     (\<exists>cert. r = Inr cert \<and> w_write W (certs_path kn) = Written \<and> w_write W (certs_path cn) = Written
        \<and> fs' = fs(certs_path kn \<mapsto> w_key_pem W k, certs_path cn \<mapsto> w_cert_pem W cert) \<and> x = (k, cert))"
  by (auto simp: legacy_keep_def wbind_Inr legacy_save_Inr)

lemma generate_entity_cert_equips:
  assumes "generate_entity_cert W d fs name k ca = (fs', Inr x)" "workshop_correct W" "x_key ca = Some k"
    and "fs (certs_path (name @ lit ''_private.pem'')) = None"
    and "certs_path (name @ lit ''_private.pem'') \<noteq> certs_path (name @ lit ''_cert.pem'')"
  shows "\<exists>cert. equipped W fs' ca name d cert \<and> fs' = fs(certs_path (name @ lit ''_private.pem'') \<mapsto> w_key_pem W (d_key d),
    certs_path (name @ lit ''_cert.pem'') \<mapsto> w_cert_pem W cert)"
  using assms
  by (auto simp: generate_entity_cert_def Let_def legacy_keep_Inr workshop_correct_def equipped_def signed_by_ca_def)

lemma setup_ca_fresh:
  assumes "setup_ca W d fs = (fs', Inr (k, ca))" "workshop_correct W" "fs (certs_path ca_cert_name) = None"
  shows "k = d_key d \<and> x_key ca = Some k \<and> load_x509 (w_lib W) (w_cert_pem W ca) = Inr ca
    \<and> fs' = fs(certs_path ca_key_name \<mapsto> w_key_pem W k, certs_path ca_cert_name \<mapsto> w_cert_pem W ca)"
  using assms by (auto simp: setup_ca_def legacy_keep_Inr workshop_correct_def)

definition script_files :: "pystr list" where
  "script_files =
     [ca_key_name, ca_cert_name, lit ''server'' @ lit ''_private.pem'', lit ''server'' @ lit ''_cert.pem'',
      lit ''client1'' @ lit ''_private.pem'', lit ''client1'' @ lit ''_cert.pem'',
      lit ''client2'' @ lit ''_private.pem'', lit ''client2'' @ lit ''_cert.pem'']"

lemma script_files_distinct: "distinct (map certs_path script_files)"
  by code_simp

lemma legacy_ca_main_equips:
  assumes "legacy_ca_main W ds fs = (fs', Inr ())" "workshop_correct W"
    and "\<forall>n\<in>set script_files. fs (certs_path n) = None"
  shows "\<exists>ca cs cc1 cc2. fs' (certs_path ca_cert_name) = Some (w_cert_pem W ca)
    \<and> load_x509 (w_lib W) (w_cert_pem W ca) = Inr ca \<and> equipped W fs' ca (lit ''server'') (ds 1) cs
    \<and> equipped W fs' ca (lit ''client1'') (ds 2) cc1 \<and> equipped W fs' ca (lit ''client2'') (ds 3) cc2"
proof -
  note new = assms(3) [unfolded script_files_def, simplified]
  note apart = script_files_distinct [unfolded script_files_def, simplified]
  obtain fs1 fs2 fs3 k ca x1 x2 x3 where r: "setup_ca W (ds 0) fs = (fs1, Inr (k, ca))"
      "generate_entity_cert W (ds 1) fs1 (lit ''server'') k ca = (fs2, Inr x1)"
      "generate_entity_cert W (ds 2) fs2 (lit ''client1'') k ca = (fs3, Inr x2)"
      "generate_entity_cert W (ds 3) fs3 (lit ''client2'') k ca = (fs', Inr x3)"
    using assms(1) by (auto simp: legacy_ca_main_def wbind_Inr split: option.splits)
  note 0 = setup_ca_fresh [OF r(1) assms(2) conjunct1 [OF conjunct2 [OF new]]]
  obtain c1 where 1: "equipped W fs2 ca (lit ''server'') (ds 1) c1"
      "fs2 = fs1(certs_path (lit ''server'' @ lit ''_private.pem'') \<mapsto> w_key_pem W (d_key (ds 1)),
         certs_path (lit ''server'' @ lit ''_cert.pem'') \<mapsto> w_cert_pem W c1)"
    using generate_entity_cert_equips [OF r(2) assms(2)] 0 new apart by auto
  obtain c2 where 2: "equipped W fs3 ca (lit ''client1'') (ds 2) c2"
      "fs3 = fs2(certs_path (lit ''client1'' @ lit ''_private.pem'') \<mapsto> w_key_pem W (d_key (ds 2)),
         certs_path (lit ''client1'' @ lit ''_cert.pem'') \<mapsto> w_cert_pem W c2)"
    using generate_entity_cert_equips [OF r(3) assms(2)] 0 1(2) new apart by auto
  obtain c3 where 3: "equipped W fs' ca (lit ''client2'') (ds 3) c3"
      "fs' = fs3(certs_path (lit ''client2'' @ lit ''_private.pem'') \<mapsto> w_key_pem W (d_key (ds 3)),
         certs_path (lit ''client2'' @ lit ''_cert.pem'') \<mapsto> w_cert_pem W c3)"
    using generate_entity_cert_equips [OF r(4) assms(2)] 0 1(2) 2(2) new apart by auto
  have "fs' (certs_path ca_cert_name) = Some (w_cert_pem W ca)"
    using 0 1(2) 2(2) 3(2) apart by auto
  moreover have "equipped W fs' ca (lit ''server'') (ds 1) c1" "equipped W fs' ca (lit ''client1'') (ds 2) c2"
    using 1 2 3(2) apart by (auto simp: equipped_def)
  ultimately show ?thesis using 0 3(1) by blast
qed

section \<open>What the two programs load\<close>

text \<open>The start of \<open>main\<close> and of \<open>connect_and_handshake\<close>.\<close>

definition legacy_load_party :: "workshop \<Rightarrow> filesystem \<Rightarrow> pystr \<Rightarrow> legacy_party \<Rightarrow> legacy_party res" where
  "legacy_load_party W fs name p =
     rbind (legacy_pair W fs (name @ lit ''_private.pem'') (name @ lit ''_cert.pem'')) (\<lambda>(k, cert).
     rbind (legacy_load W fs (load_x509 (w_lib W)) ca_cert_name) (\<lambda>ca.
       Inr (p\<lparr>lp_key := k, lp_cert_pem := w_cert_pem W cert, lp_ca := ca\<rparr>)))"

lemma legacy_load_party_equipped:
  assumes "equipped W fs ca name d cert" "fs (certs_path ca_cert_name) = Some (w_cert_pem W ca)"
    and "load_x509 (w_lib W) (w_cert_pem W ca) = Inr ca"
    and "workshop_correct W" "legacy_load_party W fs name p = Inr q"
  shows "q = p\<lparr>lp_key := d_key d, lp_cert_pem := w_cert_pem W cert, lp_ca := ca\<rparr>"
  using assms
  by (auto simp: legacy_load_party_def legacy_pair_def legacy_load_def equipped_def workshop_correct_def rbind_Inr_iff
      with_fault_def split: option.splits)

lemma legacy_load_party_ok:
  assumes "equipped W fs ca name d cert" "fs (certs_path ca_cert_name) = Some (w_cert_pem W ca)"
    and "load_x509 (w_lib W) (w_cert_pem W ca) = Inr ca" "workshop_correct W" "\<forall>p. w_read_fault W p = None"
  shows "legacy_load_party W fs name p = Inr (p\<lparr>lp_key := d_key d, lp_cert_pem := w_cert_pem W cert, lp_ca := ca\<rparr>)"
  using assms
  by (simp add: legacy_load_party_def legacy_pair_def legacy_load_def equipped_def workshop_correct_def with_fault_def)

end
