(* ===== verification/Policy.thy ===== *)
theory Policy
  imports Pystr Storage "HOL-Library.Sublist"
begin

text \<open>
  \<open>scripts/check_forbidden_imports.py\<close>: the rules as regular expressions, with \<open>re\<close>'s
  backtracking search, the scan of one file, and the program over a tree of files.  What the
  rules match is then said without regular expressions.
\<close>

section \<open>Regular expressions\<close>

text \<open>The constructs the rules use; repetition and option are greedy.\<close>

datatype pat = One "nat \<Rightarrow> bool" | Many "nat \<Rightarrow> bool" | Word pystr | Seq pat pat | Or pat pat
  | Maybe pat | Bol | Eol | Boundary

text \<open>A place in the text: the character before it, if any, and what follows.\<close>

type_synonym place = "nat option \<times> pystr"

fun spans :: "(nat \<Rightarrow> bool) \<Rightarrow> nat option \<Rightarrow> pystr \<Rightarrow> (pystr \<times> place) list" where
  "spans P p [] = [([], p, [])]"
| "spans P p (c # s) =
     (if P c then map (\<lambda>(m, q). (c # m, q)) (spans P (Some c) s) else []) @ [([], p, c # s)]"

definition last_of :: "nat option \<Rightarrow> pystr \<Rightarrow> nat option" where
  "last_of p m = (if m = [] then p else Some (last m))"

definition at_boundary :: "(nat \<Rightarrow> bool) \<Rightarrow> place \<Rightarrow> bool" where
  "at_boundary W q =
     ((case fst q of None \<Rightarrow> False | Some c \<Rightarrow> W c) \<noteq> (case snd q of [] \<Rightarrow> False | c # _ \<Rightarrow> W c))"

text \<open>All ways to match here, in the order in which backtracking tries them.\<close>

fun walk :: "(nat \<Rightarrow> bool) \<Rightarrow> pat \<Rightarrow> place \<Rightarrow> (pystr \<times> place) list" where
  "walk W (One P) (p, s) = (case s of [] \<Rightarrow> [] | c # s' \<Rightarrow> if P c then [([c], Some c, s')] else [])"
| "walk W (Many P) (p, s) = spans P p s"
| "walk W (Word w) (p, s) =
     (if take (length w) s = w then [(w, last_of p w, drop (length w) s)] else [])"
| "walk W (Seq a b) q =
     concat (map (\<lambda>(m, q'). map (\<lambda>(m', q''). (m @ m', q'')) (walk W b q')) (walk W a q))"
| "walk W (Or a b) q = walk W a q @ walk W b q"
| "walk W (Maybe a) q = walk W a q @ [([], q)]"
| "walk W Bol q = (if fst q = None then [([], q)] else [])"
| "walk W Eol q = (if snd q = [] \<or> snd q = [10] then [([], q)] else [])"
| "walk W Boundary q = (if at_boundary W q then [([], q)] else [])"

text \<open>\<open>pattern.search(line)\<close> and \<open>m.group(0)\<close>: the first match at the leftmost place.\<close>

fun search_from :: "(nat \<Rightarrow> bool) \<Rightarrow> pat \<Rightarrow> nat option \<Rightarrow> pystr \<Rightarrow> pystr option" where
  "search_from W r p s =
     (case walk W r (p, s) of
        (m, _) # _ \<Rightarrow> Some m
      | [] \<Rightarrow> (case s of [] \<Rightarrow> None | c # s' \<Rightarrow> search_from W r (Some c) s'))"

declare search_from.simps [simp del]

definition search :: "(nat \<Rightarrow> bool) \<Rightarrow> pat \<Rightarrow> pystr \<Rightarrow> pystr option" where
  "search W r s = search_from W r None s"

section \<open>The rules\<close>

text \<open>\<open>^\s*(?:import|from)\s+NAME(?:\s|\.|$)\<close>\<close>

definition import_tail :: pat where
  "import_tail = Or (One py_space) (Or (One (\<lambda>c. c = 46)) Eol)"

definition import_pattern :: "string \<Rightarrow> pat" where
  "import_pattern name =
     Seq Bol (Seq (Many py_space) (Seq (Or (Word (lit ''import'')) (Word (lit ''from'')))
       (Seq (One py_space) (Seq (Many py_space) (Seq (Word (lit name)) import_tail)))))"

text \<open>\<open>\bAES[-_\.]?(?:MODE[_\.])?(?:CBC|CTR)\b\<close> and \<open>\bhashlib\.sha1\b|\bhashes\.SHA1\b\<close>\<close>

definition mode_pattern :: pat where
  "mode_pattern =
     Seq Boundary (Seq (Word (lit ''AES'')) (Seq (Maybe (One (\<lambda>c. c = 45 \<or> c = 95 \<or> c = 46)))
       (Seq (Maybe (Seq (Word (lit ''MODE'')) (One (\<lambda>c. c = 95 \<or> c = 46))))
         (Seq (Or (Word (lit ''CBC'')) (Word (lit ''CTR''))) Boundary))))"

definition sha1_pattern :: pat where
  "sha1_pattern =
     Or (Seq Boundary (Seq (Word (lit ''hashlib.sha1'')) Boundary))
        (Seq Boundary (Seq (Word (lit ''hashes.SHA1'')) Boundary))"

definition RULES :: "(pat \<times> pystr) list" where
  "RULES =
     [(import_pattern ''ssl'', lit ''ssl module is forbidden (we hand-roll the handshake)''),
      (import_pattern ''paramiko'', lit ''paramiko is a pre-built secure-channel library''),
      (import_pattern ''pickle'', lit ''pickle is forbidden for serialization (use JSON)''),
      (import_pattern ''random'', lit ''use os.urandom / secrets, never the random module''),
      (mode_pattern, lit ''ARCHITECTURE.md '' @ 167 # lit ''2: AES-CBC and AES-CTR are forbidden, use AES-GCM''),
      (sha1_pattern, lit ''ARCHITECTURE.md '' @ 167 # lit ''2: SHA-1 is forbidden, use SHA-256'')]"

definition EXEMPT_TOKEN :: pystr where
  "EXEMPT_TOKEN = lit ''# noqa: forbidden-import''"

section \<open>Scanning\<close>

definition passed_over :: "pystr \<Rightarrow> bool" where
  "passed_over line \<longleftrightarrow> sublist EXEMPT_TOKEN line \<or> take 1 (dropWhile py_space line) = lit ''#''"

definition check_line :: "(nat \<Rightarrow> bool) \<Rightarrow> nat \<Rightarrow> pystr \<Rightarrow> (nat \<times> pystr \<times> pystr) list" where
  "check_line W n line =
     (if passed_over line then []
      else List.map_filter (\<lambda>(r, reason). map_option (\<lambda>m. (n, reason, m)) (search W r line)) RULES)"

definition check_text :: "(nat \<Rightarrow> bool) \<Rightarrow> pystr \<Rightarrow> (nat \<times> pystr \<times> pystr) list" where
  "check_text W text = concat (map (\<lambda>(n, line). check_line W n line) (enumerate 1 (splitlines text)))"

text \<open>What the program asks of the file system.\<close>

record source_tree =
  t_exists :: "path \<Rightarrow> bool"
  t_is_file :: "path \<Rightarrow> bool"
  t_rglob_py :: "path \<Rightarrow> path list"
  t_read :: "path \<Rightarrow> bytes res"
  t_repr :: "pystr \<Rightarrow> pystr"

text \<open>A file that cannot be read or decoded counts as clean.\<close>

definition check_file :: "(nat \<Rightarrow> bool) \<Rightarrow> source_tree \<Rightarrow> path \<Rightarrow> (nat \<times> pystr \<times> pystr) list" where
  "check_file W T f =
     (case rbind (t_read T f) utf8_decode of
        Inl _ \<Rightarrow> []
      | Inr text \<Rightarrow> check_text W (universal_newlines text))"

definition EXCLUDED_DIRS :: "pystr list" where
  "EXCLUDED_DIRS = map lit [''tests'', ''__pycache__'', ''.pytest_cache'', ''legacy'', ''venv'', ''.venv'']"

definition DEFAULT_ROOTS :: "pystr list" where
  "DEFAULT_ROOTS = [lit ''zerotrust'']"

text \<open>\<open>p.suffix == '.py'\<close>: a name that ends in it and is longer.\<close>

definition is_py :: "path \<Rightarrow> bool" where
  "is_py p \<longleftrightarrow> suffix (lit ''.py'') (path_name p) \<and> path_name p \<noteq> lit ''.py''"

definition files_under :: "source_tree \<Rightarrow> path \<Rightarrow> path list" where
  "files_under T p =
     (if \<not> t_exists T p then []
      else if t_is_file T p \<and> is_py p then [p]
      else filter (\<lambda>f. \<not> list_ex (\<lambda>part. part \<in> set EXCLUDED_DIRS) (parts_of f)) (t_rglob_py T p))"

definition iter_python_files :: "source_tree \<Rightarrow> pystr list \<Rightarrow> path list" where
  "iter_python_files T roots = concat (map (\<lambda>r. files_under T (mk_path r)) roots)"

definition violation_line :: "source_tree \<Rightarrow> path \<Rightarrow> nat \<times> pystr \<times> pystr \<Rightarrow> pystr" where
  "violation_line T f v =
     (case v of (n, reason, m) \<Rightarrow>
        display_path f @ lit '':'' @ str_int (int n) @ lit '': '' @ reason @ [32, 8212, 32] @ t_repr T m)"

definition policy_main :: "(nat \<Rightarrow> bool) \<Rightarrow> source_tree \<Rightarrow> pystr list \<Rightarrow> int \<times> pystr list" where
  "policy_main W T roots =
     (let found = concat (map (\<lambda>f. map (violation_line T f) (check_file W T f)) (iter_python_files T roots));
          total = length found in
      if total \<noteq> 0 then
        (1, found @ [[10] @ lit ''FAIL: '' @ str_int (int total) @ lit '' forbidden-import violation(s) found.''])
      else (0, [lit ''OK: no forbidden imports / modes found.'']))"

section \<open>What a pattern means\<close>

text \<open>The relation between a pattern, the place where it is tried, the text it takes and the
  place after it, without an order of attempts.\<close>

inductive fits :: "(nat \<Rightarrow> bool) \<Rightarrow> pat \<Rightarrow> place \<Rightarrow> pystr \<Rightarrow> place \<Rightarrow> bool" for W where
  One: "P c \<Longrightarrow> fits W (One P) (p, c # s) [c] (Some c, s)"
| Many: "list_all P m \<Longrightarrow> fits W (Many P) (p, m @ s) m (last_of p m, s)"
| Word: "fits W (Word w) (p, w @ s) w (last_of p w, s)"
| Seq: "fits W a q m q' \<Longrightarrow> fits W b q' m' q'' \<Longrightarrow> fits W (Seq a b) q (m @ m') q''"
| Or1: "fits W a q m q' \<Longrightarrow> fits W (Or a b) q m q'"
| Or2: "fits W b q m q' \<Longrightarrow> fits W (Or a b) q m q'"
| Some: "fits W a q m q' \<Longrightarrow> fits W (Maybe a) q m q'"
| None: "fits W (Maybe a) q [] q"
| Bol: "fits W Bol (None, s) [] (None, s)"
| Eol: "s = [] \<or> s = [10] \<Longrightarrow> fits W Eol (p, s) [] (p, s)"
| Boundary: "at_boundary W q \<Longrightarrow> fits W Boundary q [] q"

inductive_simps fits_simps:
  "fits W (One P) q m q'" "fits W (Many P) q m q'" "fits W (Word w) q m q'" "fits W (Seq a b) q m q'"
  "fits W (Or a b) q m q'" "fits W (Maybe a) q m q'" "fits W Bol q m q'" "fits W Eol q m q'"
  "fits W Boundary q m q'"

lemma last_of_simps [simp]: "last_of p [] = p" "last_of p (c # m) = last_of (Some c) m"
  "last_of p (m @ m') = last_of (last_of p m) m'"
  by (auto simp: last_of_def)

lemma fits_place: "fits W r q m q' \<Longrightarrow> snd q = m @ snd q' \<and> fst q' = last_of (fst q) m"
  by (induction rule: fits.induct) auto

lemma spans_iff: "(m, q) \<in> set (spans P p s) \<longleftrightarrow> list_all P m \<and> s = m @ snd q \<and> fst q = last_of p m"
proof (induction s arbitrary: p m)
  case (Cons c s)
  then show ?case by (cases m; cases q) auto
qed (cases q, auto)

text \<open>The matcher finds exactly the ways in which the pattern fits.\<close>

lemma walk_iff: "(m, q') \<in> set (walk W r q) \<longleftrightarrow> fits W r q m q'"
proof (induction r arbitrary: q m q')
  case (One P)
  then show ?case by (cases q) (auto simp: fits_simps split: list.splits)
next
  case (Many P)
  then show ?case by (cases q; cases q') (auto simp: fits_simps spans_iff)
next
  case (Word w)
  have "take (length w) b = w \<Longrightarrow> b = w @ drop (length w) b" for b by (metis append_take_drop_id)
  then show ?case by (cases q; cases q') (auto simp: fits_simps)
next
  case (Seq a b)
  have "(m, q') \<in> set (walk W (Seq a b) q) \<longleftrightarrow>
      (\<exists>m1 q1 m2. (m1, q1) \<in> set (walk W a q) \<and> (m2, q') \<in> set (walk W b q1) \<and> m = m1 @ m2)"
    by (simp add: image_iff split_def) (metis fst_conv snd_conv prod.collapse)
  also have "\<dots> \<longleftrightarrow> (\<exists>m1 q1 m2. fits W a q m1 q1 \<and> fits W b q1 m2 q' \<and> m = m1 @ m2)"
    by (simp only: Seq.IH)
  finally show ?case by (auto simp: fits_simps)
next
  case Bol
  then show ?case by (cases q) (auto simp: fits_simps)
next
  case Eol
  then show ?case by (cases q) (auto simp: fits_simps)
qed (auto simp: fits_simps)

lemma walk_Nil_iff: "walk W r (p, s) = [] \<longleftrightarrow> \<not> (\<exists>m q. s = m @ snd q \<and> fits W r (p, s) m q)"
proof -
  have "walk W r (p, s) = [] \<longleftrightarrow> \<not> (\<exists>m q. fits W r (p, s) m q)"
    by (metis walk_iff ex_in_conv prod.exhaust set_empty)
  moreover have "fits W r (p, s) m q \<Longrightarrow> s = m @ snd q" for m q using fits_place [of W r "(p, s)" m q] by simp
  ultimately show ?thesis by blast
qed

lemma search_from_iff:
  "search_from W r p s \<noteq> None \<longleftrightarrow> (\<exists>u m q. s = u @ m @ snd q \<and> fits W r (last_of p u, m @ snd q) m q)"
proof (induction s arbitrary: p)
  case Nil
  have "search_from W r p [] \<noteq> None \<longleftrightarrow> walk W r (p, []) \<noteq> []"
    by (subst search_from.simps) (auto split: list.split)
  also have "\<dots> \<longleftrightarrow> (\<exists>m q. [] = m @ snd q \<and> fits W r (p, []) m q)" by (simp add: walk_Nil_iff)
  finally show ?case by simp
next
  case (Cons c s)
  have "search_from W r p (c # s) \<noteq> None \<longleftrightarrow> walk W r (p, c # s) \<noteq> [] \<or> search_from W r (Some c) s \<noteq> None"
    by (subst search_from.simps) (auto split: list.split)
  also have "\<dots> \<longleftrightarrow> (\<exists>m q. c # s = m @ snd q \<and> fits W r (p, m @ snd q) m q)
      \<or> (\<exists>u m q. s = u @ m @ snd q \<and> fits W r (last_of (Some c) u, m @ snd q) m q)"
    unfolding walk_Nil_iff Cons.IH by fastforce
  also have "\<dots> \<longleftrightarrow> (\<exists>u m q. c # s = u @ m @ snd q \<and> fits W r (last_of p u, m @ snd q) m q)" (is "?L \<or> ?R \<longleftrightarrow> ?U")
  proof
    assume "?L \<or> ?R"
    then show ?U
    proof
      assume ?L
      then show ?U by (metis append_Nil last_of_simps(1))
    next
      assume ?R
      then obtain u m q where "s = u @ m @ snd q" "fits W r (last_of (Some c) u, m @ snd q) m q" by blast
      then show ?U by (intro exI [of _ "c # u"] exI [of _ m] exI [of _ q]) simp
    qed
  next
    assume ?U
    then obtain u m q where u: "c # s = u @ m @ snd q" "fits W r (last_of p u, m @ snd q) m q" by blast
    show "?L \<or> ?R"
    proof (cases u)
      case Nil
      with u have ?L by (intro exI [of _ m] exI [of _ q]) simp
      then show ?thesis ..
    next
      case (Cons d u')
      with u have ?R by (intro exI [of _ u'] exI [of _ m] exI [of _ q]) simp
      then show ?thesis ..
    qed
  qed
  finally show ?case .
qed

section \<open>What the rules forbid\<close>

text \<open>A line that starts with an import of the module itself: its name directly after the keyword
  and then nothing, white space or a dot.\<close>

definition imports_module :: "string \<Rightarrow> pystr \<Rightarrow> bool" where
  "imports_module name l \<longleftrightarrow>
     (\<exists>ws kw ws' rest. l = ws @ kw @ ws' @ lit name @ rest \<and> list_all py_space ws \<and> kw \<in> {lit ''import'', lit ''from''}
        \<and> ws' \<noteq> [] \<and> list_all py_space ws' \<and> (rest = [] \<or> py_space (hd rest) \<or> hd rest = 46))"

lemma search_iff:
  "search W r l \<noteq> None \<longleftrightarrow> (\<exists>u m q. l = u @ m @ snd q \<and> fits W r (last_of None u, m @ snd q) m q)"
  unfolding search_def by (rule search_from_iff)

lemma last_of_None: "last_of None u = None \<longleftrightarrow> u = []"
  by (simp add: last_of_def)

lemma fits_tail: "(\<exists>m q. fits W import_tail (p, s) m q) \<longleftrightarrow> s = [] \<or> py_space (hd s) \<or> hd s = 46"
proof (cases s)
  case (Cons c s')
  have "py_space 10" by (simp add: py_space_def)
  then show ?thesis unfolding Cons by (auto simp: import_tail_def fits_simps)
qed (auto simp: import_tail_def fits_simps)

inductive_cases SeqE: "fits W (Seq a b) q m q'"

lemma fits_importD:
  assumes "fits W (import_pattern name) q0 m q"
  shows "fst q0 = None \<and> imports_module name (snd q0)"
proof -
  obtain q1 m1 q2 m2 q3 m3 q4 m4 q5 m5 q6 m6 m7 where w: "fits W Bol q0 m1 q1" "fits W (Many py_space) q1 m2 q2"
      "fits W (Or (Word (lit ''import'')) (Word (lit ''from''))) q2 m3 q3" "fits W (One py_space) q3 m4 q4"
      "fits W (Many py_space) q4 m5 q5" "fits W (Word (lit name)) q5 m6 q6" "fits W import_tail q6 m7 q"
    using assms unfolding import_pattern_def by (elim SeqE) (assumption | rule that)+
  have "snd q6 = [] \<or> py_space (hd (snd q6)) \<or> hd (snd q6) = 46"
    using fits_tail [of W "fst q6" "snd q6"] w(7) by (metis prod.collapse)
  moreover have "snd q0 = m1 @ m2 @ m3 @ m4 @ m5 @ m6 @ snd q6" using w(1-6) [THEN fits_place] by simp
  moreover have "m1 = []" "list_all py_space m2" "m3 \<in> {lit ''import'', lit ''from''}" "m4 \<noteq> []"
    "list_all py_space (m4 @ m5)" "m6 = lit name" "fst q0 = None"
    using w(1-6) by (auto simp: fits_simps)
  ultimately show ?thesis
    unfolding imports_module_def
    by (intro conjI exI [of _ m2] exI [of _ m3] exI [of _ "m4 @ m5"] exI [of _ "snd q6"]) simp_all
qed

lemma fits_importI:
  assumes "imports_module name l"
  shows "\<exists>m q. fits W (import_pattern name) (None, l) m q"
proof -
  obtain ws kw ws' rest where l: "l = ws @ kw @ ws' @ lit name @ rest" "list_all py_space ws"
      "kw \<in> {lit ''import'', lit ''from''}" "ws' \<noteq> []" "list_all py_space ws'"
      "rest = [] \<or> py_space (hd rest) \<or> hd rest = 46"
    using assms unfolding imports_module_def by blast
  obtain c ws'' where c: "ws' = c # ws''" "py_space c" "list_all py_space ws''"
    using l(4,5) by (cases ws') auto
  define p where "p = last_of (Some c) (ws'' @ lit name)"
  obtain m q where t: "fits W import_tail (p, rest) m q"
    using fits_tail [of W p rest] l(6) by blast
  have 1: "fits W (Many py_space) (None, l) ws (last_of None ws, kw @ ws' @ lit name @ rest)"
    unfolding l(1) using l(2) by (rule fits.Many)
  have 2: "fits W (Or (Word (lit ''import'')) (Word (lit ''from''))) (last_of None ws, kw @ ws' @ lit name @ rest) kw
      (last_of (last_of None ws) kw, ws' @ lit name @ rest)"
    using l(3) by (auto intro: fits.intros)
  have 3: "fits W (One py_space) (last_of (last_of None ws) kw, ws' @ lit name @ rest) [c] (Some c, ws'' @ lit name @ rest)"
    unfolding c(1) using fits.One [of py_space c, OF c(2)] by simp
  have 4: "fits W (Many py_space) (Some c, ws'' @ lit name @ rest) ws'' (last_of (Some c) ws'', lit name @ rest)"
    using c(3) by (rule fits.Many)
  have 5: "fits W (Word (lit name)) (last_of (Some c) ws'', lit name @ rest) (lit name) (p, rest)"
    unfolding p_def last_of_simps by (rule fits.Word)
  show ?thesis
    using fits.Seq [OF fits.Bol fits.Seq [OF 1 fits.Seq [OF 2 fits.Seq [OF 3 fits.Seq [OF 4 fits.Seq [OF 5 t]]]]]]
    unfolding import_pattern_def by blast
qed

lemma search_import: "search W (import_pattern name) l \<noteq> None \<longleftrightarrow> imports_module name l"
proof
  assume "search W (import_pattern name) l \<noteq> None"
  then obtain u m q where l: "l = u @ m @ snd q" and f: "fits W (import_pattern name) (last_of None u, m @ snd q) m q"
    unfolding search_iff by blast
  with fits_importD [OF f] show "imports_module name l" by (simp add: last_of_None)
next
  assume "imports_module name l"
  then obtain m q where f: "fits W (import_pattern name) (None, l) m q" using fits_importI by blast
  then have "l = [] @ m @ snd q" using fits_place [OF f] by simp
  with f show "search W (import_pattern name) l \<noteq> None"
    unfolding search_iff by (metis append_Nil last_of_simps(1))
qed

text \<open>One of the names, with no word character before it and none behind it.\<close>

definition standalone :: "(nat \<Rightarrow> bool) \<Rightarrow> pystr list \<Rightarrow> pystr \<Rightarrow> bool" where
  "standalone W names l \<longleftrightarrow>
     (\<exists>u m v. l = u @ m @ v \<and> m \<in> set names \<and> (u = [] \<or> \<not> W (last u)) \<and> (v = [] \<or> \<not> W (hd v)))"

text \<open>Python's word characters, as far as the rules depend on them.\<close>

definition word_chars :: "(nat \<Rightarrow> bool) \<Rightarrow> bool" where
  "word_chars W \<longleftrightarrow>
     (\<forall>c < 128. W c \<longleftrightarrow> 48 \<le> c \<and> c \<le> 57 \<or> 65 \<le> c \<and> c \<le> 90 \<or> 97 \<le> c \<and> c \<le> 122 \<or> c = 95)"

definition mode_names :: "pystr list" where
  "mode_names =
     [lit ''AES'' @ a @ b @ k. a \<leftarrow> [[], [45], [95], [46]], b \<leftarrow> [[], lit ''MODE_'', lit ''MODE.''],
        k \<leftarrow> [lit ''CBC'', lit ''CTR'']]"

definition sha1_names :: "pystr list" where
  "sha1_names = [lit ''hashlib.sha1'', lit ''hashes.SHA1'']"

text \<open>A pattern that stands for a list of words.\<close>

definition spells :: "(nat \<Rightarrow> bool) \<Rightarrow> pat \<Rightarrow> pystr list \<Rightarrow> bool" where
  "spells W r ws \<longleftrightarrow> (\<forall>p s m q. fits W r (p, s) m q \<longleftrightarrow> m \<in> set ws \<and> s = m @ snd q \<and> fst q = last_of p m)"

lemma spellsD: "spells W r ws \<Longrightarrow> fits W r q0 m q \<longleftrightarrow> m \<in> set ws \<and> snd q0 = m @ snd q \<and> fst q = last_of (fst q0) m"
  by (cases q0; cases q) (simp add: spells_def)

lemma spells_Word: "spells W (Word w) [w]"
  by (auto simp: spells_def fits_simps)

lemma spells_Or: "spells W a ws \<Longrightarrow> spells W b vs \<Longrightarrow> spells W (Or a b) (ws @ vs)"
  by (auto simp: spells_def fits_simps)

lemma spells_Maybe: "spells W a ws \<Longrightarrow> spells W (Maybe a) ([] # ws)"
  by (auto simp: spells_def fits_simps)

lemma spells_One: "(\<And>c. P c \<longleftrightarrow> c \<in> set cs) \<Longrightarrow> spells W (One P) (map (\<lambda>c. [c]) cs)"
  by (auto simp: spells_def fits_simps)

lemma spells_Seq:
  assumes "spells W a ws" "spells W b vs"
  shows "spells W (Seq a b) (concat (map (\<lambda>w. map (\<lambda>v. w @ v) vs) ws))"
  unfolding spells_def
proof (intro allI)
  fix p s m and q :: place
  have "fits W (Seq a b) (p, s) m q \<longleftrightarrow> (\<exists>m1 q1 m2. fits W a (p, s) m1 q1 \<and> fits W b q1 m2 q \<and> m = m1 @ m2)"
    by (auto simp: fits_simps)
  also have "\<dots> \<longleftrightarrow> (\<exists>m1 m2 q1. m1 \<in> set ws \<and> m2 \<in> set vs \<and> s = m1 @ snd q1 \<and> fst q1 = last_of p m1
      \<and> snd q1 = m2 @ snd q \<and> fst q = last_of (fst q1) m2 \<and> m = m1 @ m2)"
    unfolding spellsD [OF assms(1)] spellsD [OF assms(2)] by auto
  also have "\<dots> \<longleftrightarrow> m \<in> set (concat (map (\<lambda>w. map (\<lambda>v. w @ v) vs) ws)) \<and> s = m @ snd q \<and> fst q = last_of p m"
    by auto
  finally show "fits W (Seq a b) (p, s) m q \<longleftrightarrow>
      m \<in> set (concat (map (\<lambda>w. map (\<lambda>v. w @ v) vs) ws)) \<and> s = m @ snd q \<and> fst q = last_of p m" .
qed

lemma fits_Seq_assoc: "fits W (Seq a (Seq b c)) q m q' \<longleftrightarrow> fits W (Seq (Seq a b) c) q m q'"
proof
  assume "fits W (Seq a (Seq b c)) q m q'"
  then obtain m1 q1 m2 q2 m3 where "fits W a q m1 q1" "fits W b q1 m2 q2" "fits W c q2 m3 q'" "m = m1 @ m2 @ m3"
    by (elim SeqE) blast
  then show "fits W (Seq (Seq a b) c) q m q'"
    using fits.Seq [OF fits.Seq [of W a q m1 q1 b m2 q2], of c m3 q'] by simp
next
  assume "fits W (Seq (Seq a b) c) q m q'"
  then obtain m1 q1 m2 q2 m3 where "fits W a q m1 q1" "fits W b q1 m2 q2" "fits W c q2 m3 q'" "m = m1 @ m2 @ m3"
    by (elim SeqE) (metis append_assoc)
  then show "fits W (Seq a (Seq b c)) q m q'"
    using fits.Seq [of W a q m1 q1 "Seq b c", OF _ fits.Seq [of W b q1 m2 q2 c m3 q']] by simp
qed

lemma search_cong: "(\<And>q m q'. fits W r q m q' \<longleftrightarrow> fits W r' q m q') \<Longrightarrow> search W r l \<noteq> None \<longleftrightarrow> search W r' l \<noteq> None"
  unfolding search_iff by simp

lemma search_Or: "search W (Or a b) l \<noteq> None \<longleftrightarrow> search W a l \<noteq> None \<or> search W b l \<noteq> None"
  unfolding search_iff fits_simps(5) by blast

lemma search_standalone:
  assumes "spells W r ws" "\<forall>w\<in>set ws. w \<noteq> [] \<and> W (hd w) \<and> W (last w)"
  shows "search W (Seq Boundary (Seq r Boundary)) l \<noteq> None \<longleftrightarrow> standalone W ws l"
proof -
  have "fits W (Seq Boundary (Seq r Boundary)) (last_of None u, m @ v) m (p, v) \<longleftrightarrow>
      m \<in> set ws \<and> (u = [] \<or> \<not> W (last u)) \<and> (v = [] \<or> \<not> W (hd v)) \<and> p = last_of (last_of None u) m" for u m v p
  proof -
    have "fits W (Seq Boundary (Seq r Boundary)) (last_of None u, m @ v) m (p, v) \<longleftrightarrow>
        at_boundary W (last_of None u, m @ v) \<and> at_boundary W (p, v) \<and> m \<in> set ws \<and> p = last_of (last_of None u) m"
      by (auto simp: fits_simps spellsD [OF assms(1)])
    also have "\<dots> \<longleftrightarrow> m \<in> set ws \<and> (u = [] \<or> \<not> W (last u)) \<and> (v = [] \<or> \<not> W (hd v)) \<and> p = last_of (last_of None u) m"
    proof (cases "m \<in> set ws")
      case True
      then have "m \<noteq> []" "W (hd m)" "W (last m)" using assms(2) by auto
      then show ?thesis by (cases m; cases v) (auto simp: at_boundary_def last_of_def split: if_splits)
    qed simp
    finally show ?thesis .
  qed
  then show ?thesis unfolding search_iff standalone_def by auto
qed

lemma spells_mode:
  "spells W (Seq (Word (lit ''AES'')) (Seq (Maybe (One (\<lambda>c. c = 45 \<or> c = 95 \<or> c = 46)))
     (Seq (Maybe (Seq (Word (lit ''MODE'')) (One (\<lambda>c. c = 95 \<or> c = 46)))) (Or (Word (lit ''CBC'')) (Word (lit ''CTR''))))))
   mode_names"
proof -
  have 1: "spells W (One (\<lambda>c. c = 45 \<or> c = 95 \<or> c = 46)) (map (\<lambda>c. [c]) [45, 95, 46])" by (rule spells_One) auto
  have 2: "spells W (One (\<lambda>c. c = 95 \<or> c = 46)) (map (\<lambda>c. [c]) [95, 46])" by (rule spells_One) auto
  have "spells W (Seq (Word (lit ''AES'')) (Seq (Maybe (One (\<lambda>c. c = 45 \<or> c = 95 \<or> c = 46)))
     (Seq (Maybe (Seq (Word (lit ''MODE'')) (One (\<lambda>c. c = 95 \<or> c = 46)))) (Or (Word (lit ''CBC'')) (Word (lit ''CTR''))))))
     (concat (map (\<lambda>w. map (\<lambda>v. w @ v) (concat (map (\<lambda>w. map (\<lambda>v. w @ v)
       (concat (map (\<lambda>w. map (\<lambda>v. w @ v) ([lit ''CBC''] @ [lit ''CTR'']))
         ([] # concat (map (\<lambda>w. map (\<lambda>v. w @ v) (map (\<lambda>c. [c]) [95, 46])) [lit ''MODE'']))))) ([] # map (\<lambda>c. [c]) [45, 95, 46]))))
       [lit ''AES'']))"
    by (rule spells_Seq [OF spells_Word spells_Seq [OF spells_Maybe [OF 1] spells_Seq [OF spells_Maybe [OF spells_Seq
      [OF spells_Word 2]] spells_Or [OF spells_Word spells_Word]]]])
  then show ?thesis by (simp add: mode_names_def lit_def)
qed

lemma mode_pattern_assoc:
  "fits W mode_pattern q m q' \<longleftrightarrow>
     fits W (Seq Boundary (Seq (Seq (Word (lit ''AES'')) (Seq (Maybe (One (\<lambda>c. c = 45 \<or> c = 95 \<or> c = 46)))
       (Seq (Maybe (Seq (Word (lit ''MODE'')) (One (\<lambda>c. c = 95 \<or> c = 46)))) (Or (Word (lit ''CBC'')) (Word (lit ''CTR''))))))
       Boundary)) q m q'"
proof -
  have cong: "(\<And>q m q'. fits W b q m q' \<longleftrightarrow> fits W b' q m q') \<Longrightarrow> fits W (Seq a b) q m q' \<longleftrightarrow> fits W (Seq a b') q m q'"
    for a b b' q m q' by (simp add: fits_simps(4))
  show ?thesis
    unfolding mode_pattern_def
    by (intro cong, subst fits_Seq_assoc [symmetric], intro cong, subst fits_Seq_assoc [symmetric], intro cong,
        rule fits_Seq_assoc)
qed

section \<open>The verdict\<close>

definition banned :: "(nat \<Rightarrow> bool) \<Rightarrow> pystr \<Rightarrow> bool" where
  "banned W l \<longleftrightarrow>
     list_ex (\<lambda>name. imports_module name l) [''ssl'', ''paramiko'', ''pickle'', ''random'']
     \<or> standalone W mode_names l \<or> standalone W sha1_names l"

lemma word_chars_names:
  assumes "word_chars W"
  shows "\<forall>w\<in>set (mode_names @ sha1_names). w \<noteq> [] \<and> W (hd w) \<and> W (last w)"
proof -
  have "W c" if "c \<in> {65, 67, 82, 83, 104, 49}" for c
    using assms that unfolding word_chars_def by auto
  then show ?thesis by (simp add: mode_names_def sha1_names_def lit_def)
qed

lemma search_mode:
  assumes "word_chars W"
  shows "search W mode_pattern l \<noteq> None \<longleftrightarrow> standalone W mode_names l"
  using search_cong [OF mode_pattern_assoc, of W l] search_standalone [OF spells_mode] word_chars_names [OF assms] by simp

lemma search_sha1:
  assumes "word_chars W"
  shows "search W sha1_pattern l \<noteq> None \<longleftrightarrow> standalone W sha1_names l"
proof -
  have "search W sha1_pattern l \<noteq> None \<longleftrightarrow>
      standalone W [lit ''hashlib.sha1''] l \<or> standalone W [lit ''hashes.SHA1''] l"
    unfolding sha1_pattern_def search_Or
    using word_chars_names [OF assms] by (simp add: search_standalone [OF spells_Word] sha1_names_def del: not_None_eq)
  also have "\<dots> \<longleftrightarrow> standalone W sha1_names l" by (auto simp: standalone_def sha1_names_def)
  finally show ?thesis .
qed

lemma check_line_clean:
  assumes "word_chars W"
  shows "check_line W n l = [] \<longleftrightarrow> passed_over l \<or> \<not> banned W l"
proof -
  have "List.map_filter (\<lambda>(r, reason). map_option (\<lambda>m. (n, reason, m)) (search W r l)) RULES = []
      \<longleftrightarrow> (\<forall>(r, reason)\<in>set RULES. search W r l = None)"
    by (auto simp: List.map_filter_def filter_empty_conv)
  also have "\<dots> \<longleftrightarrow> \<not> banned W l"
  proof -
    have "search W (import_pattern name) l = None \<longleftrightarrow> \<not> imports_module name l" for name
      using search_import [of W name l] by blast
    moreover have "search W mode_pattern l = None \<longleftrightarrow> \<not> standalone W mode_names l"
      "search W sha1_pattern l = None \<longleftrightarrow> \<not> standalone W sha1_names l"
      using search_mode [OF assms, of l] search_sha1 [OF assms, of l] by blast+
    ultimately show ?thesis by (simp add: RULES_def banned_def)
  qed
  finally show ?thesis by (simp add: check_line_def)
qed

lemma check_text_clean:
  assumes "word_chars W"
  shows "check_text W t = [] \<longleftrightarrow> (\<forall>l\<in>set (splitlines t). passed_over l \<or> \<not> banned W l)"
proof -
  have "check_text W t = [] \<longleftrightarrow> (\<forall>(n, l)\<in>set (enumerate 1 (splitlines t)). passed_over l \<or> \<not> banned W l)"
    by (auto simp: check_text_def check_line_clean [OF assms])
  also have "\<dots> \<longleftrightarrow> (\<forall>l\<in>snd ` set (enumerate 1 (splitlines t)). passed_over l \<or> \<not> banned W l)" by auto
  also have "snd ` set (enumerate 1 (splitlines t)) = set (splitlines t)"
    by (metis list.set_map map_snd_enumerate)
  finally show ?thesis .
qed

text \<open>The text the checker sees of a file; none when it cannot be read or decoded.\<close>

definition text_of :: "source_tree \<Rightarrow> path \<Rightarrow> pystr option" where
  "text_of T f = (case rbind (t_read T f) utf8_decode of Inl _ \<Rightarrow> None | Inr t \<Rightarrow> Some (universal_newlines t))"

lemma check_file_text: "check_file W T f = (case text_of T f of None \<Rightarrow> [] | Some t \<Rightarrow> check_text W t)"
  by (simp add: check_file_def text_of_def split: sum.split)

lemma policy_main_exit: "fst (policy_main W T roots) = (if \<forall>f\<in>set (iter_python_files T roots). check_file W T f = [] then 0 else 1)"
  by (auto simp: policy_main_def Let_def)

end
