(* ===== verification/Demo.thy ===== *)
theory Demo
  imports Examples Agreement Delivery Ca Webui Pool_Time Startup Legacy_Ca Policy
begin

text \<open>
  Bounds on printed messages, and two parties of the handshake with concrete keys, on which
  the properties of the handshake are instantiated.
\<close>

section \<open>Small messages fit a frame\<close>

text \<open>An upper bound on the length of a printed value.\<close>

primrec weight :: "json \<Rightarrow> nat" where
  "weight JNull = 4"
| "weight (JBool b) = 5"
| "weight (JInt i) = length (str_int i)"
| "weight (JFloat f) = length (repr_float f)"
| "weight (JStr s) = 12 * length s + 2"
| "weight (JArr xs) = 2 + sum_list (map (\<lambda>n. n + 2) (map weight xs))"
| "weight (JObj kvs) = 2 + sum_list (map (\<lambda>(k, n). 12 * length k + n + 6) (map (map_prod id weight) kvs))"

lemma length_escape_char: "length (escape_char a c) \<le> 12"
  by (auto simp: escape_char_def u_escape_def split: option.split)

lemma length_quote: "length (quote a s) \<le> 12 * length s + 2"
proof -
  have "length (concat (map (escape_char a) s)) \<le> 12 * length s"
  proof (induction s)
    case (Cons c s)
    then show ?case using length_escape_char [of a c] by simp
  qed simp
  then show ?thesis by (simp add: quote_def)
qed

lemma length_join_2: "length sep \<le> 2 \<Longrightarrow> length (join sep xs) \<le> sum_list (map (\<lambda>x. length x + 2) xs)"
  by (induction sep xs rule: join.induct) auto

lemma length_dumps:
  assumes o: "length (item_sep opts) \<le> 2" "length (key_sep opts) \<le> 2"
  shows "length (dumps opts x) \<le> weight x"
proof (induction x)
  case (JStr s)
  then show ?case using length_quote by simp
next
  case (JArr xs)
  have "length (join (item_sep opts) (map (dumps opts) xs)) \<le> sum_list (map (\<lambda>x. length x + 2) (map (dumps opts) xs))"
    by (rule length_join_2) (rule o(1))
  also have "\<dots> \<le> sum_list (map (\<lambda>x. weight x + 2) xs)"
    using JArr.IH by (auto simp: comp_def intro!: sum_list_mono)
  finally show ?case by (simp add: comp_def)
next
  case (JObj kvs)
  let ?item = "\<lambda>(k, x). quote (ascii_only opts) k @ key_sep opts @ dumps opts x"
  have "length (join (item_sep opts) (map ?item kvs)) \<le> sum_list (map (\<lambda>x. length x + 2) (map ?item kvs))"
    by (rule length_join_2) (rule o(1))
  also have "\<dots> \<le> sum_list (map (\<lambda>(k, x). 12 * length k + weight x + 6) kvs)"
  proof -
    have "length (?item kv) + 2 \<le> (case kv of (k, x) \<Rightarrow> 12 * length k + weight x + 6)" if "kv \<in> set kvs" for kv
    proof (cases kv)
      case (Pair k x)
      then show ?thesis using JObj.IH [of kv x] that length_quote [of "ascii_only opts" k] o by (simp add: snds.simps)
    qed
    then show ?thesis by (auto simp: comp_def intro!: sum_list_mono)
  qed
  finally have "length (join (item_sep opts) (map ?item kvs)) \<le> sum_list (map (\<lambda>(k, x). 12 * length k + weight x + 6) kvs)" .
  moreover have "map (\<lambda>(k, d). quote (ascii_only opts) k @ key_sep opts @ d) (map (map_prod id (dumps opts)) kvs) = map ?item kvs"
    by (simp add: split_def)
  moreover have "map (\<lambda>(k, n). 12 * length k + n + 6) (map (map_prod id weight) kvs) =
      map (\<lambda>(k, x). 12 * length k + weight x + 6) kvs"
    by (simp add: split_def)
  ultimately show ?case by (simp del: map_map)
qed auto

lemma length_utf8: "utf8_chars s = Some bs \<Longrightarrow> length bs \<le> 4 * length s"
proof (induction s arbitrary: bs)
  case (Cons c s)
  obtain b r where br: "utf8_char c = Some b" "utf8_chars s = Some r" "bs = b @ r"
    using Cons.prems by (auto split: option.split_asm)
  have "length b \<le> 4" using br(1) by (auto simp: utf8_char_def split: if_split_asm)
  with Cons.IH [OF br(2)] br(3) show ?case by simp
qed simp

lemma pack_small:
  assumes "weight (JObj d) \<le> 8000000" "wf_json (JObj d)"
  shows "\<exists>bs. pack_message (JObj d) = Inr bs"
proof -
  obtain bs where b: "utf8_encode (dumps compact_opts (JObj d)) = Inr bs"
    using utf8_encode_wf [OF wf_str_dumps [OF text_opts_simps(2) assms(2)]] by blast
  then have "length bs \<le> 4 * length (dumps compact_opts (JObj d))"
    by (intro length_utf8) (simp add: utf8_encode_def)
  also have "\<dots> \<le> 4 * weight (JObj d)" using length_dumps [of compact_opts "JObj d"] by (simp add: compact_opts_def)
  also have "\<dots> \<le> 4 * 8000000" using assms(1) by simp
  finally have "length bs \<le> 32000000" by simp
  then have "\<not> MAX_MESSAGE_BYTES < length bs" by (simp add: MAX_MESSAGE_BYTES_def)
  with b show ?thesis by (simp add: pack_message_def del: dumps.simps)
qed

lemma wire_small:
  assumes "t \<in> set MESSAGE_TYPES" "stamp_ok st" "wf_json (JObj p)" "weight (JObj p) \<le> 5000000"
    and "length (st_uuid st) \<le> 100"
  shows "\<exists>bs. wire st t p = Inr bs"
proof -
  obtain d where d: "make_envelope st t p = Inr d" using assms(1) by (simp add: make_envelope_def)
  have w: "wf_json (JObj d)" using make_envelope_wf [OF d assms(3)] assms(2) by (simp add: stamp_ok_def)
  have i: "length (str_int (st_time st)) \<le> 4301"
    using assms(2) by (auto simp: stamp_ok_def wf_int_def max_int_digits_def str_int_def)
  have "length t \<le> 100" using assms(1) by (auto simp: MESSAGE_TYPES_def)
  moreover have "length (b64encode (st_nonce st)) = 24"
    using assms(2) by (simp add: stamp_ok_def length_b64encode)
  moreover have "length (str_int 1) = 1" by (simp add: str_int_def dec.simps)
  ultimately have "weight (JObj d) \<le> 8000000"
    using d i assms(4,5)
    by (auto simp: make_envelope_def PROTOCOL_VERSION_def split: if_split_asm)
  from pack_small [OF this w] d show ?thesis by (simp add: wire_def)
qed

text \<open>A connection on which the given bytes arrive in one segment each.\<close>

definition arriving :: "bytes list \<Rightarrow> sock" where
  "arriving bss = map Data (filter (\<lambda>bs. bs \<noteq> []) bss)"

lemma arriving [simp]: "clean (arriving bss)" "stream (arriving bss) = concat bss"
proof -
  show "clean (arriving bss)" by (auto simp: clean_def arriving_def)
  show "stream (arriving bss) = concat bss" by (induction bss) (auto simp: arriving_def stream_def)
qed

definition demo_stamp :: stamp where
  "demo_stamp = \<lparr>st_nonce = replicate 16 9, st_time = 990, st_uuid = lit ''id''\<rparr>"

lemma demo_stamp [simp]: "stamp_ok demo_stamp" "length (st_uuid demo_stamp) \<le> 100"
  by (simp_all add: stamp_ok_def demo_stamp_def)

section \<open>Two parties\<close>

definition demo_party :: "pystr \<Rightarrow> nat \<Rightarrow> party" where
  "demo_party name key = \<lparr>hs_lib = plain_crypto, hs_ca = [b8 67], own_cert = demo_cert name key,
     own_priv = [b8 key], own_password = [], own_nonce = replicate 16 (b8 key),
     pre_master_rand = replicate 32 1, oaep_seed = [], sign_salt = [], hs_now = 1000,
     send_fault = (\<lambda>_. None), err_text = (\<lambda>_. [])\<rparr>"

lemma demo_party_ok:
  "wf_str name \<Longrightarrow> key < 128 \<Longrightarrow> party_ok (demo_party name key) key [b8 key]"
  by (simp add: party_ok_def demo_party_def load_plain demo_cert_pem demo_cert_wf del: wf_json.simps)

lemma demo_party_accepts:
  "wf_str name \<Longrightarrow> name \<noteq> [] \<Longrightarrow> key < 128 \<Longrightarrow>
     accepts_cert (demo_party n' k') (Some (JStr name)) (demo_party name key)
     \<and> accepts_cert (demo_party n' k') None (demo_party name key)"
  using demo_cert_verifies [of name key 1000]
  by (auto simp: accepts_cert_def demo_party_def verify_certificate_iff)

lemma length_bytes_of: "length (bytes_of v) \<le> 4 * length (dumps canonical_opts (sort_keys v))"
  by (auto simp: bytes_of_def canonical_json_def utf8_encode_def some_or_def dest: length_utf8
      split: sum.split option.split)

lemma weight_sort_keys: "weight (sort_keys x) = weight x"
proof (induction x)
  case (JArr xs)
  then have "map weight (map sort_keys xs) = map weight xs" by simp
  then show ?case by (simp only: sort_keys.simps weight.simps)
next
  case (JObj kvs)
  let ?g = "\<lambda>(k, x). 12 * length k + weight x + 6"
  have s: "sum_list (map ?g (sort_key fst xs)) = sum_list (map ?g xs)" for xs :: "(pystr \<times> json) list"
  proof -
    have "sum_mset (mset (map ?g (sort_key fst xs))) = sum_mset (mset (map ?g xs))" by simp
    then show ?thesis by (simp only: sum_mset_sum_list)
  qed
  have g: "map (\<lambda>(k, n). 12 * length k + n + 6) (map (map_prod id weight) xs) = map ?g xs" for xs :: "(pystr \<times> json) list"
    by (simp add: split_def)
  have "map ?g (map (map_prod id sort_keys) kvs) = map ?g kvs"
    using JObj.IH by (auto simp: snds.simps)
  then show ?case by (simp only: sort_keys.simps weight.simps g s)
qed simp_all

lemma weight_unsigned: "length name \<le> 100 \<Longrightarrow> weight (JObj (unsigned_cert name [key] 0 365 (lit ''serial''))) \<le> 10000"
proof -
  have "length (str_int 0) \<le> 1" "length (str_int (365 * 86400)) \<le> 8"
    by (simp_all add: str_int_def dec.simps)
  then show "length name \<le> 100 \<Longrightarrow> ?thesis"
    by (simp add: unsigned_cert_def ISSUER_NAME_def)
qed

lemma weight_demo_cert: assumes "length name \<le> 100" shows "weight (JObj (demo_cert name key)) \<le> 3000000"
proof -
  let ?u = "JObj (unsigned_cert name [key] 0 365 (lit ''serial''))"
  have "length (dumps canonical_opts (sort_keys ?u)) \<le> 10000"
    using length_dumps [of canonical_opts "sort_keys ?u"] weight_unsigned [OF assms, of key]
    by (simp add: canonical_opts_def weight_sort_keys del: sort_keys.simps weight.simps dumps.simps)
  with length_bytes_of [of ?u] have "length (bytes_of ?u) \<le> 40000" by simp
  then have "length (b64encode (b8 67 # bytes_of ?u)) \<le> 160000" by (simp add: length_b64encode)
  then show ?thesis using weight_unsigned [OF assms, of key]
    by (simp add: demo_cert_def)
qed

section \<open>Runs of the example\<close>

lemma demo_upload_sends:
  "\<exists>s' acts. handle_upload_request demo_world demo_start (demo_session alice 65) demo_upload = (s', acts, None)
     \<and> upload_done demo_world (demo_session alice 65) demo_fields (gated demo_start) s'
     \<and> was_sent acts (lit ''UPLOAD_ACK'')"
proof -
  obtain s' acts where h: "handle_upload_request demo_world demo_start (demo_session alice 65) demo_upload = (s', acts, None)"
      "upload_done demo_world (demo_session alice 65) demo_fields (gated demo_start) s'"
    using demo_upload_accepted by blast
  from h(1) have "was_sent acts (lit ''UPLOAD_ACK'')"
  proof (cases rule: handle_upload_cases)
    case refused
    have "files (sdb s') \<noteq> []" using h(2) by (auto elim!: upload_done_row)
    moreover have "files (sdb s') = []" using refused(1) by (auto simp: demo_start_def empty_db_def)
    ultimately show ?thesis by simp
  qed (simp add: was_sent_def)
  with h show ?thesis by blast
qed

lemma demo_request_step:
  "dispatch demo_world s sess peer e = (s', acts, ex) \<Longrightarrow> sys_step plain_crypto [b8 67] s s'"
  by (rule sys_step.request [where w = demo_world]) (simp_all add: demo_world_def)

lemma demo_upload_step:
  "\<exists>s' r. (sys_step plain_crypto [b8 67])\<^sup>*\<^sup>* demo_start s' \<and> r \<in> set (files (sdb s')) \<and> file_id r = demo_file
     \<and> abs_status s' demo_file = Some (lit ''pending'')"
proof -
  obtain s' acts where h: "handle_upload_request demo_world demo_start (demo_session alice 65) demo_upload = (s', acts, None)"
      "upload_done demo_world (demo_session alice 65) demo_fields (gated demo_start) s'"
    using demo_upload_sends by blast
  have "dispatch demo_world demo_start (demo_session alice 65) [] demo_upload = (s', acts, None)"
    using h(1) by (simp add: dispatch_def demo_upload_def demo_envelope_def)
  then have "(sys_step plain_crypto [b8 67])\<^sup>*\<^sup>* demo_start s'"
    by (intro r_into_rtranclp demo_request_step)
  moreover obtain sender aad where r: "sdb s' = (sdb (gated demo_start))\<lparr>files := files (sdb (gated demo_start)) @
      [uploaded_row demo_fields (demo_session alice 65) sender aad]\<rparr>"
    using h(2) by (rule upload_done_row)
  have "files (sdb s') = [uploaded_row demo_fields (demo_session alice 65) sender aad]"
    unfolding r by (simp add: gated_def demo_start_def empty_db_def)
  moreover have "file_id (uploaded_row demo_fields (demo_session alice 65) sender aad) = demo_file"
    "status (uploaded_row demo_fields (demo_session alice 65) sender aad) = lit ''pending''"
    by (simp_all add: uploaded_row_def row_of_def upload_values_def demo_fields_def)
  ultimately show ?thesis
    by (intro exI [of _ s'] exI [of _ "uploaded_row demo_fields (demo_session alice 65) sender aad"])
      (simp add: abs_status_def lookup_file_def)
qed

lemma demo_gate_stored [simp]: "gate_passed demo_world (demo_envelope t p) (demo_stored st) (gated (demo_stored st))"
  by (rule demo_gate) (simp add: demo_stored_def)

lemma demo_world_faults [simp]:
  "get_fault demo_world = None" "ack_fault demo_world = None" "mark_fault demo_world = None"
  "insert_fault demo_world = None" "disk demo_world = DiskOk" "lib demo_world = plain_crypto"
  "ca_pubkey demo_world = [b8 67]" "cfg demo_world = demo_layout"
  by (simp_all add: demo_world_def)

definition demo_ack :: envelope where
  "demo_ack = demo_envelope (lit ''DOWNLOAD_ACK'') (signed_payload demo_ack_request)"

definition demo_revoke :: envelope where
  "demo_revoke = demo_envelope (lit ''REVOKE_REQUEST'') (signed_payload demo_revoke_request)"

lemma demo_ack_done:
  "\<exists>s' acts. handle_download_ack demo_world (demo_stored st) (demo_session bob 66) demo_ack = (s', acts, None)
     \<and> acked demo_world demo_ack_request (gated (demo_stored st)) s' \<and> was_sent acts (lit ''ACK_OK'')"
proof -
  have "int64 (the (as_int (r_timestamp demo_ack_request)))" by (simp add: demo_ack_request_def int64_def)
  then show ?thesis
    unfolding demo_ack_def
    using handle_ack_accepts [OF demo_gate_stored [where st = st] demo_ack_authorised [where st = st], of "lit ''DOWNLOAD_ACK''"]
    by (auto simp: was_sent_def)
qed

lemma demo_revoke_done:
  "\<exists>acts. handle_revoke_request demo_world (demo_stored (lit ''pending'')) (demo_session alice 65) demo_revoke =
     ((gated (demo_stored (lit ''pending'')))\<lparr>sdb := set_status demo_file (lit ''revoked'')
        (sdb (gated (demo_stored (lit ''pending''))))\<rparr>, acts, None)
     \<and> was_sent acts (lit ''REVOKE_ACK'')"
proof -
  have q: "r_file_id demo_revoke_request = demo_file" by (simp add: demo_revoke_request_def)
  have "status (demo_row (lit ''pending'')) = lit ''pending''" by (simp add: demo_row_def)
  then show ?thesis
    unfolding demo_revoke_def
    using handle_revoke_accepts [OF demo_gate_stored [where st = "lit ''pending''"]
        demo_revoke_authorised [where st = "lit ''pending''"], of "lit ''REVOKE_REQUEST''"] q
    by (auto simp: was_sent_def revoke_reply_def)
qed

section \<open>A run of the handshake\<close>

text \<open>The ciphertext and the signatures of the example library.\<close>

definition demo_ct :: "nat \<Rightarrow> bytes" where
  "demo_ct key = b8 key # replicate 32 1"

lemma demo_party_simps [simp]:
  "hs_lib (demo_party n k) = plain_crypto" "pre_master_rand (demo_party n k) = replicate 32 1"
  "own_nonce (demo_party n k) = replicate 16 (b8 k)" "own_cert (demo_party n k) = demo_cert n k"
  "own_password (demo_party n k) = []" "hs_now (demo_party n k) = 1000" "hs_ca (demo_party n k) = [b8 67]"
  by (simp_all add: demo_party_def)

lemma plain_simps:
  "length m \<le> 190 \<Longrightarrow> oaep_encrypt plain_crypto k s m = Some (b8 k # m)" "pss_sign plain_crypto k s m = Some (b8 k # m)"
  by (simp_all add: plain_crypto_def)

lemma length_dumps_cert: "length name \<le> 100 \<Longrightarrow> weight (JObj (hello_payload (demo_party name key))) \<le> 5000000"
proof -
  assume "length name \<le> 100"
  then have "weight (JObj (demo_cert name key)) \<le> 3000000" by (rule weight_demo_cert)
  moreover have "length (b64encode (replicate 16 (b8 key))) = 24" by (simp add: length_b64encode)
  ultimately show ?thesis by (simp add: hello_payload_def del: b64encode.simps)
qed

lemma wire_hello:
  assumes "wf_str name" "length name \<le> 100" "key < 128"
  shows "\<exists>bs. wire demo_stamp (lit ''HELLO'') (hello_payload (demo_party name key)) = Inr bs"
proof (rule wire_small)
  show "wf_json (JObj (hello_payload (demo_party name key)))"
    using demo_cert_wf [OF assms(1,3)] by (intro wf_payload) simp
  show "weight (JObj (hello_payload (demo_party name key))) \<le> 5000000"
    using assms(2) by (rule length_dumps_cert)
qed (simp_all add: MESSAGE_TYPES_def)

lemma wire_bytes:
  assumes "length b \<le> 1000"
  shows "\<exists>bs. wire demo_stamp (lit ''KEY_EXCHANGE'') (key_payload b) = Inr bs"
    "\<exists>bs. wire demo_stamp (lit ''AUTH_RESPONSE'') (sig_payload b) = Inr bs"
    "\<exists>bs. wire demo_stamp (lit ''SESSION_OK'') (sig_payload b) = Inr bs"
proof -
  have "length (b64encode b) \<le> 2000" using assms by (simp add: length_b64encode)
  then have "weight (JObj (key_payload b)) \<le> 5000000" "weight (JObj (sig_payload b)) \<le> 5000000"
    by (simp_all add: key_payload_def sig_payload_def)
  then show "\<exists>bs. wire demo_stamp (lit ''KEY_EXCHANGE'') (key_payload b) = Inr bs"
    "\<exists>bs. wire demo_stamp (lit ''AUTH_RESPONSE'') (sig_payload b) = Inr bs"
    "\<exists>bs. wire demo_stamp (lit ''SESSION_OK'') (sig_payload b) = Inr bs"
    using wf_payload(2,3) by (auto intro!: wire_small simp: MESSAGE_TYPES_def simp del: wf_json.simps weight.simps)
qed

abbreviation demo_client :: party where "demo_client \<equiv> demo_party alice 65"
abbreviation demo_server :: party where "demo_server \<equiv> demo_party bob 66"

definition demo_proof :: "nat \<Rightarrow> bytes" where
  "demo_proof key = b8 key # transcript_of demo_client demo_server (demo_ct 66)"

lemma demo_lengths: "length (demo_ct k) \<le> 1000" "length (demo_proof k) \<le> 1000" "length alice \<le> 100" "length bob \<le> 100"
  by (simp_all add: demo_ct_def demo_proof_def transcript_of_def alice_def bob_def)

lemma demo_wires: obtains b1 b2 b3 c1 c2 where
  "wire demo_stamp (lit ''HELLO'') (hello_payload demo_client) = Inr b1"
  "wire demo_stamp (lit ''KEY_EXCHANGE'') (key_payload (demo_ct 66)) = Inr b2"
  "wire demo_stamp (lit ''AUTH_RESPONSE'') (sig_payload (demo_proof 65)) = Inr b3"
  "wire demo_stamp (lit ''HELLO'') (hello_payload demo_server) = Inr c1"
  "wire demo_stamp (lit ''SESSION_OK'') (sig_payload (demo_proof 66)) = Inr c2"
proof -
  have "\<exists>b. wire demo_stamp (lit ''HELLO'') (hello_payload demo_client) = Inr b"
    "\<exists>b. wire demo_stamp (lit ''HELLO'') (hello_payload demo_server) = Inr b"
    using wire_hello [of alice 65] wire_hello [of bob 66] demo_lengths(3,4) by simp_all
  then show thesis
    using that wire_bytes(1) [OF demo_lengths(1) [of 66]] wire_bytes(2) [OF demo_lengths(2) [of 65]]
      wire_bytes(3) [OF demo_lengths(2) [of 66]] by (elim exE) assumption
qed

lemma demo_keys:
  "oaep_encrypt plain_crypto 66 (oaep_seed demo_client) (pre_master_rand demo_client) = Some (demo_ct 66)"
  "demo_ct 66 \<noteq> []"
  "pss_sign plain_crypto 65 (sign_salt demo_client) (transcript_of demo_client demo_server (demo_ct 66)) = Some (demo_proof 65)"
  "pss_sign plain_crypto 66 (sign_salt demo_server) (transcript_of demo_client demo_server (demo_ct 66)) = Some (demo_proof 66)"
  by (simp_all add: plain_simps demo_ct_def demo_proof_def)

lemma demo_parties: "party_ok demo_client 65 [b8 65]" "party_ok demo_server 66 [b8 66]"
  "accepts_cert demo_server None demo_client" "accepts_cert demo_client (Some (JStr bob)) demo_server"
  using demo_party_ok [of alice 65] demo_party_ok [of bob 66] demo_party_accepts [of alice 65 bob 66]
    demo_party_accepts [of bob 66 alice 65] by simp_all

lemma demo_server_run:
  "\<exists>sock s'. snd (perform_server_handshake demo_server sock) =
     Inr (session_of (jget (demo_cert alice 65) (lit ''subject'')) (JObj (demo_cert alice 65)) (okm_of demo_client demo_server)
       (transcript_of demo_client demo_server (demo_ct 66)), s')"
proof -
  obtain b1 b2 b3 c1 c2 where w: "wire demo_stamp (lit ''HELLO'') (hello_payload demo_client) = Inr b1"
      "wire demo_stamp (lit ''KEY_EXCHANGE'') (key_payload (demo_ct 66)) = Inr b2"
      "wire demo_stamp (lit ''AUTH_RESPONSE'') (sig_payload (demo_proof 65)) = Inr b3"
    by (rule demo_wires)
  have "stream (arriving [b1, b2, b3]) = b1 @ b2 @ b3 @ []" by simp
  from server_completes [OF plain_crypto_correct(1,2) _ _ demo_parties(1,2,3) demo_keys(1,2) demo_keys(3,4)
      demo_stamp(1) demo_stamp(1) demo_stamp(1) w arriving(1) this]
  show ?thesis by auto
qed

lemma demo_client_run:
  "\<exists>sock s'. snd (perform_client_handshake demo_client (Some (JStr bob)) sock) =
     Inr (session_of (jget (demo_cert bob 66) (lit ''subject'')) (JObj (demo_cert bob 66)) (okm_of demo_client demo_server)
       (transcript_of demo_client demo_server (demo_ct 66)), s')"
proof -
  obtain b1 b2 b3 c1 c2 where w: "wire demo_stamp (lit ''HELLO'') (hello_payload demo_server) = Inr c1"
      "wire demo_stamp (lit ''SESSION_OK'') (sig_payload (demo_proof 66)) = Inr c2"
    by (rule demo_wires)
  have "stream (arriving [c1, c2]) = c1 @ c2 @ []" by simp
  from client_completes [OF plain_crypto_correct(1) _ _ demo_parties(1,2,4) demo_keys(1,2) demo_keys(3,4)
      demo_stamp(1) demo_stamp(1) w arriving(1) this]
  show ?thesis by auto
qed

section \<open>A later request\<close>

text \<open>The same request with another nonce, on a server that has seen the first.\<close>

definition demo_later :: "envelope \<Rightarrow> envelope" where
  "demo_later e = e\<lparr>e_nonce := JStr (b64encode (replicate 16 8))\<rparr>"

lemma demo_later_gate:
  assumes "seen_nonces (sdb s) = [(replicate 16 7, 1000)]"
  shows "\<exists>s1. gate_passed demo_world (demo_later demo_download) s s1"
proof -
  have "replicate 16 8 \<noteq> (replicate 16 7 :: bytes)" by (simp add: numeral_eq_Suc)
  with assms show ?thesis
    by (simp add: gate_passed_def demo_later_def demo_download_def demo_envelope_def b64_field_def check_and_record_def
        demo_world_def TIMESTAMP_WINDOW_SECONDS_def)
qed

section \<open>Two rows and a run of the loop\<close>

lemma demo_listed: "demo_row (lit ''pending'') \<in> set (files (sdb (demo_stored (lit ''pending''))))"
  by (simp add: demo_stored_def)

section \<open>A file on its way from client to client\<close>

definition demo_out :: outside where
  "demo_out = \<lparr>o_lib = plain_crypto, o_repr = (\<lambda>_. []), o_stamp = (\<lambda>_. demo_stamp), o_send_fault = (\<lambda>_. None),
     o_uuid = 1, o_aes_key = replicate 32 2, o_aes_nonce = replicate 12 3, o_seed = [], o_salt = [],
     o_time = 990, o_cert_time = 1000, o_read_fault = None, o_disk = DiskOk\<rparr>"

definition demo_live :: "pystr \<Rightarrow> nat \<Rightarrow> live" where
  "demo_live name key = \<lparr>l_sock = True, l_username = Some name, l_priv = Some [b8 key], l_password = Some [],
     l_ca = Some [b8 67]\<rparr>"

lemma demo_out_simps [simp]:
  "o_lib demo_out = plain_crypto" "o_stamp demo_out i = demo_stamp" "o_send_fault demo_out i = None"
  "o_uuid demo_out = 1" "o_aes_key demo_out = replicate 32 2" "o_aes_nonce demo_out = replicate 12 3"
  "o_time demo_out = 990" "o_cert_time demo_out = 1000" "o_read_fault demo_out = None" "o_disk demo_out = DiskOk"
  by (simp_all add: demo_out_def)

lemma demo_live_simps [simp]:
  "l_sock (demo_live n k)" "l_username (demo_live n k) = Some n" "l_priv (demo_live n k) = Some [b8 k]"
  "l_password (demo_live n k) = Some []" "l_ca (demo_live n k) = Some [b8 67]"
  by (simp_all add: demo_live_def)

lemma demo_key_pair: "key < 128 \<Longrightarrow> key_pair plain_crypto (demo_cert name key) [b8 key] pw"
  using demo_cert_pem load_plain by (auto simp: key_pair_def)

text \<open>The server's answer to \<open>GET_PUBKEY\<close>: the certificate of bob.\<close>

lemma demo_pubkey_reply:
  obtains bs e s' where "wire demo_stamp (lit ''PUBKEY_RESPONSE'') [(lit ''cert'', JObj (demo_cert bob 66))] = Inr bs"
    "recv_envelope (arriving [bs]) = Inr (e, s')" "e_type e = lit ''PUBKEY_RESPONSE''"
    "jget (e_payload e) (lit ''cert'') = JObj (demo_cert bob 66)"
proof -
  let ?p = "[(lit ''cert'', JObj (demo_cert bob 66))]"
  have wf: "wf_json (JObj ?p)" using demo_cert_wf [of bob 66] by simp
  have "weight (JObj (demo_cert bob 66)) \<le> 3000000" by (rule weight_demo_cert) (simp add: bob_def)
  then have "weight (JObj ?p) \<le> 5000000" by simp
  then obtain bs where bs: "wire demo_stamp (lit ''PUBKEY_RESPONSE'') ?p = Inr bs"
    using wire_small [of "lit ''PUBKEY_RESPONSE''" demo_stamp ?p] wf by (auto simp: MESSAGE_TYPES_def)
  have "stream (arriving [bs]) = bs @ []" by simp
  from recv_wire [OF arriving(1) this bs demo_stamp(1) wf] bs that show thesis by (auto simp: jget_def)
qed

definition demo_text :: bytes where
  "demo_text = [72, 105]"

definition demo_disk :: filesystem where
  "demo_disk = [mk_path (lit ''note.txt'') \<mapsto> demo_text]"

text \<open>Alice's package for bob.\<close>

lemma demo_package:
  obtains payload bs ct wk sig where
    "build_package demo_out [b8 65] [] alice bob (demo_cert bob 66) demo_text 4010 = Inr payload"
    "wire demo_stamp (lit ''UPLOAD_REQUEST'') payload = Inr bs"
    "payload = upload_payload demo_file bob ct (replicate 12 3) wk sig 990 5000"
    "length ct \<le> 1000" "length wk \<le> 100" "length sig \<le> 20001"
proof -
  let ?f = demo_file
  obtain aad where aad: "file_aad ?f alice bob = Inr aad" by (rule file_aad_wf [of ?f alice bob]) simp_all
  define ct where "ct = gcm_encrypt plain_crypto (replicate 32 2) (replicate 12 3) demo_text aad"
  define wk where "wk = b8 66 # replicate 32 (2 :: byte)"
  define st where "st = origin_struct (JStr alice) (JStr bob) (JStr ?f) (sha256_hex ct) (sha256_hex wk) (JInt 990) (JInt 5000)"
  have wf: "wf_json st" by (simp add: st_def wf_origin_struct)
  let ?p = "upload_payload ?f bob ct (replicate 12 3) wk (demo_sig 65 st) 990 5000"
  have s: "rsa_sign plain_crypto [] [b8 65] [] d = Inr (b8 65 # d)" for d
    by (simp add: rsa_sign_def load_private_def rsa_key_of_def plain_crypto_def)
  have "sign_origin_struct plain_crypto (o_salt demo_out) [b8 65] [] alice bob ?f (sha256_hex ct) (sha256_hex wk) 990 5000 =
      Inr (demo_sig 65 st)"
    using canonical_bytes_of [OF wf] s
    by (simp add: sign_origin_struct_def sign_struct_def st_def [symmetric] demo_sig_def demo_out_def)
  moreover have "wrap_aes_key_for plain_crypto (o_seed demo_out) (demo_cert bob 66) (replicate 32 2) = Inr wk"
    using demo_cert_pem [of 66 bob] load_plain(1) [of 66]
    by (simp add: wrap_aes_key_for_def AES_KEY_BYTES_def rsa_oaep_encrypt_def load_public_def rsa_key_of_def wk_def plain_simps)
  moreover have "encrypt_file_blob plain_crypto (replicate 32 2) (replicate 12 3) demo_text ?f alice bob =
      Inr (replicate 12 3, ct, replicate 32 2)"
    using aad by (simp add: encrypt_file_blob_def aes_gcm_encrypt_def AES_KEY_BYTES_def ct_def)
  ultimately have b: "build_package demo_out [b8 65] [] alice bob (demo_cert bob 66) demo_text 4010 = Inr ?p"
    by (simp add: build_package_def Let_def demo_file_def [symmetric] del: One_nat_def)
  have "length aad \<le> 4 * length (?f @ lit ''|'' @ alice @ lit ''|'' @ bob)"
    using aad by (intro length_utf8) (simp add: file_aad_def utf8_encode_def)
  then have "length aad \<le> 400" by (simp add: demo_file_def alice_def bob_def)
  then have ctl: "length ct \<le> 1000" by (simp add: ct_def plain_crypto_def demo_text_def)
  then have 1: "length (b64encode ct) \<le> 2000" by (simp add: length_b64encode)
  have "length (sha256_hex x) = 64" for x by simp
  then have "weight st \<le> 5000" by (simp add: st_def origin_struct_def alice_def bob_def demo_file_def str_int_def dec.simps)
  then have "length (dumps canonical_opts (sort_keys st)) \<le> 5000"
    using length_dumps [of canonical_opts "sort_keys st"] by (simp add: canonical_opts_def weight_sort_keys)
  with length_bytes_of [of st] have sl: "length (demo_sig 65 st) \<le> 20001" by (simp add: demo_sig_def)
  then have 2: "length (b64encode (demo_sig 65 st)) \<le> 80000" by (simp add: length_b64encode)
  have 3: "length (b64encode wk) \<le> 100" "length (b64encode (replicate 12 (3 :: byte))) \<le> 100"
    by (simp_all add: length_b64encode wk_def)
  have wb: "wf_str (b64encode x)" for x using b64encode_ascii by (intro wf_str_ascii) (auto simp: list_all_set)
  have "wf_json (JObj ?p)" by (simp add: upload_payload_def b64_json_def wb)
  moreover have "weight (JObj ?p) \<le> 5000000"
    using 1 2 3 by (simp add: upload_payload_def b64_json_def demo_file_def bob_def str_int_def dec.simps
        del: b64encode.simps)
  ultimately obtain bs where "wire demo_stamp (lit ''UPLOAD_REQUEST'') ?p = Inr bs"
    using wire_small [of "lit ''UPLOAD_REQUEST''" demo_stamp ?p] by (auto simp: MESSAGE_TYPES_def)
  moreover have "length wk \<le> 100" by (simp add: wk_def)
  ultimately show thesis using b ctl sl that by blast
qed

text \<open>Alice's client sends a package for bob.\<close>

lemma demo_client_sends:
  obtains payload sock where
    "(lit ''UPLOAD_REQUEST'', payload) \<in> set (sends (fst (upload_file demo_out (demo_live alice 65) demo_disk bob (lit ''note.txt'') 4010 sock)))"
    "build_package demo_out [b8 65] [] alice bob (demo_cert bob 66) demo_text 4010 = Inr payload"
    "\<forall>cert_r sock1. cert_for demo_out (demo_live alice 65) bob sock cert_r sock1 \<longrightarrow> cert_r = demo_cert bob 66"
proof -
  obtain bs e s' where r: "recv_envelope (arriving [bs]) = Inr (e, s')" "e_type e = lit ''PUBKEY_RESPONSE''"
      "jget (e_payload e) (lit ''cert'') = JObj (demo_cert bob 66)"
    by (rule demo_pubkey_reply)
  obtain payload pbs where p: "build_package demo_out [b8 65] [] alice bob (demo_cert bob 66) demo_text 4010 = Inr payload"
      "wire demo_stamp (lit ''UPLOAD_REQUEST'') payload = Inr pbs"
    by (rule demo_package)
  have c: "cert_for demo_out (demo_live alice 65) bob (arriving [bs]) (demo_cert bob 66) s'"
    using r demo_cert_verifies [of bob 66 1000] by (simp add: cert_for_def)
  have k: "packs demo_out (demo_live alice 65) demo_disk bob (lit ''note.txt'') 4010 (arriving [bs]) payload demo_text"
    using c p by (auto simp: packs_def demo_disk_def demo_text_def MAX_MESSAGE_BYTES_def)
  obtain gbs where g: "wire demo_stamp (lit ''GET_PUBKEY'') [(lit ''username'', JStr bob)] = Inr gbs"
    using wire_small [of "lit ''GET_PUBKEY''" demo_stamp "[(lit ''username'', JStr bob)]"]
    by (auto simp: MESSAGE_TYPES_def bob_def)
  have "wire (o_stamp demo_out 0) (lit ''GET_PUBKEY'') [(lit ''username'', JStr bob)] = Inr gbs" using g by simp
  from upload_file_packs [OF k _ _ this r(1,2)]
  have "(lit ''UPLOAD_REQUEST'', payload) \<in> set (sends (fst (upload_file demo_out (demo_live alice 65) demo_disk bob (lit ''note.txt'') 4010 (arriving [bs]))))"
    by simp
  moreover have "cert_for demo_out (demo_live alice 65) bob (arriving [bs]) cert_r sock1 \<Longrightarrow> cert_r = demo_cert bob 66" for cert_r sock1
    using r by (simp add: cert_for_def)
  ultimately show thesis using p(1) that by blast
qed

lemma demo_known:
  assumes "sfs s bob_path = demo_fs bob_path"
  shows "sender_known demo_world s (demo_session alice 65) alice (demo_cert alice 65) bob"
proof -
  have "valid_username (JStr bob)" by (simp add: valid_username_iff bob_def lit_def username_char_def)
  then show ?thesis
    using demo_lookup_bob_fs [of "sfs s"] assms demo_cert_valid [of alice 65]
    by (auto simp: sender_known_def demo_session_def)
qed

text \<open>The server stores it.\<close>

definition demo_request :: "jdict \<Rightarrow> envelope" where
  "demo_request payload = demo_envelope (lit ''UPLOAD_REQUEST'') payload"

lemma demo_request_gate:
  "gate_passed demo_world (demo_request payload) demo_start (gated demo_start)"
  unfolding demo_request_def by (rule demo_gate) (simp add: demo_start_def empty_db_def)

lemma demo_gated_start [simp]: "sfs (gated demo_start) = demo_fs" "files (sdb (gated demo_start)) = []"
  "seen_nonces (sdb (gated demo_start)) = [(replicate 16 7, 1000)]"
  by (simp_all add: gated_def demo_start_def empty_db_def)

lemma demo_int64: "int64 990" "int64 995" "int64 5000"
  by (simp_all add: int64_def)

lemma demo_stored_package:
  assumes "build_package demo_out [b8 65] [] alice bob (demo_cert bob 66) demo_text 4010 = Inr payload"
  obtains s' acts where "handle_upload_request demo_world demo_start (demo_session alice 65) (demo_request payload) = (s', acts, None)"
    "was_sent acts (lit ''UPLOAD_ACK'')" "seen_nonces (sdb s') = [(replicate 16 7, 1000)]"
proof -
  have k: "sender_known demo_world (gated demo_start) (demo_session alice 65) alice (demo_cert alice 65) bob"
    by (rule demo_known) simp
  have pl: "e_payload (demo_request payload) = payload" by (simp add: demo_request_def demo_envelope_def)
  have lo: "o_lib demo_out = plain_crypto" and lw: "lib demo_world = plain_crypto"
    and un: "o_uuid demo_out < 2 ^ 128" and kp: "key_pair plain_crypto (demo_cert alice 65) [b8 65] []"
    by (simp_all add: demo_key_pair)
  from package_authorised [OF assms plain_crypto_correct(1) lo lw kp un k pl] obtain u where
    u: "upload_authorised demo_world (gated demo_start) (demo_session alice 65) (demo_request payload) u"
      "u_timestamp u = JInt (o_time demo_out)" "u_expiration u = JInt (o_time demo_out + 4010)" .
  have "upload_storable demo_world (gated demo_start) (demo_session alice 65) u"
    using u demo_cert_wf [of alice 65] demo_int64
    by (simp add: upload_storable_def demo_session_def lookup_file_def)
  from handle_upload_accepts [OF demo_request_gate u(1) this] obtain s' acts where
    h: "handle_upload_request demo_world demo_start (demo_session alice 65) (demo_request payload) = (s', acts, None)"
      "upload_done demo_world (demo_session alice 65) u (gated demo_start) s'" by blast
  show thesis
    using that [OF h(1)] upload_done_sends [OF h demo_request_gate] upload_done_nonces [OF h(2)] by simp
qed

lemma demo_ready: "recipient_ready demo_out (demo_live bob 66) (demo_cert bob 66) bob (demo_cert alice 65) alice"
  using demo_key_pair [of 66 bob "[]"] demo_cert_verifies [of alice 65 1000] by (simp add: recipient_ready_def)

section \<open>The download at the other end\<close>

lemma weight_short_cert:
  assumes "length name \<le> 5" shows "weight (JObj (demo_cert name key)) \<le> 300000"
proof -
  let ?u = "JObj (unsigned_cert name [key] 0 365 (lit ''serial''))"
  have "length (str_int 0) \<le> 1" "length (str_int (365 * 86400)) \<le> 8"
    by (simp_all add: str_int_def dec.simps)
  then have w: "weight ?u \<le> 2000" using assms by (simp add: unsigned_cert_def ISSUER_NAME_def)
  then have "length (dumps canonical_opts (sort_keys ?u)) \<le> 2000"
    using length_dumps [of canonical_opts "sort_keys ?u"]
    by (simp add: canonical_opts_def weight_sort_keys del: sort_keys.simps weight.simps dumps.simps)
  with length_bytes_of [of ?u] have "length (bytes_of ?u) \<le> 8000" by simp
  then have "length (b64encode (b8 67 # bytes_of ?u)) \<le> 20000" by (simp add: length_b64encode)
  then show ?thesis using w by (simp add: demo_cert_def)
qed

lemma length_printed_cert: "length (dumps default_opts (sort_keys (JObj (demo_cert alice 65)))) \<le> 300000"
proof -
  have "length (dumps default_opts (sort_keys (JObj (demo_cert alice 65)))) \<le> weight (sort_keys (JObj (demo_cert alice 65)))"
    by (rule length_dumps) (simp_all add: default_opts_def)
  also have "\<dots> \<le> 300000" unfolding weight_sort_keys by (rule weight_short_cert) (simp add: alice_def)
  finally show ?thesis .
qed

lemma demo_response:
  obtains p bs where "opens_to demo_out (demo_live bob 66) p demo_file demo_text"
    "wire demo_stamp (lit ''DOWNLOAD_RESPONSE'') p = Inr bs" "wf_json (JObj p)"
    "jget p (lit ''timestamp'') = JInt 990" "jget p (lit ''expiration'') = JInt 5000"
proof -
  obtain payload ubs ct wk sig where b: "build_package demo_out [b8 65] [] alice bob (demo_cert bob 66) demo_text 4010 = Inr payload"
      "payload = upload_payload demo_file bob ct (replicate 12 3) wk sig 990 5000"
      "length ct \<le> 1000" "length wk \<le> 100" "length sig \<le> 20001"
    by (rule demo_package)
  have lo: "o_lib demo_out = plain_crypto" and nl: "length (o_aes_nonce demo_out) = AES_NONCE_BYTES"
    and wf: "wf_json (JObj (demo_cert alice 65))" and f: "uuid_str (o_uuid demo_out) = demo_file"
    by (simp_all add: AES_NONCE_BYTES_def demo_cert_wf demo_file_def del: wf_json.simps)
  have k: "key_pair plain_crypto (demo_cert alice 65) [b8 65] []" "key_pair plain_crypto (demo_cert bob 66) [b8 66] []"
    by (simp_all add: demo_key_pair)
  have v: "verify_certificate plain_crypto (o_cert_time demo_out) (JObj (demo_cert alice 65)) [b8 67] (Some (JStr alice)) = Inr True"
    using demo_cert_verifies [of alice 65 1000] by simp
  note l = demo_live_simps(2-5) [of bob 66]
  from opens_to_package [OF plain_crypto_correct lo lo nl b(1) k l v wf, unfolded f]
  obtain ct' wk' sig' aad where o:
      "payload = upload_payload demo_file bob ct' (o_aes_nonce demo_out) wk' sig' (o_time demo_out) (o_time demo_out + 4010)"
      "file_aad demo_file alice bob = Inr aad"
      "opens_to demo_out (demo_live bob 66) (download_payload (JStr demo_file)
         (package_row (JObj (demo_cert alice 65)) alice bob demo_file ct' (o_aes_nonce demo_out) wk' sig' aad
           (o_time demo_out) (o_time demo_out + 4010)) ct') demo_file demo_text" .
  have eq: "ct' = ct" "wk' = wk" "sig' = sig"
    using o(1) b(2) by (auto simp: upload_payload_def b64_json_def b64.enc_eq_iff)
  let ?p = "download_payload (JStr demo_file) (package_row (JObj (demo_cert alice 65)) alice bob demo_file ct
      (replicate 12 3) wk sig aad 990 5000) ct"
  have o3: "opens_to demo_out (demo_live bob 66) ?p demo_file demo_text" using o(3) eq by simp
  have "length aad \<le> 4 * length (demo_file @ lit ''|'' @ alice @ lit ''|'' @ bob)"
    using o(2) by (intro length_utf8) (simp add: file_aad_def utf8_encode_def)
  then have "length aad \<le> 400" by (simp add: demo_file_def alice_def bob_def)
  then have l: "length (b64encode ct) \<le> 2000" "length (b64encode wk) \<le> 200" "length (b64encode sig) \<le> 40000"
      "length (b64encode aad) \<le> 1000" "length (b64encode (replicate 12 (3 :: byte))) \<le> 100"
    using b(3-5) by (simp_all add: length_b64encode)
  have wb: "wf_str (b64encode x)" for x using b64encode_ascii by (intro wf_str_ascii) (auto simp: list_all_set)
  have wd: "wf_str (dumps default_opts (sort_keys (JObj (demo_cert alice 65))))"
    using wf by (intro wf_str_dumps wf_sort_keys) simp_all
  have w1: "wf_json (JObj ?p)"
    by (simp add: download_payload_def package_row_def b64_json_def wb wd del: sort_keys.simps dumps.simps)
  moreover have "weight (JObj ?p) \<le> 5000000"
    using l length_printed_cert
    by (simp add: download_payload_def package_row_def b64_json_def demo_file_def alice_def str_int_def dec.simps
        del: b64encode.simps sort_keys.simps dumps.simps)
  ultimately obtain bs where "wire demo_stamp (lit ''DOWNLOAD_RESPONSE'') ?p = Inr bs"
    using wire_small [of "lit ''DOWNLOAD_RESPONSE''" demo_stamp ?p] by (auto simp: MESSAGE_TYPES_def)
  with o3 w1 that [of ?p] show thesis
    by (simp add: download_payload_def package_row_def jget_def del: sort_keys.simps dumps.simps)
qed

lemma plain_crypto_expands: "gcm_not_shorter plain_crypto"
  by (simp add: gcm_not_shorter_def plain_crypto_def)

text \<open>Bob's client gets as far as the receipt; what arrives after the response is up to the
  connection.\<close>

definition demo_bob_out :: outside where
  "demo_bob_out = demo_out\<lparr>o_time := 995\<rparr>"

lemma demo_bob_out_simps [simp]:
  "o_lib demo_bob_out = plain_crypto" "o_stamp demo_bob_out i = demo_stamp" "o_send_fault demo_bob_out i = None"
  "o_time demo_bob_out = 995" "o_salt demo_bob_out = []" "opens_to demo_bob_out = opens_to demo_out"
  by (simp_all add: demo_bob_out_def opens_to_def fun_eq_iff) (simp add: demo_out_def)

definition demo_receipt :: bytes where
  "demo_receipt = demo_sig 66 (ack_struct (JStr demo_file) (JInt 995))"

lemma demo_receipt_signed:
  "sign_struct plain_crypto [] [b8 66] [] (ack_struct (JStr demo_file) (JInt 995)) = Inr demo_receipt"
proof -
  have "wf_json (ack_struct (JStr demo_file) (JInt 995))" by (simp add: wf_ack_struct)
  then show ?thesis
    using canonical_bytes_of
    by (simp add: sign_struct_def rsa_sign_def load_private_def rsa_key_of_def plain_crypto_def demo_receipt_def demo_sig_def)
qed

lemma demo_small_wires:
  "\<exists>bs. wire demo_stamp (lit ''DOWNLOAD_REQUEST'') [(lit ''file_id'', JStr demo_file)] = Inr bs"
  "\<exists>bs. wire demo_stamp (lit ''DOWNLOAD_ACK'') (ack_payload demo_bob_out demo_file demo_receipt) = Inr bs"
proof -
  show "\<exists>bs. wire demo_stamp (lit ''DOWNLOAD_REQUEST'') [(lit ''file_id'', JStr demo_file)] = Inr bs"
    by (rule wire_small) (simp_all add: MESSAGE_TYPES_def, simp add: demo_file_def)
  have "weight (ack_struct (JStr demo_file) (JInt 995)) \<le> 5000"
    by (simp add: ack_struct_def demo_file_def str_int_def dec.simps)
  then have "length (dumps canonical_opts (sort_keys (ack_struct (JStr demo_file) (JInt 995)))) \<le> 5000"
    using length_dumps [of canonical_opts "sort_keys (ack_struct (JStr demo_file) (JInt 995))"]
    by (simp add: canonical_opts_def weight_sort_keys)
  with length_bytes_of [of "ack_struct (JStr demo_file) (JInt 995)"] have "length demo_receipt \<le> 20001"
    by (simp add: demo_receipt_def demo_sig_def)
  then have 1: "length (b64encode demo_receipt) \<le> 80000" by (simp add: length_b64encode)
  have wb: "wf_str (b64encode x)" for x using b64encode_ascii by (intro wf_str_ascii) (auto simp: list_all_set)
  show "\<exists>bs. wire demo_stamp (lit ''DOWNLOAD_ACK'') (ack_payload demo_bob_out demo_file demo_receipt) = Inr bs"
  proof (rule wire_small)
    show "weight (JObj (ack_payload demo_bob_out demo_file demo_receipt)) \<le> 5000000"
      using 1 by (simp add: ack_payload_def b64_json_def demo_file_def str_int_def dec.simps)
  qed (simp_all add: MESSAGE_TYPES_def ack_payload_def b64_json_def wb)
qed

lemma demo_file_ascii: "list_all (\<lambda>c. c < 128) demo_file"
  using demo_file_ok by (rule uuid_ascii)

lemma demo_receipted:
  obtains bs where "\<And>rest. (\<forall>b \<in> set rest. b \<noteq> []) \<Longrightarrow>
    \<exists>s1. receipted demo_bob_out (demo_live bob 66) demo_file (arriving (bs # rest)) demo_text demo_receipt s1
      \<and> clean s1 \<and> stream s1 = concat rest"
proof -
  obtain p bs where p: "opens_to demo_out (demo_live bob 66) p demo_file demo_text"
      "wire demo_stamp (lit ''DOWNLOAD_RESPONSE'') p = Inr bs" "wf_json (JObj p)"
      "jget p (lit ''timestamp'') = JInt 990" "jget p (lit ''expiration'') = JInt 5000"
    by (rule demo_response)
  have v: "verify_and_decrypt_download demo_bob_out (demo_live bob 66) p (Some demo_file) = Inr demo_text"
    using p demo_file_ascii by (simp add: verify_and_decrypt_iff)
  have "\<exists>s1. receipted demo_bob_out (demo_live bob 66) demo_file (arriving (bs # rest)) demo_text demo_receipt s1
      \<and> clean s1 \<and> stream s1 = concat rest" if "\<forall>b \<in> set rest. b \<noteq> []" for rest
  proof -
    have "stream (arriving (bs # rest)) = bs @ concat rest" by simp
    from recv_wire [OF arriving(1) this p(2) demo_stamp(1) p(3)] obtain e s1 where
        e: "recv_envelope (arriving (bs # rest)) = Inr (e, s1)" "e_type e = lit ''DOWNLOAD_RESPONSE''" "e_payload e = p"
          "clean s1" "stream s1 = concat rest" by blast
    have "receipted demo_bob_out (demo_live bob 66) demo_file (arriving (bs # rest)) demo_text demo_receipt s1"
      unfolding receipted_def
      using e v demo_small_wires demo_receipt_signed
      by (intro exI [of _ e]) (simp add: client_send_Inr)
    with e(4,5) show ?thesis by blast
  qed
  then show thesis by (rule that)
qed

text \<open>The answer to the receipt never comes.\<close>

lemma demo_receipt_unanswered:
  obtains sock s1 where "receipted demo_bob_out (demo_live bob 66) demo_file sock demo_text demo_receipt s1"
    "recv_envelope s1 = Inl ProtocolError"
proof -
  obtain bs s1 where r: "receipted demo_bob_out (demo_live bob 66) demo_file (arriving [bs]) demo_text demo_receipt s1"
      "clean s1" "stream s1 = []"
    using demo_receipted by (metis concat.simps(1) empty_iff list.set(1))
  have "recvall s1 (int 4) = Inl ProtocolError" using r by (intro recvall_short) simp_all
  then have "recv_envelope s1 = Inl ProtocolError" by (simp add: recv_envelope_def recv_message_def)
  with r(1) show thesis by (rule that)
qed

lemma demo_ack_payload: "e_payload demo_ack = ack_payload demo_bob_out demo_file demo_receipt"
  by (simp add: demo_ack_def demo_envelope_def signed_payload_def demo_ack_request_def ack_payload_def b64_json_def
      demo_receipt_def)

definition demo_big :: bytes where
  "demo_big = replicate (48 * 1024 * 1024) 0"

lemma length_demo_big: "48 * 1024 * 1024 \<le> length demo_big"
  unfolding demo_big_def length_replicate by (rule order_refl)

section \<open>Alice at her terminal\<close>

definition json_file :: "jdict \<Rightarrow> bytes" where
  "json_file d = (case utf8_encode (dumps compact_opts (JObj d)) of Inr bs \<Rightarrow> bs | Inl _ \<Rightarrow> [])"

lemma json_file_reads:
  assumes "wf_json (JObj d)"
  obtains t where "utf8_decode (json_file d) = Inr t" "json_loads (universal_newlines t) = Inr (JObj d)"
proof -
  obtain bs where b: "utf8_encode (dumps compact_opts (JObj d)) = Inr bs"
    using utf8_encode_wf [OF wf_str_dumps [OF text_opts_simps(2) assms]] by blast
  show thesis
  proof (rule that)
    show "utf8_decode (json_file d) = Inr (dumps compact_opts (JObj d))"
      using utf8_decode_encode [OF b] b by (simp add: json_file_def del: dumps.simps)
    show "json_loads (universal_newlines (dumps compact_opts (JObj d))) = Inr (JObj d)"
      using assms by (simp add: universal_newlines_dumps json_loads_dumps del: dumps.simps wf_json.simps)
  qed
qed

definition demo_config :: jdict where
  "demo_config = [(lit ''server_host'', JStr (lit ''localhost'')), (lit ''server_port'', JInt 5050),
     (lit ''server_subject'', JStr bob)]"

definition demo_trust :: jdict where
  "demo_trust = [(lit ''public_key_pem'', JStr [67])]"

definition alice_file :: "string \<Rightarrow> path" where
  "alice_file name = Path Relative [lit ''client_'' @ alice, lit name]"

definition demo_machine :: "sock \<Rightarrow> machine" where
  "demo_machine sock = \<lparr>m_files = map_of [(alice_file ''config.json'', json_file demo_config),
       (alice_file ''cert.json'', json_file (demo_cert alice 65)), (alice_file ''ca_cert.json'', json_file demo_trust),
       (alice_file ''private.pem'', [b8 65])],
     m_read_fault = (\<lambda>_. None), m_connect = (\<lambda>_ _. Inr sock)\<rparr>"

definition demo_console :: console where
  "demo_console = \<lparr>lib_text = (\<lambda>_. []), os_text = (\<lambda>_. []), show_json = (\<lambda>_. []), env_password = None,
     typed_password = []\<rparr>"

definition demo_args :: cli_args where
  "demo_args = \<lparr>arg_user = alice, arg_password = Some []\<rparr>"

lemma demo_machine_file:
  assumes "wf_json (JObj d)" "m_files (demo_machine sock) (alice_file name) = Some (json_file d)"
    and "alice_file name = p"
  shows "read_client_json (demo_machine sock) p = Inr d"
proof -
  obtain t where "utf8_decode (json_file d) = Inr t" "json_loads (universal_newlines t) = Inr (JObj d)"
    using assms(1) by (rule json_file_reads)
  with assms(2) show ?thesis
    unfolding assms(3) [symmetric] read_client_json_Inr by (simp add: demo_machine_def)
qed

lemma demo_target:
  "resolve_connect_target (demo_machine sock) alice = Inr (lit ''localhost'', JInt 5050, Some bob,
     \<lparr>a_config = demo_config, a_cert = demo_cert alice 65, a_priv = [b8 65], a_ca = [b8 67]\<rparr>)"
proof -
  have d: "client_dir_for_user alice = Inr (Path Relative [lit ''client_'' @ alice])"
    by (simp add: client_dir_for_user_def alice_def mk_path_def root_prefix_def lit_def)
  have n: "alice_file a = alice_file b \<longleftrightarrow> lit a = lit b" for a b by (simp add: alice_file_def)
  have p: "path_join (Path Relative [lit ''client_'' @ alice]) (lit name) = alice_file name"
    if "name \<in> {''config.json'', ''cert.json'', ''ca_cert.json'', ''private.pem''}" for name
    using that client_file [OF d, of name] by (auto simp: alice_file_def lit_def)
  have "wf_int 5050" by (rule wf_int64) (simp add: int64_def)
  moreover have "wf_str [67]" by (simp add: wf_str_def scalar_def)
  ultimately have w: "wf_json (JObj demo_config)" "wf_json (JObj (demo_cert alice 65))" "wf_json (JObj demo_trust)"
    by (simp_all add: demo_cert_wf demo_config_def demo_trust_def del: lit_def wf_json.simps(7))
      (simp_all add: lit_def wf_str_ascii)
  have r: "read_client_json (demo_machine sock) (alice_file ''config.json'') = Inr demo_config"
    "read_client_json (demo_machine sock) (alice_file ''cert.json'') = Inr (demo_cert alice 65)"
    "read_client_json (demo_machine sock) (alice_file ''ca_cert.json'') = Inr demo_trust"
    by (rule demo_machine_file [OF w(1) _ refl] demo_machine_file [OF w(2) _ refl] demo_machine_file [OF w(3) _ refl];
        simp add: demo_machine_def n lit_def)+
  have j: "jget demo_config (lit ''username'') = JNull" "jget demo_trust (lit ''public_key_pem'') = JStr [67]"
    by (simp_all add: demo_config_def demo_trust_def jget_def lit_def)
  have k: "read_client_bytes (demo_machine sock) (alice_file ''private.pem'') = Inr [b8 65]"
    by (simp add: read_client_bytes_Inr demo_machine_def n lit_def)
  have "load_client_assets (demo_machine sock) alice =
      Inr \<lparr>a_config = demo_config, a_cert = demo_cert alice 65, a_priv = [b8 65], a_ca = [b8 67]\<rparr>"
    by (simp add: load_client_assets_def d p r k j ascii_encode_def)
  then show ?thesis
    unfolding resolve_connect_target_Inr by (simp add: demo_config_def jget_def lit_def)
qed

section \<open>A certificate authority and its first user\<close>

definition demo_authority :: "nat \<Rightarrow> int \<Rightarrow> authority" where
  "demo_authority key now = \<lparr>ca_lib = plain_crypto, ca_env_password = None, ca_entropy = [b8 key], ca_salt = [],
     ca_uuid = 1, ca_now = now, ca_read_fault = (\<lambda>_. None), ca_write = (\<lambda>_. Written), ca_repr = (\<lambda>_. [])\<rparr>"

lemma demo_authority_simps [simp]:
  "ca_lib (demo_authority key now) = plain_crypto" "ca_now (demo_authority key now) = now"
  "ca_uuid (demo_authority key now) = 1" "ca_read_fault (demo_authority key now) = (\<lambda>_. None)"
  "ca_write (demo_authority key now) = (\<lambda>_. Written)" "ca_entropy (demo_authority key now) = [b8 key]"
  "ca_password (demo_authority key now) None = Inr DEMO_PASSWORD"
  by (simp_all add: demo_authority_def ca_password_def)

lemma plain_keygen: "keygen_correct plain_crypto"
  "generate_rsa_keypair plain_crypto [b8 key] DEMO_PASSWORD = Inr ([b8 key], [b8 key])"
proof -
  have "\<exists>k. load_pem_private_key plain_crypto priv pw = RsaKey k \<and> load_pem_public_key plain_crypto pub = RsaKey k"
    if "new_rsa_key plain_crypto e pw = (priv, pub)" for e pw priv pub
    using that by (cases e) (auto simp: plain_crypto_def)
  then show "keygen_correct plain_crypto" unfolding keygen_correct_def by blast
  show "generate_rsa_keypair plain_crypto [b8 key] DEMO_PASSWORD = Inr ([b8 key], [b8 key])"
    by (simp add: generate_rsa_keypair_def DEMO_PASSWORD_def lit_def plain_crypto_def)
qed

lemma plain_issue:
  assumes "wf_str name" "name \<noteq> []" "key < 128" "0 < days" "wf_int now" "wf_int (now + days * 86400)"
  shows "\<exists>cert. issue_certificate plain_crypto now (uuid_str 1) salt name [b8 key] [b8 67] pw days = Inr cert"
proof -
  have p: "ascii_decode [b8 key] = Inr [key]" using assms(3) by (simp add: ascii_decode_def unat_b8)
  have "wf_json (JObj (unsigned_cert name [key] now days (uuid_str 1)))"
    using assms uuid_str_wf [of 1] wf_str_ascii [of "[key]"] by (simp add: unsigned_cert_def ISSUER_NAME_def)
  then obtain body where "canonical_json (JObj (unsigned_cert name [key] now days (uuid_str 1))) = Inr body"
    by (rule canonical_json_wf)
  moreover have "rsa_sign plain_crypto salt [b8 67] pw body = Inr (b8 67 # body)" for body
    by (simp add: rsa_sign_def load_private_def rsa_key_of_def plain_crypto_def)
  ultimately show ?thesis using assms(2,4) p by (simp add: issue_certificate_def)
qed

definition demo_issue :: issue_args where
  "demo_issue = \<lparr>i_username = alice, i_ca_dir = lit ''ca'', i_user_dir = lit ''users'', i_password = None,
     i_user_password = None, i_days = 365, i_force = False\<rparr>"

lemma demo_issue_simps: "i_username demo_issue = alice" "i_ca_dir demo_issue = lit ''ca''" "i_password demo_issue = None"
  "i_user_password demo_issue = None" "i_days demo_issue = 365" "\<not> i_force demo_issue"
  by (simp_all add: demo_issue_def)

text \<open>The files of a command that issued \<open>cert\<close> can be written.\<close>

lemma demo_written:
  assumes "issue_certificate C now (uuid_str n) salt subject pem priv pw days = Inr cert"
    and "wf_str subject" "wf_int now" "wf_int (now + days * 86400)" "ca_write w = (\<lambda>_. Written)"
  obtains data where "write_credentials w fs (p, a) (q, b) (r, cert) = (((fs(p \<mapsto> a))(q \<mapsto> b))(r \<mapsto> data), None)"
proof -
  have "wf_json (JObj cert)" using issued_wf(1) [OF assms(1,2) uuid_str_wf assms(3,4)] .
  then obtain data where "utf8_encode (pretty (sort_keys (JObj cert)) 0) = Inr data"
    using pretty_text_file [OF wf_sort_keys, of "JObj cert" 0] by metis
  then have "write_credentials w fs (p, a) (q, b) (r, cert) = (((fs(p \<mapsto> a))(q \<mapsto> b))(r \<mapsto> data), None)"
    unfolding write_credentials_None by (simp add: assms(5) del: sort_keys.simps)
  then show thesis by (rule that)
qed

lemma demo_days: "wf_int 0" "wf_int 10" "wf_int (0 + 365 * 10 * 86400)" "wf_int (10 + 365 * 86400)"
  by (rule wf_int64, simp add: int64_def)+

lemma demo_ca_runs:
  obtains fs1 sh0 l0 fs2 sh1 l1 where
    "cmd_init (demo_authority 67 0) Map.empty (lit ''ca'') None False = (fs1, sh0, l0)" "sh_end sh0 = Exit 0"
    "cmd_issue (demo_authority 65 10) fs1 demo_issue = (fs2, sh1, l1)" "sh_end sh1 = Exit 0"
proof -
  let ?w = "demo_authority 67 0" and ?w' = "demo_authority 65 10"
  let ?priv = "ca_private_path (lit ''ca'')" and ?pub = "ca_public_path (lit ''ca'')" and ?cert = "ca_cert_path (lit ''ca'')"
  have name: "wf_str ISSUER_NAME" "ISSUER_NAME \<noteq> []" by (simp_all add: ISSUER_NAME_def)
  obtain c0 where c0: "issue_certificate plain_crypto 0 (uuid_str 1) (ca_salt ?w) ISSUER_NAME [b8 67] [b8 67] DEMO_PASSWORD (365 * 10) = Inr c0"
    using plain_issue [OF name, of 67 "365 * 10" 0] demo_days by auto
  obtain d0 where w0: "write_credentials ?w Map.empty (?priv, [b8 67]) (?pub, [b8 67]) (?cert, c0) =
      (((Map.empty(?priv \<mapsto> [b8 67]))(?pub \<mapsto> [b8 67]))(?cert \<mapsto> d0), None)"
    using demo_written [OF c0 name(1) demo_days(1,3) demo_authority_simps(5)] by blast
  let ?fs1 = "((Map.empty(?priv \<mapsto> [b8 67]))(?pub \<mapsto> [b8 67]))(?cert \<mapsto> d0) :: filesystem"
  have "self_issue ?w DEMO_PASSWORD = Inr ([b8 67], [b8 67], c0)"
    using c0 plain_keygen(2) [of 67] by (simp add: self_issue_def del: One_nat_def)
  then obtain sh0 l0 where init: "cmd_init ?w Map.empty (lit ''ca'') None False = (?fs1, sh0, l0)" "sh_end sh0 = Exit 0"
    using w0 by (simp add: cmd_init_def Let_def)
  obtain c1 where c1: "issue_certificate plain_crypto 10 (uuid_str 1) (ca_salt ?w') alice [b8 65] [b8 67] DEMO_PASSWORD 365 = Inr c1"
    using plain_issue [OF wf_names(1,3), of 65 365 10] demo_days by auto
  let ?user = "\<lambda>n. user_file demo_issue n"
  obtain d1 where w1: "write_credentials ?w' ?fs1 (?user ''private.pem'', [b8 65]) (?user ''public.pem'', [b8 65]) (?user ''cert.json'', c1) =
      (((?fs1(?user ''private.pem'' \<mapsto> [b8 65]))(?user ''public.pem'' \<mapsto> [b8 65]))(?user ''cert.json'' \<mapsto> d1), None)"
    using demo_written [OF c1 wf_names(1) demo_days(2,4) demo_authority_simps(5)] by blast
  have there: "?fs1 ?priv = Some [b8 67]" "?fs1 ?cert \<noteq> None" "?fs1 (?user ''cert.json'') = None"
    using file_names_differ by (simp_all add: ca_paths user_files)
  have "ca_issue_to ?w' ?fs1 alice (lit ''ca'') DEMO_PASSWORD DEMO_PASSWORD 365 = Inr ([b8 65], [b8 65], c1)"
    using c1 there(1) plain_keygen(2) [of 65] by (simp add: ca_issue_to_def del: One_nat_def)
  moreover have "alice \<noteq> []" "47 \<notin> set alice" "alice \<noteq> [46]" "alice \<noteq> [46, 46]"
    by (simp_all add: alice_def lit_def)
  ultimately obtain fs2 sh1 l1 where "cmd_issue ?w' ?fs1 demo_issue = (fs2, sh1, l1)" "sh_end sh1 = Exit 0"
    using w1 there by (simp add: cmd_issue_def Let_def demo_issue_simps)
  with init show thesis by (rule that)
qed

section \<open>Alice's inbox in the browser\<close>

definition demo_letter :: frow where
  "demo_letter = (demo_row (lit ''pending''))\<lparr>sender_id := bob, recipient_id := alice\<rparr>"

definition demo_inbox :: jdict where
  "demo_inbox = pending_dict demo_world demo_fs demo_letter"

lemma demo_inbox_wf: "wf_json (JObj [(lit ''files'', JArr [JObj demo_inbox])])"
  "weight (JObj [(lit ''files'', JArr [JObj demo_inbox])]) \<le> 5000000"
proof -
  have "blob_size demo_world demo_fs demo_file = JNull"
    using demo_path_differs [unfolded bob_path_def] by (simp add: blob_size_def Let_def demo_world_def demo_fs_def)
  then have e: "demo_inbox = [(lit ''file_id'', JStr demo_file), (lit ''sender_id'', JStr bob),
      (lit ''upload_timestamp'', JInt 990), (lit ''expiration'', JInt 5000), (lit ''ciphertext_size'', JNull)]"
    by (simp add: demo_inbox_def pending_dict_def pending_entry_def demo_letter_def demo_row_def)
  show "wf_json (JObj [(lit ''files'', JArr [JObj demo_inbox])])"
    "weight (JObj [(lit ''files'', JArr [JObj demo_inbox])]) \<le> 5000000"
    unfolding e by (simp_all add: demo_file_wf str_int_def dec.simps) (simp add: demo_file_def bob_def)
qed

lemma demo_inbox_session:
  obtains sock s' where "snd (connected_session demo_client (demo_machine sock) alice [] (list_pending demo_out)) = Inr ([demo_inbox], s')"
proof -
  let ?p = "[(lit ''files'', JArr [JObj demo_inbox])]"
  obtain c1 c2 where w: "wire demo_stamp (lit ''HELLO'') (hello_payload demo_server) = Inr c1"
      "wire demo_stamp (lit ''SESSION_OK'') (sig_payload (demo_proof 66)) = Inr c2"
    by (rule demo_wires)
  obtain c3 where c3: "wire demo_stamp (lit ''PENDING_LIST'') ?p = Inr c3"
    using wire_small [OF _ demo_stamp(1) demo_inbox_wf demo_stamp(2)] by (auto simp: MESSAGE_TYPES_def)
  obtain out where out: "wire demo_stamp (lit ''LIST_PENDING'') [] = Inr out"
    using wire_small [of "lit ''LIST_PENDING''" demo_stamp "[]"] demo_stamp by (auto simp: MESSAGE_TYPES_def)
  let ?sock = "arriving [c1, c2, c3]"
  have "stream ?sock = c1 @ c2 @ c3" by simp
  from client_completes [OF plain_crypto_correct(1) _ _ demo_parties(1,2,4) demo_keys(1,2) demo_keys(3,4)
      demo_stamp(1) demo_stamp(1) w arriving(1) this]
  obtain state s1 where r: "snd (perform_client_handshake demo_client (Some (JStr bob)) ?sock) = Inr (state, s1)"
      and s1: "clean s1" "stream s1 = c3 @ []" by auto
  obtain e s2 where e: "recv_envelope s1 = Inr (e, s2)" "e_type e = lit ''PENDING_LIST''" "e_payload e = ?p"
    using recv_wire [OF s1 c3 demo_stamp(1) demo_inbox_wf(1)] by blast
  let ?a = "\<lparr>a_config = demo_config, a_cert = demo_cert alice 65, a_priv = [b8 65], a_ca = [b8 67]\<rparr>"
  have "snd (open_session demo_client (demo_machine ?sock) alice []) = Inr (?a, state, s1)"
    using demo_target [of ?sock] r by (simp add: open_session_Inr client_party_def demo_party_def demo_machine_def)
  moreover have "snd (list_pending demo_out l s1) = Inr ([demo_inbox], s2)" if "l_sock l" for l
    using that e out by (simp add: list_pending_def snd_hbind_Inr client_send_Inr client_reply_Inr jget_def)
  ultimately have "snd (connected_session demo_client (demo_machine ?sock) alice [] (list_pending demo_out)) = Inr ([demo_inbox], s2)"
    by (auto simp: connected_session_def snd_hbind_Inr live_session_def)
  then show thesis by (rule that)
qed

definition demo_web :: web where
  "demo_web = \<lparr>recent_commands = [], upload_filenames = [], web_disk = (\<lambda>_. Some [])\<rparr>"

text \<open>A machine on which every command prints what \<open>sh\<close> printed.\<close>

definition demo_webenv :: "shell \<Rightarrow> webenv" where
  "demo_webenv sh = \<lparr>repo_root = mk_path (lit ''/srv''), list_dir = (\<lambda>_. None), metadata = None,
     process_env = (\<lambda>_. None), run_process = (\<lambda>env cmd fs. (fs, Some (0, stdout_text sh, []))), python_exe = lit ''python'', clock_text = [],
     save_fault = (\<lambda>_. None), to_lower = (\<lambda>s. s)\<rparr>"

section \<open>Threads\<close>

definition demo_uploader :: thread where
  "demo_uploader = \<lparr>th_env = demo_world, th_sess = demo_session alice 65, th_peer = [], th_msg = demo_upload,
     th_job = Inr Arrived\<rparr>"

definition demo_revoker :: thread where
  "demo_revoker = \<lparr>th_env = demo_world, th_sess = demo_session alice 65, th_peer = [], th_msg = demo_revoke,
     th_job = Inr Arrived\<rparr>"

definition demo_receiver :: thread where
  "demo_receiver = \<lparr>th_env = demo_world, th_sess = demo_session bob 66, th_peer = [],
     th_msg = demo_ack\<lparr>e_nonce := JStr (b64encode (replicate 16 8))\<rparr>, th_job = Inr Arrived\<rparr>"

lemma demo_pool_upload:
  obtains p r where "(pool_step plain_crypto [b8 67])\<^sup>*\<^sup>* (alone demo_start) p" "lookup_file (sdb (shared p)) demo_file = Some r"
proof -
  obtain s' acts where h: "handle_upload_request demo_world demo_start (demo_session alice 65) demo_upload = (s', acts, None)"
      "upload_done demo_world (demo_session alice 65) demo_fields (gated demo_start) s'"
    using demo_upload_sends by blast
  have d: "dispatch demo_world demo_start (demo_session alice 65) [] demo_upload = (s', acts, None)"
    using h(1) by (simp add: dispatch_def demo_upload_def demo_envelope_def)
  let ?p = "\<lparr>shared = demo_start, threads = [demo_uploader]\<rparr>"
  have "pool_step plain_crypto [b8 67] (alone demo_start) ?p"
    using pool_step.spawn [of demo_uploader plain_crypto "[b8 67]" "alone demo_start"]
    by (simp add: demo_uploader_def demo_world_def)
  also have "(pool_step plain_crypto [b8 67])\<^sup>*\<^sup>* ?p (?p\<lparr>shared := s', threads := [demo_uploader\<lparr>th_job := Inl (acts, None)\<rparr>]\<rparr>)"
    using pool_runs_alone [of 5 demo_uploader Arrived ?p s' acts None 0 plain_crypto "[b8 67]"]
      dispatch_alone [of demo_world "demo_session alice 65" "[]" demo_upload demo_start] d
    by (simp add: demo_uploader_def del: run_alone.simps)
  finally have run: "(pool_step plain_crypto [b8 67])\<^sup>*\<^sup>* (alone demo_start)
      (?p\<lparr>shared := s', threads := [demo_uploader\<lparr>th_job := Inl (acts, None)\<rparr>]\<rparr>)" .
  obtain sender aad where r: "sdb s' = (sdb (gated demo_start))\<lparr>files := files (sdb (gated demo_start)) @
      [uploaded_row demo_fields (demo_session alice 65) sender aad]\<rparr>"
    using h(2) by (rule upload_done_row)
  have "lookup_file (sdb s') demo_file = Some (uploaded_row demo_fields (demo_session alice 65) sender aad)"
    unfolding r by (simp add: lookup_file_def gated_def demo_start_def empty_db_def uploaded_row_def row_of_def
        upload_values_def demo_fields_def)
  with run that show thesis by fastforce
qed

text \<open>The receipt, under a nonce of its own, after the replay check of the revocation.\<close>

lemma demo_receipt_runs:
  obtains s2 acts2 where
    "dispatch demo_world (gated (demo_stored (lit ''pending''))) (demo_session bob 66) [] (th_msg demo_receiver) = (s2, acts2, None)"
    "abs_status s2 demo_file = Some (lit ''downloaded'')"
proof -
  let ?s = "gated (demo_stored (lit ''pending''))" and ?e = "th_msg demo_receiver"
  define s1 where "s1 = ?s\<lparr>sdb := (sdb ?s)\<lparr>seen_nonces := seen_nonces (sdb ?s) @ [(replicate 16 8, 1000)]\<rparr>\<rparr>"
  have "(8::8 word) \<noteq> 7" by simp
  then have "replicate 16 (8::8 word) \<noteq> replicate 16 7" by (metis in_set_replicate zero_neq_numeral)
  then have "check_and_record (sdb ?s) (replicate 16 8) 990 1000 = (sdb s1, True)"
    by (simp add: check_and_record_def s1_def gated_def demo_stored_def TIMESTAMP_WINDOW_SECONDS_def)
  then have g: "gate_passed demo_world ?e ?s s1"
    by (simp add: gate_passed_def demo_receiver_def demo_ack_def demo_envelope_def b64_field_def demo_world_def s1_def)
  have a: "ack_authorised demo_world s1 (demo_session bob 66) ?e demo_ack_request (demo_row (lit ''pending''))"
    using demo_ack_authorised [of "lit ''pending''" "lit ''DOWNLOAD_ACK''"]
    by (simp add: ack_authorised_def demo_receiver_def demo_ack_def demo_envelope_def s1_def lookup_file_def
        demo_session_def demo_row_def)
  have "int64 (the (as_int (r_timestamp demo_ack_request)))" by (simp add: demo_ack_request_def int64_def)
  then obtain s2 acts2 where h: "handle_download_ack demo_world ?s (demo_session bob 66) ?e = (s2, acts2, None)"
      "acked demo_world demo_ack_request s1 s2"
    using handle_ack_accepts [OF g a] by (auto simp: demo_world_def)
  have l: "lookup_file (sdb s1) demo_file = Some (demo_row (lit ''pending''))"
    using a by (simp add: ack_authorised_def demo_ack_request_def)
  obtain db1 where db: "record_ack demo_world demo_ack_request (sdb s1) = Inr db1"
      "sdb s2 = set_status demo_file (lit ''downloaded'') db1"
    using h(2) by (auto simp: acked_def demo_ack_request_def)
  have "lookup_file db1 demo_file = Some (demo_row (lit ''pending''))"
    using l record_ack_files [OF db(1)] by (simp add: lookup_file_def)
  then have "abs_status s2 demo_file = Some (lit ''downloaded'')" by (simp add: abs_status_def db(2) lookup_set_status)
  with h(1) that show thesis by (simp add: dispatch_def demo_receiver_def demo_ack_def demo_envelope_def)
qed

lemma demo_revoker_ready:
  "gate_passed (th_env demo_revoker) (th_msg demo_revoker) (demo_stored (lit ''pending'')) (gated (demo_stored (lit ''pending'')))"
  "revoke_authorised (th_env demo_revoker) (gated (demo_stored (lit ''pending''))) (th_sess demo_revoker)
     (th_msg demo_revoker) demo_revoke_request (demo_row (lit ''pending''))"
  using demo_revoke_authorised by (simp_all add: demo_revoker_def demo_revoke_def)

lemma demo_thread_worlds [simp]:
  "lib (th_env demo_revoker) = plain_crypto" "ca_pubkey (th_env demo_revoker) = [b8 67]"
  "lib (th_env demo_receiver) = plain_crypto" "ca_pubkey (th_env demo_receiver) = [b8 67]"
  "get_fault (th_env demo_revoker) = None" "mark_fault (th_env demo_revoker) = None"
  "e_type (th_msg demo_revoker) = lit ''REVOKE_REQUEST''"
  by (simp_all add: demo_revoker_def demo_receiver_def demo_world_def demo_revoke_def demo_envelope_def)

lemma demo_race:
  obtains p p' r where "(pool_step plain_crypto [b8 67])\<^sup>*\<^sup>* (alone (demo_stored (lit ''pending''))) p"
    "pool_step plain_crypto [b8 67] p p'" "lookup_file (sdb (shared p)) demo_file = Some r"
    "lookup_file (sdb (shared p')) demo_file = Some (r\<lparr>status := lit ''revoked''\<rparr>)" "status r = lit ''downloaded''"
proof -
  obtain s2 acts2 where d: "dispatch (th_env demo_receiver) (gated (demo_stored (lit ''pending''))) (th_sess demo_receiver)
      (th_peer demo_receiver) (th_msg demo_receiver) = (s2, acts2, None)"
      "abs_status s2 demo_file = Some (lit ''downloaded'')"
    using demo_receipt_runs by (auto simp: demo_receiver_def)
  then obtain r where r: "lookup_file (sdb s2) demo_file = Some r" "status r = lit ''downloaded''"
    by (auto simp: abs_status_def)
  have f: "r_file_id demo_revoke_request = demo_file" by (simp add: demo_revoke_request_def)
  have ready: "revoke_ready (th_env demo_revoker) (th_sess demo_revoker) (th_msg demo_revoker) (gated (demo_stored (lit ''pending'')))
      = Some demo_revoke_request"
    using demo_revoker_ready(2) by (auto simp: revoke_ready_iff demo_row_def)
  have "wf_str demo_file" using demo_file_ok by (rule uuid_wf)
  then obtain acts1 where m: "revoke_mark (th_env demo_revoker) (th_sess demo_revoker) (th_msg demo_revoker) demo_revoke_request s2 =
      (s2\<lparr>sdb := set_status demo_file (lit ''revoked'') (sdb s2)\<rparr>, acts1, None)"
    using revoke_mark_done [of "th_env demo_revoker" demo_revoke_request] f by (metis demo_thread_worlds(6))
  note run = overtaken_revocation [OF demo_revoker_ready(1) _ ready d(1) m,
      where C = plain_crypto and ca = "[b8 67]", simplified]
  show thesis
    by (rule that [OF run _ _ r(2)]) (simp_all add: r(1) lookup_set_status)
qed

lemma demo_two_uploaders:
  obtains t p where "(clocked_step plain_crypto [b8 67])\<^sup>*\<^sup>* (0, alone demo_start) (t, p)"
    "threads p = [demo_uploader\<lparr>th_job := Inr Checking\<rparr>, demo_uploader]"
proof -
  let ?step = "clocked_step plain_crypto [b8 67]"
  let ?p = "\<lambda>ts. \<lparr>shared = demo_start, threads = ts\<rparr>"
  let ?q = "\<lparr>shared = gated demo_start, threads = [demo_uploader\<lparr>th_job := Inr Checking\<rparr>, demo_uploader]\<rparr>"
  have w: "lib (th_env demo_uploader) = plain_crypto" "ca_pubkey (th_env demo_uploader) = [b8 67]"
      "th_job demo_uploader = Inr Arrived" "t_replay (th_env demo_uploader) = 1000"
    by (simp_all add: demo_uploader_def demo_world_def)
  have 1: "?step (0, alone demo_start) (0, ?p [demo_uploader])"
    using clocked_step.spawn [of demo_uploader plain_crypto "[b8 67]" 0 "alone demo_start"] w by simp
  have 2: "?step (0, ?p [demo_uploader]) (0, ?p [demo_uploader, demo_uploader])"
    using clocked_step.spawn [of demo_uploader plain_crypto "[b8 67]" 0 "?p [demo_uploader]"] w by simp
  have "gate_passed demo_world demo_upload demo_start (gated demo_start)"
    unfolding demo_upload_def by (rule demo_gate) (simp add: demo_start_def empty_db_def)
  then have "job_step (th_env demo_uploader) (th_sess demo_uploader) (th_peer demo_uploader) (th_msg demo_uploader)
      Arrived demo_start = (gated demo_start, Inr Checking)"
    by (simp add: admitted_iff [symmetric] demo_uploader_def has_gate_def demo_upload_def demo_envelope_def)
  then have 3: "?step (0, ?p [demo_uploader, demo_uploader]) (0, ?q)"
    using clocked_step.run [of 0 "?p [demo_uploader, demo_uploader]" demo_uploader Arrived 0 "gated demo_start" "Inr Checking"
        plain_crypto "[b8 67]"] w
    by simp
  show thesis
  proof (rule that)
    show "?step\<^sup>*\<^sup>* (0, alone demo_start) (0, ?q)"
      using 1 2 3 by (meson converse_rtranclp_into_rtranclp rtranclp.rtrancl_refl)
  qed simp
qed

section \<open>The prototype\<close>

text \<open>Certificates of a few bytes: the subject (one of the script's four), the key, the validity
  and the signature, which is the issuer's key in front of the rest.\<close>

definition demo_names :: "(string \<times> pystr) list list" where
  "demo_names = [legacy_ca_name, entity_name (lit ''server''), entity_name (lit ''client1''), entity_name (lit ''client2'')]"

text \<open>A date is a whole number of days, in two bytes.\<close>

definition date_bytes :: "int \<Rightarrow> bytes" where
  "date_bytes t = [word_of_int (t div 86400 div 256), word_of_int (t div 86400)]"

definition date_of :: "bytes \<Rightarrow> int" where
  "date_of b = 86400 * (256 * uint (b ! 0) + uint (b ! 1))"

definition date_ok :: "int \<Rightarrow> bool" where
  "date_ok t \<longleftrightarrow> t mod 86400 = 0 \<and> 0 \<le> t div 86400 \<and> t div 86400 < 65536"

lemma date_of_bytes: "date_ok t \<Longrightarrow> date_of (date_bytes t) = t"
proof -
  assume t: "date_ok t"
  define d where "d = t div 86400"
  have "t = 86400 * d" "0 \<le> d" "d < 65536" using t by (auto simp: date_ok_def d_def)
  then have "0 \<le> d div 256" "d div 256 mod 256 = d div 256" "256 * (d div 256) + d mod 256 = d" by simp_all
  then show ?thesis using \<open>t = 86400 * d\<close>
    by (simp add: date_of_def date_bytes_def unsigned_of_int take_bit_eq_mod)
qed

definition demo_x509 :: "byte \<Rightarrow> byte \<Rightarrow> bytes \<Rightarrow> bytes \<Rightarrow> byte \<Rightarrow> x509" where
  "demo_x509 i k from until issuer =
     \<lparr>x_key = Some (unat k), x_sig = issuer # i # k # from @ until, x_tbs = i # k # from @ until, x_hash = ''sha256'',
      x_subject = demo_names ! unat i, x_not_before = date_of from, x_not_after = date_of until\<rparr>"

definition demo_x509_lib :: x509_lib where
  "demo_x509_lib =
     \<lparr>x_crypto = plain_crypto,
      load_x509 = (\<lambda>b. if length b = 7 then Inr (demo_x509 (b ! 1) (b ! 2) (take 2 (drop 3 b)) (drop 5 b) (b ! 0))
                       else Inl ValueError),
      pkcs1_verify = (\<lambda>k sig tbs h. sig = b8 k # tbs)\<rparr>"

fun name_index :: "'a list \<Rightarrow> 'a \<Rightarrow> nat option" where
  "name_index [] x = None"
| "name_index (y # ys) x = (if x = y then Some 0 else map_option Suc (name_index ys x))"

lemma name_index_Some: "name_index ys x = Some i \<Longrightarrow> i < length ys \<and> ys ! i = x"
  by (induction ys arbitrary: i) (auto split: if_splits)

definition demo_sign :: "cert_request \<Rightarrow> nat \<Rightarrow> x509 res" where
  "demo_sign q k =
     (case name_index demo_names (q_subject q) of
        Some i \<Rightarrow>
          if q_key q < 256 \<and> date_ok (q_from q) \<and> date_ok (q_to q)
          then Inr (demo_x509 (b8 i) (b8 (q_key q)) (date_bytes (q_from q)) (date_bytes (q_to q)) (b8 k))
          else Inl ValueError
      | None \<Rightarrow> Inl ValueError)"

definition demo_workshop :: workshop where
  "demo_workshop =
     \<lparr>w_lib = demo_x509_lib, w_sign = demo_sign, w_cert_pem = x_sig, w_key_pem = (\<lambda>k. replicate k 0),
      w_load_key = (\<lambda>b. Inr (length b)), w_write = (\<lambda>_. Written), w_read_fault = (\<lambda>_. None), w_makedirs = None\<rparr>"

lemma demo_workshop_correct: "workshop_correct demo_workshop"
proof -
  have "x_subject cert = q_subject q \<and> x_key cert = Some (q_key q) \<and> x_not_before cert = q_from q
      \<and> x_not_after cert = q_to q \<and> pkcs1_verify demo_x509_lib k (x_sig cert) (x_tbs cert) (x_hash cert)
      \<and> load_x509 demo_x509_lib (x_sig cert) = Inr cert"
    if signed: "demo_sign q k = Inr cert" for q k cert
  proof -
    obtain i where i: "name_index demo_names (q_subject q) = Some i" "q_key q < 256"
        "date_ok (q_from q)" "date_ok (q_to q)"
        "cert = demo_x509 (b8 i) (b8 (q_key q)) (date_bytes (q_from q)) (date_bytes (q_to q)) (b8 k)"
      using signed by (auto simp: demo_sign_def split: option.splits if_splits)
    have "i < 4" "demo_names ! i = q_subject q" using name_index_Some [OF i(1)] by (auto simp: demo_names_def)
    then show ?thesis
      using i date_of_bytes [OF i(3)] date_of_bytes [OF i(4)]
      by (simp add: demo_x509_def demo_x509_lib_def unat_b8 date_bytes_def)
  qed
  then show ?thesis
    by (auto simp: workshop_correct_def demo_workshop_def)
qed

text \<open>Four certificates, the server's of a year that is long over; and the rest of a party.\<close>

definition demo_draws :: "nat \<Rightarrow> draw" where
  "demo_draws n =
     \<lparr>d_key = 65 + n, d_serial = n, d_from = (if n = 1 then 0 else 864000000), d_until = (if n = 1 then 0 else 864000000)\<rparr>"

definition demo_prototype :: "nat \<Rightarrow> legacy_party" where
  "demo_prototype n =
     \<lparr>lp_key = 0, lp_cert_pem = [], lp_ca = demo_x509 0 0 [] [] 0, lp_nonce = replicate 16 (b8 n), lp_secret = replicate 32 (b8 n),
      lp_seed = [], lp_salt = [], lp_now = 864000500, lp_send_fault = (\<lambda>_. None)\<rparr>"

definition demo_year :: "int \<Rightarrow> int \<Rightarrow> nat \<Rightarrow> nat \<Rightarrow> x509" where
  "demo_year t n i k = demo_x509 (b8 i) (b8 k) (date_bytes t) (date_bytes (t + day_seconds n)) (b8 65)"

definition demo_certs :: filesystem where
  "demo_certs = (\<lambda>_. None)
     (certs_path ca_key_name \<mapsto> replicate 65 0, certs_path ca_cert_name \<mapsto> x_sig (demo_year 864000000 3650 0 65),
      certs_path (lit ''server'' @ lit ''_private.pem'') \<mapsto> replicate 66 0,
      certs_path (lit ''server'' @ lit ''_cert.pem'') \<mapsto> x_sig (demo_year 0 365 1 66),
      certs_path (lit ''client1'' @ lit ''_private.pem'') \<mapsto> replicate 67 0,
      certs_path (lit ''client1'' @ lit ''_cert.pem'') \<mapsto> x_sig (demo_year 864000000 365 2 67),
      certs_path (lit ''client2'' @ lit ''_private.pem'') \<mapsto> replicate 68 0,
      certs_path (lit ''client2'' @ lit ''_cert.pem'') \<mapsto> x_sig (demo_year 864000000 365 3 68))"

lemma demo_indices:
  "name_index demo_names legacy_ca_name = Some 0" "name_index demo_names (entity_name (lit ''server'')) = Some 1"
  "name_index demo_names (entity_name (lit ''client1'')) = Some 2" "name_index demo_names (entity_name (lit ''client2'')) = Some 3"
  by code_simp+

lemma demo_dates: "date_ok 0" "date_ok 864000000" "date_ok (day_seconds 365)" "date_ok (864000000 + day_seconds 365)"
  "date_ok (864000000 + day_seconds 3650)"
  by (simp_all add: date_ok_def day_seconds_def)

lemma demo_certs_made: "legacy_ca_main demo_workshop demo_draws (\<lambda>_. None) = (demo_certs, Inr ())"
proof -
  have "distinct (map certs_path (rev script_files))" using script_files_distinct by (simp add: rev_map [symmetric])
  then show ?thesis
    using script_files_distinct unfolding script_files_def
    by (simp add: legacy_ca_main_def setup_ca_def generate_entity_cert_def Let_def legacy_keep_def wbind_def legacy_save_def
        demo_workshop_def demo_sign_def demo_draws_def demo_indices demo_dates demo_certs_def demo_year_def)
qed

lemma demo_certs_files:
  "demo_certs (certs_path ca_cert_name) = Some (x_sig (demo_year 864000000 3650 0 65))"
  "demo_certs (certs_path (lit ''server'' @ lit ''_private.pem'')) = Some (replicate 66 0)"
  "demo_certs (certs_path (lit ''server'' @ lit ''_cert.pem'')) = Some (x_sig (demo_year 0 365 1 66))"
  "demo_certs (certs_path (lit ''client1'' @ lit ''_private.pem'')) = Some (replicate 67 0)"
  "demo_certs (certs_path (lit ''client1'' @ lit ''_cert.pem'')) = Some (x_sig (demo_year 864000000 365 2 67))"
  using script_files_distinct unfolding script_files_def by (simp_all add: demo_certs_def)

lemma demo_year_fields:
  assumes "i < 4" "k < 256" "date_ok t" "date_ok (t + day_seconds n)"
  shows "x_key (demo_year t n i k) = Some k" "x_subject (demo_year t n i k) = demo_names ! i"
    "x_not_before (demo_year t n i k) = t" "x_not_after (demo_year t n i k) = t + day_seconds n"
    "x_sig (demo_year t n i k) = b8 65 # x_tbs (demo_year t n i k)"
    "load_x509 demo_x509_lib (x_sig (demo_year t n i k)) = Inr (demo_year t n i k)"
  using assms date_of_bytes [OF assms(3)] date_of_bytes [OF assms(4)]
  by (simp_all add: demo_year_def demo_x509_def unat_b8 demo_x509_lib_def date_bytes_def)

lemma demo_equipped:
  "equipped demo_workshop demo_certs (demo_year 864000000 3650 0 65) (lit ''server'') (demo_draws 1) (demo_year 0 365 1 66)"
  "equipped demo_workshop demo_certs (demo_year 864000000 3650 0 65) (lit ''client1'') (demo_draws 2) (demo_year 864000000 365 2 67)"
  using demo_year_fields [of 1 66 0 365] demo_year_fields [of 2 67 864000000 365] demo_year_fields [of 0 65 864000000 3650]
    demo_dates
  by (simp_all add: equipped_def demo_certs_files demo_draws_def demo_workshop_def signed_by_ca_def demo_names_def)
    (simp_all add: demo_x509_lib_def)

definition demo_side :: "nat \<Rightarrow> x509 \<Rightarrow> nat \<Rightarrow> legacy_party" where
  "demo_side k cert n = (demo_prototype n)\<lparr>lp_key := k, lp_cert_pem := x_sig cert, lp_ca := demo_year 864000000 3650 0 65\<rparr>"

lemma demo_sides:
  "legacy_load_party demo_workshop demo_certs (lit ''server'') (demo_prototype 7) = Inr (demo_side 66 (demo_year 0 365 1 66) 7)"
  "legacy_load_party demo_workshop demo_certs (lit ''client1'') (demo_prototype 8) = Inr (demo_side 67 (demo_year 864000000 365 2 67) 8)"
proof -
  have "demo_certs (certs_path ca_cert_name) = Some (w_cert_pem demo_workshop (demo_year 864000000 3650 0 65))"
    "load_x509 (w_lib demo_workshop) (w_cert_pem demo_workshop (demo_year 864000000 3650 0 65)) = Inr (demo_year 864000000 3650 0 65)"
    "\<forall>p. w_read_fault demo_workshop p = None"
    using demo_year_fields(6) [of 0 65 864000000 3650] demo_dates by (simp_all add: demo_certs_files demo_workshop_def)
  note ok = legacy_load_party_ok [where W = demo_workshop and fs = demo_certs and ca = "demo_year 864000000 3650 0 65", OF _ this(1,2) demo_workshop_correct this(3)]
  show "legacy_load_party demo_workshop demo_certs (lit ''server'') (demo_prototype 7) = Inr (demo_side 66 (demo_year 0 365 1 66) 7)"
    "legacy_load_party demo_workshop demo_certs (lit ''client1'') (demo_prototype 8) = Inr (demo_side 67 (demo_year 864000000 365 2 67) 8)"
    using ok [OF demo_equipped(1)] ok [OF demo_equipped(2)]
    by (simp_all add: demo_side_def demo_draws_def demo_workshop_def)
qed

lemma demo_pems:
  "x_sig (demo_year 0 365 1 66) = [65, 1, 66, 0, 0, 1, 109]"
  "x_sig (demo_year 864000000 365 2 67) = [65, 2, 67, 39, 16, 40, 125]"
  by (simp_all add: demo_year_def demo_x509_def date_bytes_def day_seconds_def b8_def)

lemma short_frame:
  "(case utf8_encode (dumps default_opts (JObj d)) of Inl _ \<Rightarrow> False | Inr b \<Rightarrow> length b < 1000) \<Longrightarrow> \<exists>m. legacy_frame d = Inr m"
  by (auto simp: legacy_frame_def simp del: dumps.simps split: sum.splits)

lemma demo_frames:
  "\<exists>m. legacy_frame (client_hello_msg (demo_side 67 (demo_year 864000000 365 2 67) 8)) = Inr m"
  "\<exists>m. legacy_frame (server_hello_msg (demo_side 66 (demo_year 0 365 1 66) 7)
     (b8 66 # replicate 16 (b8 8) @ replicate 16 (b8 7))) = Inr m"
  "\<exists>m. legacy_frame (client_key_exchange_msg (b8 66 # replicate 32 (b8 8))
     (b8 67 # replicate 16 (b8 8) @ replicate 16 (b8 7) @ replicate 32 (b8 8))) = Inr m"
  unfolding client_hello_msg_def server_hello_msg_def client_key_exchange_msg_def demo_side_def demo_prototype_def
  by (rule short_frame, (simp add: demo_pems del: dumps.simps)?, code_simp)+

section \<open>The import checker\<close>

definition demo_word :: "nat \<Rightarrow> bool" where
  "demo_word c \<longleftrightarrow> 48 \<le> c \<and> c \<le> 57 \<or> 65 \<le> c \<and> c \<le> 90 \<or> 97 \<le> c \<and> c \<le> 122 \<or> c = 95"

definition demo_tree :: "pystr \<Rightarrow> source_tree" where
  "demo_tree text =
     \<lparr>t_exists = (\<lambda>_. True), t_is_file = (\<lambda>_. True), t_rglob_py = (\<lambda>_. []), t_read = (\<lambda>_. Inr (map b8 text)), t_repr = id\<rparr>"

lemma demo_word_chars: "word_chars demo_word"
  by (simp add: word_chars_def demo_word_def)

definition demo_line :: pystr where
  "demo_line = lit ''import os, ssl''"

lemma demo_line_read:
  "universal_newlines demo_line = demo_line" "splitlines demo_line = [demo_line]"
  "utf8_decode (map b8 demo_line) = Inr demo_line" "passed_over demo_line = False"
proof -
  show "universal_newlines demo_line = demo_line" by (rule universal_newlines_plain) (simp add: demo_line_def lit_def)
  show "splitlines demo_line = [demo_line]" by (simp add: demo_line_def splitlines_def line_break_def lit_def)
qed (code_simp, code_simp)

lemma demo_line_searches:
  "search demo_word (import_pattern ''ssl'') demo_line = None" "search demo_word (import_pattern ''paramiko'') demo_line = None"
  "search demo_word (import_pattern ''pickle'') demo_line = None" "search demo_word (import_pattern ''random'') demo_line = None"
  "search demo_word mode_pattern demo_line = None" "search demo_word sha1_pattern demo_line = None"
  by (simp_all add: search_def search_from.simps import_pattern_def import_tail_def py_space_def at_boundary_def last_of_def
     mode_pattern_def sha1_pattern_def demo_word_def demo_line_def lit_def)

lemma demo_policy:
  "fst (policy_main demo_word (demo_tree demo_line) [lit ''a.py'']) = 0"
  "iter_python_files (demo_tree t) [lit ''a.py''] = [Path Relative [lit ''a.py'']]"
proof -
  have "check_text demo_word demo_line = []"
    by (simp add: check_text_def check_line_def RULES_def demo_line_searches demo_line_read)
  then show "fst (policy_main demo_word (demo_tree demo_line) [lit ''a.py'']) = 0"
    by (simp add: policy_main_exit check_file_def demo_tree_def demo_line_read)
  have "mk_path (lit ''a.py'') = Path Relative [lit ''a.py'']" "is_py (Path Relative [lit ''a.py''])" by code_simp+
  then show "iter_python_files (demo_tree t) [lit ''a.py''] = [Path Relative [lit ''a.py'']]"
    by (simp add: iter_python_files_def files_under_def demo_tree_def)
qed

end
