(* ===== verification/Spec2Isabelle.thy ===== *)
theory Spec2Isabelle
  imports Demo
begin

text \<open>
  A verification library for the \<open>zerotrust\<close> package: file transfer through a server that is
  not trusted with plaintexts.  A certificate authority (\<open>ca/\<close>) signs JSON certificates;
  client and server shake hands (\<open>client/handshake.py\<close>, \<open>server/handshake.py\<close>); then
  requests travel as length-prefixed JSON envelopes (\<open>common/protocol.py\<close>), and the server
  (\<open>server/handler.py\<close>) keeps encrypted blobs on disk and their metadata in SQLite
  (\<open>server/store.py\<close>, \<open>server/replay.py\<close>), with a cleanup thread (\<open>server/cleanup.py\<close>).

  Theories, from the ground up.  \<open>Prelude\<close>: byte strings, texts as lists of code points,
  exceptions as a sum type, the locales \<open>codec\<close> and \<open>printer_parser\<close>.  \<open>Unicode\<close>,
  \<open>Base64\<close>, \<open>Sha256\<close>: the encodings and the hash of Python's library, computed.  \<open>Json\<close>,
  \<open>Json_Parse\<close>, \<open>Json_Roundtrip\<close>: \<open>json.dumps\<close> with its options, \<open>json.loads\<close>, and that one
  inverts the other (so canonical bytes determine a value).  \<open>Protocol\<close>: framing over a
  stream that arrives in segments, envelopes.  \<open>Crypto\<close>: \<open>crypto_primitives.py\<close>,
  \<open>key_wrap.py\<close>, \<open>file_crypto.py\<close>, \<open>transcript.py\<close>.  \<open>Cert\<close>: \<open>ca/cert.py\<close>.  \<open>Origin\<close>:
  \<open>origin.py\<close>, \<open>revoke.py\<close> and the receipt struct.  \<open>Storage\<close>: \<open>storage_layout.py\<close> with
  \<open>pathlib\<close> and \<open>uuid\<close> as far as they are used.  \<open>Store\<close>, \<open>Replay\<close>: the tables and their
  operations, and the locale \<open>nonce_cache\<close>.  \<open>Logger\<close>: \<open>logger.py\<close>.  \<open>Server\<close>: the state
  (database and disk), the world of one request, the helpers, \<open>GET_PUBKEY\<close> and
  \<open>LIST_PENDING\<close>.  \<open>Upload\<close>, \<open>Download\<close>, \<open>Receipt\<close>: the other handlers.  \<open>Handshake\<close>:
  both sides.  \<open>Serve\<close>: \<open>serve_connection\<close>.  \<open>Cleanup\<close>: the pass and its loop.
  \<open>Lifecycle\<close>: the server as a system of steps, the locale \<open>lifecycle\<close> and the provenance
  invariant.  \<open>Timed\<close>: steps with a clock and the replay guarantee.  \<open>Interleave\<close>,
  \<open>Concurrent\<close>: the handlers cut at their accesses to the shared state, and the pool of
  threads that interleaves them.  \<open>Pool_Time\<close>: the replay guarantee of that pool.  \<open>Agreement\<close>: the two
  handshakes against each other.  \<open>Client\<close>: \<open>peer.py\<close>, \<open>upload.py\<close>, \<open>download.py\<close>,
  \<open>revoke.py\<close>.  \<open>Cert_Sorted\<close>: certificates written with sorted keys and read back.
  \<open>Delivery\<close>: the client's requests against the server's handlers.  \<open>Session\<close>:
  \<open>session.py\<close>.  \<open>Shell\<close>: what a command prints and its exit code, for both command lines.
  \<open>Cli\<close>: \<open>cli.py\<close>.  \<open>Json_Pretty\<close>: \<open>json.dumps\<close> with an indent, read back.  \<open>Ca\<close>: the
  authority's commands \<open>ca/ca.py\<close>.  \<open>Webui\<close>: the front end \<open>webui/app.py\<close>, which runs the
  client as a process and parses what it prints.  \<open>Startup\<close>: the loggers, the cleanup thread's body, and
  \<open>server/main.py\<close> around its accept loop.  \<open>Legacy\<close>, \<open>Legacy_Ca\<close>: the superseded X.509 prototype under \<open>legacy/\<close>, both
  ends of its handshake and the script that makes their certificates.  \<open>Policy\<close>:
  \<open>scripts/check_forbidden_imports.py\<close> with the regular expressions of its rules; \<open>Pystr\<close>: the
  methods of \<open>str\<close> it shares with the front end.  \<open>Examples\<close>, \<open>Demo\<close>: concrete states and
  requests for the witnesses.

  State and operations.  A handler takes the state \<open>server\<close> (\<open>sdb\<close>: the three tables,
  \<open>sfs\<close>: a map from paths to contents), the session and the envelope, and returns the new
  state, its sends and log calls in program order, and the exception it raises.  Each
  handler is cut at its numbered steps (\<open>handle_upload_request\<close>, \<open>upload_fresh\<close>,
  \<open>upload_verified\<close>, \<open>upload_commit\<close>, \<open>store_upload\<close>), with every early return a branch.
  A client operation is a program over the stream of the server's replies (\<open>'a cio\<close>): its
  sends in program order and a result or an exception, where \<open>failure\<close> keeps the messages the
  commands print; only a download returns changed files as well.
  Clock readings, random bytes and the faults of disk, database and socket are arguments
  (records \<open>env\<close>, \<open>outside\<close>,
  \<open>machine\<close>, \<open>party\<close>, \<open>stamp\<close>, \<open>tick\<close>, \<open>authority\<close>, \<open>webenv\<close>).  The \<open>cryptography\<close> package is the parameter
  record \<open>crypto\<close> with the laws \<open>pss_correct\<close>, \<open>oaep_correct\<close>, \<open>gcm_correct\<close>; nothing else
  is assumed of it, and unforgeability appears only as an explicit hypothesis of the two
  properties that need it.  SQLite's constraints and binding rules are written out in
  \<open>Store\<close>.

  Lemmas.  For each handler a case rule (\<open>handle_upload_cases\<close> and so on) says: refused,
  leaving the tables alone but for the nonce, or done, with every check passed; the
  invariant \<open>db_ok\<close>, the life cycle of a file's status, the provenance of its row and the
  single reply are proved from these rules.  For the client the rules say what went on the
  wire (\<open>upload_file_sends\<close>), what a verified download is (\<open>verify_and_decrypt_iff\<close>) and what
  a session rests on (\<open>open_session_proves\<close>); \<open>Delivery\<close> joins the two sides.

  Fuel and bounds.  \<open>json_loads\<close> uses fuel twice the length of the text plus a constant,
  shown to be enough (\<open>parse_value_fuel\<close>); \<open>serve_loop\<close> takes fuel for the number of
  requests, and a quarter of the bytes that arrive is enough (each message has a four-byte
  header).  Integers of the database are 64 bits, frame lengths 32 bits, SHA-256 words 32
  bits; Python's own integers are unbounded.

  Not modelled: the set-up of sockets, threads, log formats and argument parsers (in
  \<open>server/main.py\<close>, \<open>start_cleanup_thread\<close> and the \<open>build_parser\<close>s); recursion limits and
  memory exhaustion; of the web interface Flask itself and the template; of the prototype what
  it prints; the demo drivers and the other scripts.
\<close>

section \<open>Uploads\<close>

text \<open>
  C1. An upload that is acknowledged, or that adds to the file table in any way, passed
  every check: a fresh nonce inside the time window, a certificate of the session's
  subject that the CA signed and that is valid now, a well-formed payload, the sender's
  signature over exactly the stored routing, times and digests, and a recipient with a
  valid certificate in the directory.  Its whole effect is one new pending row under an
  unused id and the blob at its path.
\<close>

theorem upload_accepted_only_if_authorised:
  assumes "handle_upload_request w s sess e = (s', acts, ex)"
    and "was_sent acts (lit ''UPLOAD_ACK'') \<or> files (sdb s') \<noteq> files (sdb s)"
  shows "\<exists>s1 u sender aad. gate_passed w e s s1 \<and> upload_authorised w s1 sess e u
    \<and> file_aad (u_file_id u) (py_str (repr_of w) (peer_subject sess)) (u_recipient u) = Inr aad
    \<and> lookup_file (sdb s) (u_file_id u) = None
    \<and> files (sdb s') = files (sdb s) @ [uploaded_row u sess sender aad]
    \<and> acks (sdb s') = acks (sdb s)
    \<and> sfs s' = (sfs s)(tmp_path_for (file_blob_path_for (cfg w) (u_file_id u)) := None,
         file_blob_path_for (cfg w) (u_file_id u) \<mapsto> u_ciphertext u)"
  using assms(1)
proof (cases rule: handle_upload_cases)
  case refused
  then show ?thesis using assms(2) by (auto simp: one_error_def was_sent_def)
next
  case (accepted s1 u)
  note same = gate_passed_same [OF accepted(1)]
  obtain sender aad where "upload_aad w u (peer_subject sess) = Inr aad" "lookup_file (sdb s1) (u_file_id u) = None"
      "sdb s' = (sdb s1)\<lparr>files := files (sdb s1) @ [uploaded_row u sess sender aad]\<rparr>"
    using accepted(3) by (rule upload_done_row)
  moreover have "sfs s' = (sfs s1)(tmp_path_for (file_blob_path_for (cfg w) (u_file_id u)) := None,
      file_blob_path_for (cfg w) (u_file_id u) \<mapsto> u_ciphertext u)"
    using accepted(3) by (auto simp: upload_done_def)
  ultimately show ?thesis
    using same accepted(1,2)
    by (intro exI [of _ s1] exI [of _ u] exI [of _ sender] exI [of _ aad])
      (simp add: upload_aad_def lookup_file_def)
qed

theorem upload_accepted_witness:
  "\<exists>s' acts u s1. handle_upload_request demo_world demo_start (demo_session alice 65) demo_upload = (s', acts, None)
     \<and> upload_authorised demo_world s1 (demo_session alice 65) demo_upload u"
proof -
  obtain s' acts where h: "handle_upload_request demo_world demo_start (demo_session alice 65) demo_upload = (s', acts, None)"
      "was_sent acts (lit ''UPLOAD_ACK'')"
    using demo_upload_sends by blast
  with upload_accepted_only_if_authorised [OF h(1)] show ?thesis by blast
qed

section \<open>Provenance and life of the stored files\<close>

text \<open>
  C2. Whatever requests, sessions and cleanup passes the server goes through from an empty
  file table, every row it holds was signed by its sender: the row names a certificate
  that the CA signed, whose subject is the row's sender, and the stored signature verifies
  under that certificate's key over the row's recipient, file id, ciphertext digest,
  wrapped-key digest and times.
\<close>

theorem row_provenance:
  assumes "(sys_step C ca)\<^sup>*\<^sup>* s0 s" "files (sdb s0) = []" "r \<in> set (files (sdb s))"
  shows "row_signed C ca r"
proof -
  have "all_signed C ca s"
    using assms(1)
  proof (induction rule: rtranclp_induct)
    case base
    show ?case using assms(2) by (simp add: all_signed_def)
  next
    case (step y z)
    from step.hyps(2) step.IH show ?case by (rule sys_step_signed)
  qed
  with assms(3) show ?thesis by (simp add: all_signed_def)
qed

theorem row_provenance_witness: "\<exists>r. file_id r = demo_file \<and> row_signed plain_crypto [b8 67] r"
proof -
  obtain s' r where "(sys_step plain_crypto [b8 67])\<^sup>*\<^sup>* demo_start s'" "r \<in> set (files (sdb s'))" "file_id r = demo_file"
    using demo_upload_step by blast
  with row_provenance [of plain_crypto "[b8 67]" demo_start s' r] show ?thesis
    by (auto simp: demo_start_def empty_db_def)
qed

text \<open>
  C3. A blob leaves the server only in the answer to its recipient: the one answer
  \<open>DOWNLOAD_RESPONSE\<close> carries the row and the blob that the request names, the row is
  pending and unexpired at the moment of the check, its recipient is the subject the
  handshake proved, and the request was fresh.
\<close>

theorem download_only_to_recipient:
  assumes "handle_download_request w s sess e = (s', acts, ex)"
    and "was_sent acts (lit ''DOWNLOAD_RESPONSE'')"
  shows "\<exists>f row ct. gate_passed w e s s' \<and> map_of (e_payload e) (lit ''file_id'') = Some f
    \<and> get_file (real_text w) (sdb s) f = Inr (Some row)
    \<and> peer_subject sess = JStr (recipient_id row)
    \<and> status row = lit ''pending'' \<and> t_auth w < expiration row
    \<and> sfs s (file_blob_path_for (cfg w) (py_str (repr_of w) f)) = Some ct
    \<and> sends acts = [(lit ''DOWNLOAD_RESPONSE'', download_payload f row ct)]"
  using assms(1)
proof (cases rule: handle_download_cases)
  case (refused s1)
  then show ?thesis using assms(2) by (auto simp: one_error_def was_sent_def)
next
  case (answered f row ct)
  then show ?thesis by (auto simp: served_def may_download_def)
qed

theorem download_witness:
  "\<exists>row :: frow. peer_subject (demo_session bob 66) = JStr (recipient_id row) \<and> status row = lit ''pending''"
proof -
  obtain acts where h: "handle_download_request demo_world (demo_stored (lit ''pending'')) (demo_session bob 66) demo_download =
      (gated (demo_stored (lit ''pending'')), acts, None)"
      "was_sent acts (lit ''DOWNLOAD_RESPONSE'')"
    using demo_download_served by (auto simp: was_sent_def)
  from download_only_to_recipient [OF h] show ?thesis by blast
qed

text \<open>
  C4. The status of every file moves as the life cycle says, in every reachable state and
  for every step of the server: it appears as pending, a pending file expires or is
  revoked, an acknowledged file is downloaded, and nothing else happens to it.  Through any
  further requests and cleanup passes, a file that has left the pending state never becomes
  pending again, and one that is downloaded stays downloaded.
\<close>

theorem status_refines_life:
  assumes "(sys_step C ca)\<^sup>*\<^sup>* s0 s" "db_ok (sdb s0)" "(sys_step C ca)\<^sup>*\<^sup>* s s'"
  shows "(sys_step C ca s s' \<longrightarrow> life (abs_status s f) (abs_status s' f))
    \<and> (\<forall>st. abs_status s f = Some st \<and> st \<noteq> lit ''pending'' \<longrightarrow>
          abs_status s' f \<noteq> None \<and> abs_status s' f \<noteq> Some (lit ''pending'')
          \<and> (st = lit ''downloaded'' \<longrightarrow> abs_status s' f = Some (lit ''downloaded'')))"
proof (intro conjI impI allI)
  have ok: "db_ok (sdb s)" using files.reach_inv [OF assms(1,2)] .
  show "life (abs_status s f) (abs_status s' f)" if "sys_step C ca s s'"
    using files.step_move [OF ok that] .
  fix st assume st: "abs_status s f = Some st \<and> st \<noteq> lit ''pending''"
  show "abs_status s' f \<noteq> None" using files.present_for_good [OF assms(3) ok] st by auto
  show "abs_status s' f \<noteq> Some (lit ''pending'')"
    using files.never_pending_again [OF assms(3) ok] st by blast
  show "abs_status s' f = Some (lit ''downloaded'')" if "st = lit ''downloaded''"
    using files.downloaded_for_good [OF assms(3) ok] st that by auto
qed

theorem status_refines_life_witness:
  "(\<exists>s'. life (abs_status demo_start demo_file) (abs_status s' demo_file)
      \<and> abs_status s' demo_file = Some (lit ''pending''))
   \<and> (\<exists>s'. sys_step plain_crypto [b8 67] (demo_stored (lit ''downloaded'')) s'
      \<and> abs_status s' demo_file = Some (lit ''downloaded''))"
proof
  obtain s' acts where h: "handle_upload_request demo_world demo_start (demo_session alice 65) demo_upload = (s', acts, None)"
      "upload_done demo_world (demo_session alice 65) demo_fields (gated demo_start) s'"
    using demo_upload_sends by blast
  have "dispatch demo_world demo_start (demo_session alice 65) [] demo_upload = (s', acts, None)"
    using h(1) by (simp add: dispatch_def demo_upload_def demo_envelope_def)
  then have st: "sys_step plain_crypto [b8 67] demo_start s'" by (rule demo_request_step)
  then have l: "life (abs_status demo_start demo_file) (abs_status s' demo_file)"
    using status_refines_life [OF rtranclp.rtrancl_refl _ r_into_rtranclp [of "sys_step plain_crypto [b8 67]", OF st], of demo_file]
    by (simp add: demo_start_def)
  have "abs_status s' demo_file \<noteq> None"
    using h(2) by (auto simp: abs_status_def lookup_file_def demo_start_def empty_db_def gated_def
        uploaded_row_def row_of_def upload_values_def demo_fields_def elim!: upload_done_row)
  with l show "\<exists>s'. life (abs_status demo_start demo_file) (abs_status s' demo_file)
      \<and> abs_status s' demo_file = Some (lit ''pending'')"
    by (auto simp: abs_status_def demo_start_def lookup_file_def empty_db_def)
next
  obtain s' acts ex where "dispatch demo_world (demo_stored (lit ''downloaded'')) (demo_session alice 65) [] demo_upload = (s', acts, ex)"
    by (metis prod_cases3)
  then have st: "sys_step plain_crypto [b8 67] (demo_stored (lit ''downloaded'')) s'" by (rule demo_request_step)
  have "db_ok (sdb (demo_stored (lit ''downloaded'')))" by (rule demo_stored_ok) (simp add: STATUSES_def)
  moreover have "abs_status (demo_stored (lit ''downloaded'')) demo_file = Some (lit ''downloaded'')"
    by (simp add: abs_status_def demo_row_def)
  ultimately have "abs_status s' demo_file = Some (lit ''downloaded'')"
    using status_refines_life [OF rtranclp.rtrancl_refl _ r_into_rtranclp [of "sys_step plain_crypto [b8 67]", OF st], of demo_file]
    by (auto simp: lit_def)
  with st show "\<exists>s'. sys_step plain_crypto [b8 67] (demo_stored (lit ''downloaded'')) s'
      \<and> abs_status s' demo_file = Some (lit ''downloaded'')" by blast
qed

section \<open>Revocation and acknowledgement\<close>

text \<open>
  C5. A revocation is acknowledged, or changes a row, only when the row's sender asked for
  it with a valid certificate and a signature over the revocation struct; then a pending
  row becomes revoked, an already revoked one stays as it is, and no other row, no blob
  and no acknowledgement is touched.
\<close>

theorem revoke_only_by_owner:
  assumes "handle_revoke_request w s sess e = (s', acts, ex)"
    and "was_sent acts (lit ''REVOKE_ACK'') \<or> files (sdb s') \<noteq> files (sdb s)"
  shows "\<exists>s1 q row. gate_passed w e s s1 \<and> revoke_authorised w s1 sess e q row
    \<and> sends acts = [revoke_reply q]
    \<and> (status row = lit ''revoked'' \<and> s' = s1
       \<or> status row = lit ''pending'' \<and> s' = s1\<lparr>sdb := set_status (r_file_id q) (lit ''revoked'') (sdb s1)\<rparr>)"
  using assms(1)
proof (cases rule: handle_revoke_cases)
  case refused
  then show ?thesis using assms(2) by (auto simp: one_error_def was_sent_def)
qed blast+

theorem revoke_witness:
  "\<exists>s1 q row. revoke_authorised demo_world s1 (demo_session alice 65) demo_revoke q row"
proof -
  obtain s' acts where h: "handle_revoke_request demo_world (demo_stored (lit ''pending'')) (demo_session alice 65) demo_revoke = (s', acts, None)"
      "was_sent acts (lit ''REVOKE_ACK'')"
    using demo_revoke_done by blast
  with revoke_only_by_owner [OF h(1)] show ?thesis by blast
qed

text \<open>
  C6. A download is acknowledged, or a row or a receipt changes, only when the row's
  recipient sent a receipt with a valid certificate and a signature over the receipt
  struct.  When it is acknowledged, the row is downloaded and the receipt recorded.
\<close>

theorem ack_only_by_recipient:
  assumes "handle_download_ack w s sess e = (s', acts, ex)"
    and "was_sent acts (lit ''ACK_OK'') \<or> files (sdb s') \<noteq> files (sdb s) \<or> acks (sdb s') \<noteq> acks (sdb s)"
  shows "\<exists>s1 q row. gate_passed w e s s1 \<and> ack_authorised w s1 sess e q row
    \<and> (acked w q s1 s' \<and> sends acts = [(lit ''ACK_OK'', [(lit ''file_id'', JStr (r_file_id q))])]
       \<or> half_acked w q s1 s' \<and> \<not> was_sent acts (lit ''ACK_OK''))"
  using assms(1)
proof (cases rule: handle_ack_cases)
  case refused
  then show ?thesis using assms(2) by (auto simp: one_error_def was_sent_def)
next
  case (half s1 q row)
  then have "\<not> was_sent acts (lit ''ACK_OK'')" by (auto simp: one_error_def was_sent_def)
  with half show ?thesis by blast
qed blast

theorem ack_witness:
  "\<exists>s1 q row. ack_authorised demo_world s1 (demo_session bob 66) demo_ack q row"
proof -
  obtain s' acts where h: "handle_download_ack demo_world (demo_stored (lit ''pending'')) (demo_session bob 66) demo_ack = (s', acts, None)"
      "was_sent acts (lit ''ACK_OK'')"
    using demo_ack_done by blast
  with ack_only_by_recipient [OF h(1)] show ?thesis by blast
qed

text \<open>
  C7. The receipt of the recipient marks the row downloaded whatever status it had: a
  revoked or an expired file, which could not have been fetched any more, is reported as
  downloaded.
\<close>

theorem ack_overrides_any_status:
  assumes "gate_passed w e s s1" "ack_authorised w s1 sess e q row"
    and "get_fault w = None" "ack_fault w = None" "mark_fault w = None"
    and "int64 (the (as_int (r_timestamp q)))"
  shows "\<exists>s' acts. handle_download_ack w s sess e = (s', acts, None)
    \<and> sends acts = [(lit ''ACK_OK'', [(lit ''file_id'', JStr (r_file_id q))])]
    \<and> abs_status s (r_file_id q) = Some (status row)
    \<and> abs_status s' (r_file_id q) = Some (lit ''downloaded'')"
proof -
  obtain s' acts where h: "handle_download_ack w s sess e = (s', acts, None)" "acked w q s1 s'"
      "sends acts = [(lit ''ACK_OK'', [(lit ''file_id'', JStr (r_file_id q))])]"
    using handle_ack_accepts [OF assms] by blast
  have l: "lookup_file (sdb s1) (r_file_id q) = Some row" using assms(2) by (simp add: ack_authorised_def)
  obtain db1 where d: "record_ack w q (sdb s1) = Inr db1" "sdb s' = set_status (r_file_id q) (lit ''downloaded'') db1"
    using h(2) by (auto simp: acked_def)
  have l1: "lookup_file db1 (r_file_id q) = Some row"
    using l record_ack_files [OF d(1)] by (simp add: lookup_file_def)
  from l have "abs_status s (r_file_id q) = Some (status row)"
    using gate_passed_same [OF assms(1)] by (simp add: abs_status_def lookup_file_def)
  moreover have "abs_status s' (r_file_id q) = Some (lit ''downloaded'')"
    by (simp add: abs_status_def d(2) lookup_set_status l1)
  ultimately show ?thesis using h by blast
qed

theorem ack_overrides_revoked:
  "\<exists>s' acts. handle_download_ack demo_world (demo_stored (lit ''revoked'')) (demo_session bob 66) demo_ack = (s', acts, None)
     \<and> abs_status (demo_stored (lit ''revoked'')) demo_file = Some (lit ''revoked'')
     \<and> abs_status s' demo_file = Some (lit ''downloaded'')"
  using ack_overrides_any_status [OF demo_gate_stored [where st = "lit ''revoked''"]
      demo_ack_authorised [where st = "lit ''revoked''"], of "lit ''DOWNLOAD_ACK''"]
  by (auto simp: demo_ack_def demo_row_def int64_def demo_ack_request_def)

section \<open>Threads inside each other\<close>


text \<open>
  C9. Interleaving does not damage the tables.  From an intact database, whatever threads
  arrive, and in whatever order their accesses and the two transactions of the cleanup
  follow each other: the database stays intact, every row was signed by its sender under a
  certificate of the CA, and between any two moments a row keeps everything but its status
  and does not become pending again.
\<close>

theorem interleaving_keeps_tables:
  assumes "(pool_step C ca)\<^sup>*\<^sup>* (alone s0) p" "(pool_step C ca)\<^sup>*\<^sup>* p p'"
    and "db_ok (sdb s0)" "\<forall>r \<in> set (files (sdb s0)). row_signed C ca r"
  shows "db_ok (sdb (shared p')) \<and> (\<forall>r \<in> set (files (sdb (shared p'))). row_signed C ca r)
    \<and> (\<forall>f row. lookup_file (sdb (shared p)) f = Some row \<longrightarrow>
        (\<exists>st. lookup_file (sdb (shared p')) f = Some (row\<lparr>status := st\<rparr>)
          \<and> (status row \<noteq> lit ''pending'' \<longrightarrow> st \<noteq> lit ''pending'')))"
proof (intro conjI allI impI)
  have "pool_ok C ca (alone s0)" using assms(3) by (simp add: pool_ok_def)
  note r1 = pool_reach [OF assms(1) this]
  then have ok: "pool_ok C ca p" by simp
  note r2 = pool_reach [OF assms(2) ok]
  show "db_ok (sdb (shared p'))" using r2 by (simp add: pool_ok_def)
  show "\<forall>r \<in> set (files (sdb (shared p'))). row_signed C ca r"
    using r1 r2 assms(4) by (simp add: all_signed_def)
  fix f row
  assume row: "lookup_file (sdb (shared p)) f = Some row"
  then obtain st where st: "lookup_file (sdb (shared p')) f = Some (row\<lparr>status := st\<rparr>)"
    using r2 by (auto simp: keeps_rows_def)
  have "st \<noteq> lit ''pending''" if "status row \<noteq> lit ''pending''"
  proof -
    have "pool_status p' f \<noteq> None \<and> pool_status p' f \<noteq> Some (lit ''pending'')"
      using assms(2) ok _ drift_final
    proof (rule pools.reach_keeps)
      show "pool_status p f \<noteq> None \<and> pool_status p f \<noteq> Some (lit ''pending'')"
        using row that by (simp add: pool_status_def abs_status_def)
    qed
    with st show ?thesis by (simp add: pool_status_def abs_status_def)
  qed
  with st show "\<exists>st. lookup_file (sdb (shared p')) f = Some (row\<lparr>status := st\<rparr>)
      \<and> (status row \<noteq> lit ''pending'' \<longrightarrow> st \<noteq> lit ''pending'')"
    by blast
qed

theorem interleaving_keeps_tables_witness:
  "\<exists>p r. (pool_step plain_crypto [b8 67])\<^sup>*\<^sup>* (alone demo_start) p \<and> r \<in> set (files (sdb (shared p)))
     \<and> file_id r = demo_file \<and> row_signed plain_crypto [b8 67] r"
proof -
  obtain p r where p: "(pool_step plain_crypto [b8 67])\<^sup>*\<^sup>* (alone demo_start) p" "lookup_file (sdb (shared p)) demo_file = Some r"
    by (rule demo_pool_upload)
  have "db_ok (sdb demo_start)" "files (sdb demo_start) = []" by (simp_all add: demo_start_def empty_db_def db_ok_def)
  with interleaving_keeps_tables [OF p(1) rtranclp.rtrancl_refl] lookup_file_SomeD [OF p(2)] p(1)
  show ?thesis by (intro exI [of _ p] exI [of _ r]) auto
qed



text \<open>
  C11. The check and the update of a revocation are two accesses, and the update does not
  look at the status again: when the recipient's receipt is accepted in between, the file
  is downloaded and then revoked, the sender is told that the revocation succeeded, and the
  receipt stays in the table.
\<close>

theorem revocation_overtakes_receipt:
  fixes T1 T2 :: thread
  assumes "gate_passed (th_env T1) (th_msg T1) s0 s1" "e_type (th_msg T1) = lit ''REVOKE_REQUEST''"
    and "revoke_authorised (th_env T1) s1 (th_sess T1) (th_msg T1) q row" "status row = lit ''pending''"
    and "get_fault (th_env T1) = None" "mark_fault (th_env T1) = None"
    and "dispatch (th_env T2) s1 (th_sess T2) (th_peer T2) (th_msg T2) = (s2, acts2, ex2)"
    and "abs_status s2 (r_file_id q) = Some (lit ''downloaded'')"
    and "lib (th_env T1) = C" "ca_pubkey (th_env T1) = ca" "lib (th_env T2) = C" "ca_pubkey (th_env T2) = ca"
  shows "\<exists>p p' acts1. (pool_step C ca)\<^sup>*\<^sup>* (alone s0) p \<and> pool_step C ca p p'
    \<and> pool_status p (r_file_id q) = Some (lit ''downloaded'')
    \<and> pool_status p' (r_file_id q) = Some (lit ''revoked'')
    \<and> map th_job (threads p') = [Inl (acts1, None), Inl (acts2, ex2)] \<and> sends acts1 = [revoke_reply q]
    \<and> acks (sdb (shared p')) = acks (sdb s2)"
proof -
  have r: "revoke_ready (th_env T1) (th_sess T1) (th_msg T1) s1 = Some q"
    using assms(3-5) by (auto simp: revoke_ready_iff)
  have "wf_str (r_file_id q)" using assms(3) parse_signed_wf by (auto simp: revoke_authorised_def)
  with assms(6) obtain acts1 where m: "revoke_mark (th_env T1) (th_sess T1) (th_msg T1) q s2 =
      (s2\<lparr>sdb := set_status (r_file_id q) (lit ''revoked'') (sdb s2)\<rparr>, acts1, None)" "sends acts1 = [revoke_reply q]"
    by (rule revoke_mark_done)
  note run = overtaken_revocation [OF assms(1,2) r assms(7) m(1) assms(9-12)]
  let ?q = "\<lparr>shared = s2, threads = [T1\<lparr>th_job := Inr (Revoking q)\<rparr>, T2\<lparr>th_job := Inl (acts2, ex2)\<rparr>]\<rparr>"
  let ?q' = "\<lparr>shared = s2\<lparr>sdb := set_status (r_file_id q) (lit ''revoked'') (sdb s2)\<rparr>,
      threads = [T1\<lparr>th_job := Inl (acts1, None)\<rparr>, T2\<lparr>th_job := Inl (acts2, ex2)\<rparr>]\<rparr>"
  have "pool_status ?q (r_file_id q) = Some (lit ''downloaded'')" "pool_status ?q' (r_file_id q) = Some (lit ''revoked'')"
    using assms(8) by (auto simp: pool_status_def abs_status_def lookup_set_status)
  with run m(2) show ?thesis
    by (intro exI [of _ ?q] exI [of _ ?q'] exI [of _ acts1]) (simp add: set_status_def)
qed

theorem revocation_overtakes_receipt_witness:
  "\<exists>p p'. (pool_step plain_crypto [b8 67])\<^sup>*\<^sup>* (alone (demo_stored (lit ''pending''))) p \<and> pool_step plain_crypto [b8 67] p p'
    \<and> pool_status p demo_file = Some (lit ''downloaded'') \<and> pool_status p' demo_file = Some (lit ''revoked'')"
proof -
  obtain s2 acts2 where d: "dispatch (th_env demo_receiver) (gated (demo_stored (lit ''pending''))) (th_sess demo_receiver)
      (th_peer demo_receiver) (th_msg demo_receiver) = (s2, acts2, None)"
      "abs_status s2 demo_file = Some (lit ''downloaded'')"
    using demo_receipt_runs by (auto simp: demo_receiver_def)
  have f: "r_file_id demo_revoke_request = demo_file" by (simp add: demo_revoke_request_def)
  have p: "status (demo_row (lit ''pending'')) = lit ''pending''" by (simp add: demo_row_def)
  from revocation_overtakes_receipt [OF demo_revoker_ready(1) _ demo_revoker_ready(2) p _ _ d(1),
      where C = plain_crypto and ca = "[b8 67]"] d(2)
  show ?thesis unfolding f by auto
qed


section \<open>The handshake\<close>

text \<open>
  C13. When the server's handshake ends with a session, the peer has proved itself: its
  certificate verifies under the CA at this moment, the session's subject is the
  certificate's, and a signature of the certified key verifies over a transcript that
  contains the nonce the server drew for this run; the session keys come from the
  pre-master that the server decrypted from that very transcript.
\<close>

theorem server_handshake_authenticates:
  assumes "snd (perform_server_handshake h s) = Inr (sess, s')"
  shows "\<exists>cert pem k nonce_c ct pm sig. peer_cert sess = JObj cert
    \<and> peer_subject sess = jget cert (lit ''subject'')
    \<and> verify_certificate (hs_lib h) (hs_now h) (JObj cert) (hs_ca h) None = Inr True
    \<and> cert_pem cert = Inr pem \<and> load_pem_public_key (hs_lib h) pem = RsaKey k
    \<and> length nonce_c = 16
    \<and> transcript_hash sess = sha256 (nonce_c @ own_nonce h @ ct)
    \<and> pss_verify (hs_lib h) k sig (transcript_hash sess)
    \<and> rsa_oaep_decrypt (hs_lib h) (own_priv h) (own_password h) ct = Inr pm \<and> length pm = 32
    \<and> c2s_key sess @ s2c_key sess = hkdf_sha256 (hs_lib h) pm (nonce_c @ own_nonce h) HKDF_INFO 64"
proof -
  obtain nonce_c cert pem s1 pm transcript s2 where
      a: "snd (server_hello h s) = Inr (nonce_c, cert, pem, s1)"
      and b: "snd (server_key_exchange h nonce_c s1) = Inr (pm, transcript, s2)"
      and c: "snd (server_auth h nonce_c cert pem pm transcript s2) = Inr (sess, s')"
    using assms by (auto simp: perform_server_handshake_def snd_hbind_Inr)
  from b obtain ct where t: "rsa_oaep_decrypt (hs_lib h) (own_priv h) (own_password h) ct = Inr pm"
      "length pm = 32" "transcript = sha256 (nonce_c @ own_nonce h @ ct)"
    by (auto simp: server_key_exchange_Inr build_transcript_hash_Inr PRE_MASTER_BYTES_def)
  from c obtain sig where g: "rsa_verify (hs_lib h) pem transcript sig = Inr True"
      and sess: "sess = session_of (jget cert (lit ''subject'')) (JObj cert)
        (hkdf_sha256 (hs_lib h) pm (nonce_c @ own_nonce h) HKDF_INFO 64) transcript"
    by (auto simp: server_auth_Inr)
  from g obtain k where k: "load_pem_public_key (hs_lib h) pem = RsaKey k" "pss_verify (hs_lib h) k sig transcript"
    by (auto simp: rsa_verify_Inr_iff)
  from a have v: "verify_certificate (hs_lib h) (hs_now h) (JObj cert) (hs_ca h) None = Inr True"
      "cert_pem cert = Inr pem" "length nonce_c = 16"
    by (simp_all add: server_hello_Inr NONCE_BYTES_def) blast+
  show ?thesis
    using v t k unfolding sess session_of_def
    by (intro exI [of _ cert] exI [of _ pem] exI [of _ k] exI [of _ nonce_c] exI [of _ ct] exI [of _ pm] exI [of _ sig])
      simp
qed

theorem server_handshake_witness: "\<exists>cert. ca_signed plain_crypto [b8 67] cert \<and> jget cert (lit ''subject'') = JStr alice"
proof -
  obtain sock sess s' where r: "snd (perform_server_handshake demo_server sock) = Inr (sess, s')"
      and c: "peer_cert sess = JObj (demo_cert alice 65)"
    using demo_server_run by (auto simp: session_of_def)
  from server_handshake_authenticates [OF r] c
  have "verify_certificate plain_crypto 1000 (JObj (demo_cert alice 65)) [b8 67] None = Inr True" by auto
  then have "ca_signed plain_crypto [b8 67] (demo_cert alice 65)" by (simp add: verify_certificate_iff)
  then show ?thesis by (intro exI [of _ "demo_cert alice 65"]) (simp add: demo_cert_def unsigned_cert_def jget_def)
qed

text \<open>
  C14. The same for the client.  It sends its encrypted pre-master only to a server whose
  certificate verified for the expected name; and a session means in addition that the
  certified key signed a transcript with the client's own nonce and the pre-master the client
  encrypted to that key.
\<close>

theorem client_handshake_authenticates:
  assumes "perform_client_handshake h expected s = (sent, r)"
  shows "(was_sent sent (lit ''KEY_EXCHANGE'') \<longrightarrow>
      (\<exists>e s1 cert. recv_envelope s = Inr (e, s1) \<and> e_type e = lit ''HELLO''
        \<and> map_of (e_payload e) (lit ''cert'') = Some (JObj cert)
        \<and> verify_certificate (hs_lib h) (hs_now h) (JObj cert) (hs_ca h) expected = Inr True))
    \<and> (\<forall>sess s'. r = Inr (sess, s') \<longrightarrow>
      (\<exists>cert pem k nonce_s ct sig. peer_cert sess = JObj cert
        \<and> peer_subject sess = jget cert (lit ''subject'')
        \<and> verify_certificate (hs_lib h) (hs_now h) (JObj cert) (hs_ca h) expected = Inr True
        \<and> cert_pem cert = Inr pem \<and> load_pem_public_key (hs_lib h) pem = RsaKey k
        \<and> length nonce_s = 16
        \<and> rsa_oaep_encrypt (hs_lib h) (oaep_seed h) pem (pre_master_rand h) = Inr ct
        \<and> transcript_hash sess = sha256 (own_nonce h @ nonce_s @ ct)
        \<and> pss_verify (hs_lib h) k sig (transcript_hash sess)
        \<and> c2s_key sess @ s2c_key sess =
            hkdf_sha256 (hs_lib h) (pre_master_rand h) (own_nonce h @ nonce_s) HKDF_INFO 64))"
proof (intro conjI allI impI)
  assume "was_sent sent (lit ''KEY_EXCHANGE'')"
  then have k: "was_sent (fst (perform_client_handshake h expected s)) (lit ''KEY_EXCHANGE'')" using assms by simp
  show "\<exists>e s1 cert. recv_envelope s = Inr (e, s1) \<and> e_type e = lit ''HELLO''
      \<and> map_of (e_payload e) (lit ''cert'') = Some (JObj cert)
      \<and> verify_certificate (hs_lib h) (hs_now h) (JObj cert) (hs_ca h) expected = Inr True"
    using key_exchange_needs_cert [OF k] by (auto simp: client_hello_Inr)
next
  fix sess s'
  assume "r = Inr (sess, s')"
  then have r: "snd (perform_client_handshake h expected s) = Inr (sess, s')" using assms by simp
  obtain nonce_s cert pem s1 transcript where
      a: "snd (client_hello h expected s) = Inr (nonce_s, cert, pem, s1)"
      and b: "snd (client_key_exchange h nonce_s pem) = Inr transcript"
      and c: "snd (client_finish h nonce_s cert pem transcript s1) = Inr (sess, s')"
    using r by (auto simp: perform_client_handshake_def snd_hbind_Inr)
  from b obtain ct where t: "rsa_oaep_encrypt (hs_lib h) (oaep_seed h) pem (pre_master_rand h) = Inr ct"
      "transcript = sha256 (own_nonce h @ nonce_s @ ct)"
    by (auto simp: client_key_exchange_Inr build_transcript_hash_Inr)
  from c obtain sig where g: "rsa_verify (hs_lib h) pem transcript sig = Inr True"
      and sess: "sess = session_of (jget cert (lit ''subject'')) (JObj cert)
        (hkdf_sha256 (hs_lib h) (pre_master_rand h) (own_nonce h @ nonce_s) HKDF_INFO 64) transcript"
    by (auto simp: client_finish_Inr)
  from g obtain k where k: "load_pem_public_key (hs_lib h) pem = RsaKey k" "pss_verify (hs_lib h) k sig transcript"
    by (auto simp: rsa_verify_Inr_iff)
  from a have v: "verify_certificate (hs_lib h) (hs_now h) (JObj cert) (hs_ca h) expected = Inr True"
      "cert_pem cert = Inr pem" "length nonce_s = 16"
    by (simp_all add: client_hello_Inr NONCE_BYTES_def) blast+
  show "\<exists>cert pem k nonce_s ct sig. peer_cert sess = JObj cert
        \<and> peer_subject sess = jget cert (lit ''subject'')
        \<and> verify_certificate (hs_lib h) (hs_now h) (JObj cert) (hs_ca h) expected = Inr True
        \<and> cert_pem cert = Inr pem \<and> load_pem_public_key (hs_lib h) pem = RsaKey k
        \<and> length nonce_s = 16
        \<and> rsa_oaep_encrypt (hs_lib h) (oaep_seed h) pem (pre_master_rand h) = Inr ct
        \<and> transcript_hash sess = sha256 (own_nonce h @ nonce_s @ ct)
        \<and> pss_verify (hs_lib h) k sig (transcript_hash sess)
        \<and> c2s_key sess @ s2c_key sess =
            hkdf_sha256 (hs_lib h) (pre_master_rand h) (own_nonce h @ nonce_s) HKDF_INFO 64"
    using v t k unfolding sess session_of_def
    by (intro exI [of _ cert] exI [of _ pem] exI [of _ k] exI [of _ nonce_s] exI [of _ ct] exI [of _ sig])
      simp
qed

theorem client_handshake_witness:
  "\<exists>cert sock. ca_signed plain_crypto [b8 67] cert \<and> jget cert (lit ''subject'') = JStr bob
     \<and> (\<exists>e s1. recv_envelope sock = Inr (e, s1) \<and> e_type e = lit ''HELLO'')"
proof -
  obtain sock sess s' where r: "snd (perform_client_handshake demo_client (Some (JStr bob)) sock) = Inr (sess, s')"
      and c: "peer_cert sess = JObj (demo_cert bob 66)"
    using demo_client_run by (auto simp: session_of_def)
  obtain sent where h: "perform_client_handshake demo_client (Some (JStr bob)) sock = (sent, Inr (sess, s'))"
    using r by (metis prod.collapse)
  note auth = client_handshake_authenticates [OF h]
  have "was_sent sent (lit ''KEY_EXCHANGE'')" using completed_sends_key_exchange [OF r] h by simp
  with auth [THEN conjunct1] have e: "\<exists>e s1. recv_envelope sock = Inr (e, s1) \<and> e_type e = lit ''HELLO''" by blast
  have "verify_certificate plain_crypto 1000 (JObj (demo_cert bob 66)) [b8 67] (Some (JStr bob)) = Inr True"
    using auth [THEN conjunct2] c by auto
  then have "ca_signed plain_crypto [b8 67] (demo_cert bob 66)" by (simp add: verify_certificate_iff)
  with e show ?thesis
    by (intro exI [of _ "demo_cert bob 66"] exI [of _ sock]) (simp add: demo_cert_def unsigned_cert_def jget_def)
qed



section \<open>Requests in sequence\<close>



text \<open>
  C17. An upload under a file id that is taken, by whoever it was taken, replaces the stored
  blob before the insertion of the row fails: the row and its signed digest stay, the
  ciphertext they belong to is gone, and the exception leaves the handler without a reply.
\<close>

theorem duplicate_upload_replaces_blob:
  assumes "gate_passed w e s s1" "upload_authorised w s1 sess e u"
    and "lookup_file (sdb s1) (u_file_id u) = Some r"
    and "disk w = DiskOk" "insert_fault w = None"
    and "peer_subject sess = JStr name" "wf_str name" "wf_json (peer_cert sess)"
    and "int64 (the (as_int (u_timestamp u)))" "int64 (the (as_int (u_expiration u)))"
  shows "\<exists>s'. handle_upload_request w s sess e = (s', [], Some IntegrityError)
    \<and> lookup_file (sdb s') (u_file_id u) = Some r
    \<and> sfs s' (file_blob_path_for (cfg w) (u_file_id u)) = Some (u_ciphertext u)"
  unfolding handle_upload_taken [OF assms] using assms(3) by simp

theorem duplicate_upload_witness:
  "\<exists>s s'. sfs s (file_blob_path_for demo_layout demo_file) = Some [9]
     \<and> lookup_file (sdb s) demo_file = Some (demo_row (lit ''pending''))
     \<and> handle_upload_request demo_world s (demo_session alice 65) demo_upload = (s', [], Some IntegrityError)
     \<and> sfs s' (file_blob_path_for demo_layout demo_file) = Some [1, 2, 3]"
proof -
  let ?s = "(demo_stored (lit ''pending''))\<lparr>sfs := demo_fs(file_blob_path_for demo_layout demo_file \<mapsto> [9])\<rparr>"
  have g: "gate_passed demo_world demo_upload ?s (gated ?s)"
    unfolding demo_upload_def by (rule demo_gate) (simp add: demo_stored_def)
  have a: "upload_authorised demo_world (gated ?s) (demo_session alice 65) demo_upload demo_fields"
    by (rule demo_authorised) (simp add: gated_def demo_path_differs)
  have l: "lookup_file (sdb (gated ?s)) (u_file_id demo_fields) = Some (demo_row (lit ''pending''))"
    by (simp add: demo_fields_def gated_def demo_stored_def demo_row_def lookup_file_def)
  have w: "peer_subject (demo_session alice 65) = JStr alice" "wf_json (peer_cert (demo_session alice 65))"
    using demo_cert_wf [of alice 65] by (simp_all add: demo_session_def)
  have i: "int64 (the (as_int (u_timestamp demo_fields)))" "int64 (the (as_int (u_expiration demo_fields)))"
    by (simp_all add: demo_fields_def int64_def)
  obtain s' where "handle_upload_request demo_world ?s (demo_session alice 65) demo_upload = (s', [], Some IntegrityError)"
      "sfs s' (file_blob_path_for demo_layout demo_file) = Some [1, 2, 3]"
    using duplicate_upload_replaces_blob [OF g a l demo_world_faults(5,4) w(1) _ w(2) i]
    by (auto simp: demo_fields_def)
  then show ?thesis by (intro exI [of _ ?s] exI [of _ s']) (simp add: demo_stored_def demo_row_def lookup_file_def)
qed

section \<open>Client and server together\<close>

text \<open>
  C18. What the client's upload puts on the wire, the server accepts: the sender's own
  signature over the package verifies, and with a fresh nonce, a known recipient, a free
  file id and a working disk and database the file is stored as pending.
\<close>

theorem client_upload_accepted:
  assumes "(lit ''UPLOAD_REQUEST'', payload) \<in> set (sends (fst (upload_file a la fs r file_path secs sock)))"
    and "l_username la = Some sender" "l_priv la = Some priv" "l_password la = Some pw" "wf_str sender"
    and "pss_correct C" "o_lib a = C" "lib w = C" "key_pair C cert priv pw" "wf_json (JObj cert)"
    and "gate_passed w e s s1" "e_payload e = payload" "sender_known w s1 sess sender cert r"
    and "disk w = DiskOk" "insert_fault w = None" "o_uuid a < 2 ^ 128"
    and "lookup_file (sdb s1) (uuid_str (o_uuid a)) = None" "int64 (o_time a)" "int64 (o_time a + secs)"
  shows "\<exists>s' acts. handle_upload_request w s sess e = (s', acts, None) \<and> was_sent acts (lit ''UPLOAD_ACK'')
    \<and> abs_status s' (uuid_str (o_uuid a)) = Some (lit ''pending'')"
proof -
  obtain m cert_r where "build_package a priv pw sender r cert_r m secs = Inr payload"
    using assms(1-4) by (rule upload_sends_package)
  from package_authorised [OF this assms(6-9,16,13,12)] obtain u where
      u: "upload_authorised w s1 sess e u" "u_file_id u = uuid_str (o_uuid a)" "u_timestamp u = JInt (o_time a)"
        "u_expiration u = JInt (o_time a + secs)" .
  have "upload_storable w s1 sess u"
    using assms(5,10,13-15,17-19) u by (simp add: upload_storable_def sender_known_def)
  from handle_upload_accepts [OF assms(11) u(1) this] obtain s' acts where
      h: "handle_upload_request w s sess e = (s', acts, None)" "upload_done w sess u s1 s'" by blast
  from h(1) have "was_sent acts (lit ''UPLOAD_ACK'')" "abs_status s' (u_file_id u) = Some (lit ''pending'')"
    using upload_done_status [OF h(2)] upload_done_sends [OF h assms(11)] by simp_all
  with h(1) u(2) show ?thesis by auto
qed

theorem client_upload_accepted_witness:
  "\<exists>payload s' acts. handle_upload_request demo_world demo_start (demo_session alice 65) (demo_request payload) = (s', acts, None)
     \<and> was_sent acts (lit ''UPLOAD_ACK'') \<and> abs_status s' demo_file = Some (lit ''pending'')"
proof -
  obtain payload sock where p:
      "(lit ''UPLOAD_REQUEST'', payload) \<in> set (sends (fst (upload_file demo_out (demo_live alice 65) demo_disk bob (lit ''note.txt'') 4010 sock)))"
    by (rule demo_client_sends)
  have k: "sender_known demo_world (gated demo_start) (demo_session alice 65) alice (demo_cert alice 65) bob"
    by (rule demo_known) simp
  have e: "e_payload (demo_request payload) = payload" by (simp add: demo_request_def demo_envelope_def)
  have "lookup_file (sdb (gated demo_start)) (uuid_str (o_uuid demo_out)) = None" by (simp add: lookup_file_def)
  moreover have "int64 (o_time demo_out)" "int64 (o_time demo_out + 4010)" by (simp_all add: int64_def)
  moreover have "o_lib demo_out = plain_crypto" "o_uuid demo_out < 2 ^ 128" by simp_all
  ultimately have "\<exists>s' acts. handle_upload_request demo_world demo_start (demo_session alice 65) (demo_request payload) = (s', acts, None)
     \<and> was_sent acts (lit ''UPLOAD_ACK'') \<and> abs_status s' (uuid_str (o_uuid demo_out)) = Some (lit ''pending'')"
    using client_upload_accepted [OF p demo_live_simps(2-4) wf_names(1) plain_crypto_correct(1) _ demo_world_faults(6)
        demo_key_pair demo_cert_wf demo_request_gate e k demo_world_faults(5,4)] by simp
  then show ?thesis by (auto simp: demo_file_def)
qed





text \<open>
  C21. The receipt leaves the client before the plaintext is on its disk.  If the answer to
  the receipt does not arrive, or the write fails, the command fails with nothing saved; and
  once the server has processed the receipt nobody is granted the file again.
\<close>

theorem receipt_sent_before_file_saved:
  assumes "receipted o' l f s m sig s1" "l_sock l" "l_username l = Some user"
    and "(\<exists>e. recv_envelope s1 = Inl e) \<or> o_disk o' \<noteq> DiskOk"
    and "e_payload e = ack_payload o' f sig"
    and "handle_download_ack w v sess e = (v', acts, None)" "was_sent acts (lit ''ACK_OK'')"
  shows "(\<exists>fs' acts' err. download_file o' l fs f s = (fs', acts', Inl err)
      \<and> (lit ''DOWNLOAD_ACK'', e_payload e) \<in> set (sends acts')
      \<and> fs' (download_path user f) = fs (download_path user f))
    \<and> (\<forall>w2 sess2 rid db2 logs row. authorise_download w2 (sdb v') sess2 (JStr f) rid \<noteq> (db2, logs, Inr (Granted row)))"
proof (rule conjI)
  show "\<exists>fs' acts' err. download_file o' l fs f s = (fs', acts', Inl err)
      \<and> (lit ''DOWNLOAD_ACK'', e_payload e) \<in> set (sends acts')
      \<and> fs' (download_path user f) = fs (download_path user f)"
    unfolding assms(5) using assms(1-4) by (rule download_lost)
  obtain s2 q where q: "parse_signed (e_payload e) = Inr q" "acked w q s2 v'"
    using assms(6,7) by (rule ack_ok_acked)
  have "r_file_id q = f"
    using q(1) unfolding assms(5)
    by (auto simp: parse_signed_def ack_payload_def rbind_Inr_iff dest: check_file_id_JStr)
  with acked_denied [OF q(2)]
  show "\<forall>w2 sess2 rid db2 logs row. authorise_download w2 (sdb v') sess2 (JStr f) rid \<noteq> (db2, logs, Inr (Granted row))"
    by blast
qed

theorem receipt_sent_before_file_saved_witness:
  "\<exists>sock fs' acts' err (v' :: server). download_file demo_bob_out (demo_live bob 66) demo_disk demo_file sock = (fs', acts', Inl err)
     \<and> (\<forall>w2 sess2 rid db2 logs row. authorise_download w2 (sdb v') sess2 (JStr demo_file) rid \<noteq> (db2, logs, Inr (Granted row)))"
proof -
  obtain sock s1 where r: "receipted demo_bob_out (demo_live bob 66) demo_file sock demo_text demo_receipt s1"
      "recv_envelope s1 = Inl ProtocolError"
    by (rule demo_receipt_unanswered)
  obtain v' acts where a: "handle_download_ack demo_world (demo_stored (lit ''pending'')) (demo_session bob 66) demo_ack = (v', acts, None)"
      "was_sent acts (lit ''ACK_OK'')"
    using demo_ack_done by blast
  have "(\<exists>e. recv_envelope s1 = Inl e) \<or> o_disk demo_bob_out \<noteq> DiskOk" using r(2) by simp
  note lost = receipt_sent_before_file_saved [OF r(1) demo_live_simps(1,2) this demo_ack_payload a, of demo_disk]
  from conjunct1 [OF lost] obtain fs' acts' err where
      "download_file demo_bob_out (demo_live bob 66) demo_disk demo_file sock = (fs', acts', Inl err)" by blast
  then show ?thesis using conjunct2 [OF lost]
    by (intro exI [of _ sock] exI [of _ fs'] exI [of _ acts'] exI [of _ err] exI [of _ v'] conjI)
qed


section \<open>The command line\<close>

text \<open>
  C23. A login that succeeds has authenticated the configured server: the certificate it
  names in its banner verifies under the key of the user's \<open>ca_cert.json\<close>, it is issued to
  the \<open>server_subject\<close> of \<open>config.json\<close> where there is one, and its key has signed a
  transcript with the nonce the client drew for this run.
\<close>

theorem login_authenticates_server:
  assumes "sh_end (cmd_login c h k args) = Exit 0"
  shows "\<exists>config ca_cert ca_text ca cert pem key nonce ct sig.
    asset_object k (arg_user args) ''config.json'' config
    \<and> asset_object k (arg_user args) ''ca_cert.json'' ca_cert
    \<and> jget ca_cert (lit ''public_key_pem'') = JStr ca_text \<and> ascii_encode ca_text = Inr ca
    \<and> verify_certificate (hs_lib h) (hs_now h) (JObj cert) ca None = Inr True
    \<and> (\<forall>name. jget config (lit ''server_subject'') = JStr name \<longrightarrow> py_eq (jget cert (lit ''subject'')) (JStr name))
    \<and> cert_pem cert = Inr pem \<and> load_pem_public_key (hs_lib h) pem = RsaKey key
    \<and> pss_verify (hs_lib h) key sig (sha256 (own_nonce h @ nonce @ ct))
    \<and> sh_out (cmd_login c h k args) =
        [lit ''Authenticated as '' @ arg_user args @ lit ''; session established with ''
          @ py_str (show_json c) (jget cert (lit ''subject'')) @ lit ''.'']"
proof -
  obtain pw a state s' where r: "resolve_password c (arg_password args) = Inr pw"
      "snd (open_session h k (arg_user args) pw) = Inr (a, state, s')"
    using assms by (rule cmd_login_Exit)
  then have out: "sh_out (cmd_login c h k args) = [banner c args state]" by (simp add: cmd_login_out)
  from open_session_proves [OF r(2)] have "load_client_assets k (arg_user args) = Inr a" "server_proven h a state" .
  from this(1) obtain ca_cert ca_text where f: "asset_object k (arg_user args) ''config.json'' (a_config a)"
      "asset_object k (arg_user args) ''ca_cert.json'' ca_cert"
      "jget ca_cert (lit ''public_key_pem'') = JStr ca_text" "ascii_encode ca_text = Inr (a_ca a)"
    by (rule load_client_assets_Inr)
  from \<open>server_proven h a state\<close> obtain cert pem key nonce ct sig where
      v: "peer_subject state = jget cert (lit ''subject'')"
        "verify_certificate (hs_lib h) (hs_now h) (JObj cert) (a_ca a)
           (map_option JStr (as_str (jget (a_config a) (lit ''server_subject'')))) = Inr True"
        "cert_pem cert = Inr pem" "load_pem_public_key (hs_lib h) pem = RsaKey key"
        "pss_verify (hs_lib h) key sig (sha256 (own_nonce h @ nonce @ ct))"
    unfolding server_proven_def by blast
  from v(2) have "verify_certificate (hs_lib h) (hs_now h) (JObj cert) (a_ca a) None = Inr True"
    "\<forall>name. jget (a_config a) (lit ''server_subject'') = JStr name \<longrightarrow> py_eq (jget cert (lit ''subject'')) (JStr name)"
    by (auto simp: verify_certificate_iff)
  moreover from out v(1) have "sh_out (cmd_login c h k args) =
        [lit ''Authenticated as '' @ arg_user args @ lit ''; session established with ''
          @ py_str (show_json c) (jget cert (lit ''subject'')) @ lit ''.'']"
    by (simp only: banner_def)
  ultimately show ?thesis
    by (intro exI [of _ "a_config a"] exI [of _ ca_cert] exI [of _ ca_text] exI [of _ "a_ca a"] exI [of _ cert]
        exI [of _ pem] exI [of _ key] exI [of _ nonce] exI [of _ ct] exI [of _ sig] conjI f v(3-5))
qed

theorem login_authenticates_server_witness:
  "\<exists>sock ca cert. sh_end (cmd_login demo_console demo_client (demo_machine sock) demo_args) = Exit 0
     \<and> verify_certificate plain_crypto 1000 (JObj cert) ca None = Inr True
     \<and> jget cert (lit ''subject'') = JStr bob"
proof -
  let ?a = "\<lparr>a_config = demo_config, a_cert = demo_cert alice 65, a_priv = [b8 65], a_ca = [b8 67]\<rparr>"
  obtain sock state s' where r: "snd (perform_client_handshake demo_client (Some (JStr bob)) sock) = Inr (state, s')"
    using demo_client_run by blast
  have "snd (open_session demo_client (demo_machine sock) alice []) = Inr (?a, state, s')"
    using demo_target [of sock] r
    by (simp add: open_session_Inr client_party_def demo_party_def demo_machine_def)
  then have e: "sh_end (cmd_login demo_console demo_client (demo_machine sock) demo_args) = Exit 0"
    using cmd_login_out [of demo_console demo_args "[]"] by (simp add: demo_args_def resolve_password_def utf8_encode_def)
  have c: "asset_object (demo_machine sock) alice ''config.json'' d \<Longrightarrow> d = demo_config" for d
    using demo_target [of sock] unfolding resolve_connect_target_Inr
    by (elim conjE load_client_assets_Inr) (auto dest: asset_object_unique)
  have server: "jget demo_config (lit ''server_subject'') = JStr bob"
    by (simp add: demo_config_def jget_def lit_def)
  from login_authenticates_server [OF e] show ?thesis
    using e c server by (auto simp: demo_args_def demo_party_def)
qed

section \<open>The certificate authority\<close>

text \<open>
  C24. Initialise, issue, verify.  After an \<open>init\<close> and an \<open>issue\<close> that both exit 0, with the
  same authority password and different directories, \<open>verify\<close> of the written certificate
  exits 0 until its last second, and the user's directory holds a certificate for that
  user, in the form its readers parse, with the private key that belongs to it.
\<close>

theorem issued_user_verifies:
  assumes "keygen_correct C" "pss_correct C" "ca_lib w0 = C" "ca_lib w1 = C" "ca_lib w2 = C"
    and init: "cmd_init w0 fs dir pw force = (fs1, sh0, l0)" "sh_end sh0 = Exit 0"
    and issue: "cmd_issue w1 fs1 a = (fs2, sh1, l1)" "sh_end sh1 = Exit 0"
    and "i_ca_dir a = dir" "ca_password w1 (i_password a) = ca_password w0 pw"
    and "user_path a \<noteq> mk_path dir" "mk_path arg = user_file a ''cert.json''"
    and "ca_read_fault w2 = (\<lambda>_. None)" "wf_str (i_username a)"
    and "wf_int (ca_now w1)" "wf_int (ca_now w1 + i_days a * 86400)"
    and "ca_now w1 \<le> ca_now w2" "ca_now w2 \<le> ca_now w1 + i_days a * 86400"
  shows "\<exists>user_pw. ca_password w1 (i_user_password a) = Inr user_pw
    \<and> user_credentials C fs2 a user_pw
    \<and> cmd_verify w2 fs2 arg dir = exits fs2 0
        [lit ''OK: cert for subject='' @ ca_repr w2 (JStr (i_username a)) @ lit '' verified.''] [] []"
proof -
  obtain user_pw priv cert ca_pub where u: "ca_password w1 (i_user_password a) = Inr user_pw"
      and i: "issued_to C w1 fs2 dir a user_pw priv cert ca_pub"
    using assms(1,3,4,6-12) by (rule init_issue_issued)
  note v = issued_verifies [OF i assms(2,5,15-19,14)]
  have "fs2 (user_file a ''cert.json'') \<noteq> None" "fs2 (ca_public_path dir) \<noteq> None"
    using i by (auto simp: issued_to_def)
  then have "cmd_verify w2 fs2 arg dir = exits fs2 0
      [lit ''OK: cert for subject='' @ ca_repr w2 (JStr (i_username a)) @ lit '' verified.''] [] []"
    using v(1,3) by (auto simp: cmd_verify_def assms(13) Let_def)
  with u v(2) show ?thesis by blast
qed

theorem issued_user_verifies_witness:
  "\<exists>fs2. user_credentials plain_crypto fs2 demo_issue DEMO_PASSWORD
     \<and> cmd_verify (demo_authority 65 1000) fs2 (lit ''users/alice/cert.json'') (lit ''ca'') =
         exits fs2 0 [lit ''OK: cert for subject='' @ lit '' verified.''] [] []"
proof -
  obtain fs1 sh0 l0 fs2 sh1 l1 where
      r: "cmd_init (demo_authority 67 0) Map.empty (lit ''ca'') None False = (fs1, sh0, l0)" "sh_end sh0 = Exit 0"
        "cmd_issue (demo_authority 65 10) fs1 demo_issue = (fs2, sh1, l1)" "sh_end sh1 = Exit 0"
    by (rule demo_ca_runs)
  have "user_path demo_issue \<noteq> mk_path (lit ''ca'')"
    "mk_path (lit ''users/alice/cert.json'') = user_file demo_issue ''cert.json''"
    by (simp_all add: user_path_def user_file_def demo_issue_def path_join_def mk_path_def root_prefix_def lit_def alice_def)
  from issued_user_verifies [OF plain_keygen(1) plain_crypto_correct(1) _ _ _ r _ _ this, of "demo_authority 65 1000"]
  show ?thesis using demo_days(2,4) by (intro exI [of _ fs2]) (simp add: demo_issue_def demo_authority_def ca_password_def)
qed

section \<open>The web front end\<close>

text \<open>
  C25. The inbox of the web page shows what the server lists.  When the \<open>list\<close> command of the
  user's session received the server's entries for the rows \<open>rs\<close>, the page that runs it as a
  subprocess and parses its output shows exactly one row for each of them, with its file id,
  sender, size and expiration, and each is pending, unexpired and addressed to that user.
\<close>

theorem inbox_shows_pending:
  assumes "client_bundle_exists w st user"
    and "list_pending_for rt db now (JStr user) = Inr rs" "\<forall>r \<in> set rs. printable_row r"
    and "resolve_password c (arg_password args) = Inr pw"
    and "snd (connected_session h k (arg_user args) pw (list_pending o')) = Inr (map (pending_dict v fs) rs, s')"
    and "run_process w (env_with_password w) [python_exe w, lit ''-m'', lit ''zerotrust.client.cli'', lit ''--user'', user, lit ''list''] (web_disk st) =
      (fs', Some (0, stdout_text (cmd_list c h k o' args), err))"
  shows "sh_end (cmd_list c h k o' args) = Exit 0
    \<and> snd (inbox_for w user st) = Some (map (page_row v fs) rs, None)
    \<and> (\<forall>r \<in> set rs. status r = lit ''pending'' \<and> now < expiration r \<and> recipient_id r = user)"
proof -
  have l: "cmd_list c h k o' args = print_lines (map (list_line c) (map (pending_dict v fs) rs))"
    using run_command_show [OF assms(4), of "\<lambda>pw. snd (connected_session h k (arg_user args) pw (list_pending o'))"] assms(5)
    by (simp add: cmd_list_def)
  note p = parse_printed_inbox [OF assms(3), of c v fs]
  have "sh_end (cmd_list c h k o' args) = Exit 0" using p(1) by (simp only: l)
  moreover have "parse_list_output (stdout_text (cmd_list c h k o' args)) = map (page_row v fs) rs" using p(2) by (simp only: l)
  then have "snd (inbox_for w user st) = Some (map (page_row v fs) rs, None)"
    using assms(1,6) by (simp add: inbox_for_def run_cli_def run_recorded_def)
  moreover have "\<forall>r \<in> set rs. status r = lit ''pending'' \<and> now < expiration r \<and> recipient_id r = user"
    using assms(2) by (auto simp: list_pending_for_def rbind_Inr_iff bind_text_JStr)
  ultimately show ?thesis by blast
qed

theorem inbox_shows_pending_witness:
  "\<exists>sock fs rs. rs = [demo_letter]
     \<and> sh_end (cmd_list demo_console demo_client (demo_machine sock) demo_out demo_args) = Exit 0
     \<and> snd (inbox_for (demo_webenv (cmd_list demo_console demo_client (demo_machine sock) demo_out demo_args)) alice demo_web) =
         Some (map (page_row demo_world fs) rs, None)"
proof -
  obtain sock s' where s: "snd (connected_session demo_client (demo_machine sock) alice [] (list_pending demo_out)) = Inr ([demo_inbox], s')"
    by (rule demo_inbox_session)
  let ?db = "\<lparr>files = [demo_letter], seen_nonces = [], acks = []\<rparr>"
  have l: "list_pending_for (\<lambda>_. []) ?db 1000 (JStr alice) = Inr [demo_letter]"
    by (simp add: list_pending_for_def rbind_Inr_iff bind_text_JStr demo_letter_def demo_row_def)
  have p: "\<forall>r \<in> set [demo_letter]. printable_row r"
    using wordy_uuid [of 1]
    by (simp add: printable_row_def demo_letter_def demo_row_def demo_file_def bob_def lit_def py_space_def)
  have e: "client_bundle_exists (demo_webenv sh) demo_web alice" for sh
    by (simp add: client_bundle_exists_def demo_webenv_def demo_web_def)
  have a: "resolve_password demo_console (arg_password demo_args) = Inr []" "arg_user demo_args = alice"
    by (simp_all add: demo_args_def resolve_password_def utf8_encode_def)
  have s2: "snd (connected_session demo_client (demo_machine sock) (arg_user demo_args) [] (list_pending demo_out)) =
      Inr (map (pending_dict demo_world demo_fs) [demo_letter], s')"
    using s a(2) by (simp add: demo_inbox_def)
  show ?thesis
    by (intro exI [of _ sock] exI [of _ demo_fs] exI [of _ "[demo_letter]"] conjI refl)
      (use inbox_shows_pending [OF e l p a(1) s2] in \<open>simp_all add: demo_webenv_def demo_web_def\<close>)
qed

section \<open>The server's own invariants\<close>



text \<open>
  C27. Every request gets at most one reply: a handler that returns has sent exactly one
  message, and one that raises has sent none.
\<close>

theorem one_reply_per_request:
  "case dispatch w s sess peer e of (s', acts, ex) \<Rightarrow>
     length (sends acts) = (case ex of None \<Rightarrow> 1 | Some _ \<Rightarrow> 0)"
  using dispatch_one_reply [of w s sess peer e]
  by (auto simp: one_reply_def split: prod.splits option.splits)

text \<open>
  C28. The request loop ends: with more fuel than a quarter of the bytes that arrive it
  never runs out, and its result does not depend on the fuel.
\<close>

theorem serve_loop_terminates:
  assumes "length (stream sock) < 4 * fuel"
  shows "\<exists>s' out logs en. en \<noteq> OutOfFuel
    \<and> (\<forall>more. serve_loop (fuel + more) W i s sess peer sock = (s', out, logs, en))"
proof -
  obtain s' out logs en where r: "serve_loop fuel W i s sess peer sock = (s', out, logs, en)"
    by (metis prod_cases4)
  have en: "en \<noteq> OutOfFuel" using assms r by (rule serve_loop_ends)
  have "serve_loop (fuel + more) W i s sess peer sock = (s', out, logs, en)" for more
  proof (induction more)
    case (Suc more)
    from serve_loop_fuel_mono [OF Suc en] show ?case by simp
  qed (simp add: r)
  with en show ?thesis by blast
qed

theorem serve_loop_terminates_witness:
  "\<exists>s' out logs en. serve_loop 1 (\<lambda>_. \<lparr>rw_env = demo_world, rw_stamp = demo_stamp, rw_send_fault = None\<rparr>) 0
     demo_start (demo_session alice 65) [] [] = (s', out, logs, en) \<and> en \<noteq> OutOfFuel"
proof -
  have "length (stream []) < 4 * 1" by simp
  from serve_loop_terminates [OF this, of "\<lambda>_. \<lparr>rw_env = demo_world, rw_stamp = demo_stamp, rw_send_fault = None\<rparr>"
      0 demo_start "demo_session alice 65" "[]"]
  show ?thesis by (metis add.right_neutral)
qed

text \<open>
  C29. The list of pending files and the download chokepoint agree with the access
  specification: at one moment, a user is listed exactly the rows that the user would be
  granted, and these are the pending, unexpired rows addressed to the user.  Granting
  changes nothing and logs nothing.
\<close>

theorem listed_iff_granted:
  assumes "db_ok db" "peer_subject sess = JStr u" "wf_str u" "get_fault w = None"
  shows "\<exists>rows. list_pending_for (real_text w) db (t_auth w) (peer_subject sess) = Inr rows
    \<and> (\<forall>row. (row \<in> set rows \<longleftrightarrow>
          authorise_download w db sess (JStr (file_id row)) rid = (db, [], Inr (Granted row)))
        \<and> (row \<in> set rows \<longleftrightarrow> row \<in> set (files db) \<and> recipient_id row = u
            \<and> status row = lit ''pending'' \<and> t_auth w < expiration row)
        \<and> (\<forall>db' logs. authorise_download w db sess (JStr (file_id row)) rid = (db', logs, Inr (Granted row)) \<longrightarrow>
            db' = db \<and> logs = []))"
proof -
  have "get_file (real_text w) db (JStr (file_id row)) = Inr (Some row) \<longleftrightarrow> row \<in> set (files db)" for row
    using assms(1) by (auto simp: get_file_JStr db_ok_def lookup_file_Some_iff eq_commute [of "Some row"])
  then show ?thesis
    using assms(2-4)
    by (auto simp: list_pending_for_def rbind_Inr_iff bind_text_JStr authorise_iff may_download_def)
qed

theorem listed_iff_granted_witness:
  "authorise_download demo_world (sdb (demo_stored (lit ''pending''))) (demo_session bob 66) (JStr demo_file) (Val JNull) =
     (sdb (demo_stored (lit ''pending'')), [], Inr (Granted (demo_row (lit ''pending''))))"
proof -
  let ?db = "sdb (demo_stored (lit ''pending''))"
  have ok: "db_ok ?db" by (rule demo_stored_ok) (simp add: STATUSES_def)
  have u: "peer_subject (demo_session bob 66) = JStr bob" by (simp add: demo_session_def)
  have "wf_str bob" by simp
  from listed_iff_granted [OF ok u this demo_world_faults(1), of "Val JNull"]
  obtain rows where r: "list_pending_for (real_text demo_world) ?db (t_auth demo_world) (JStr bob) = Inr rows"
      "\<forall>row. row \<in> set rows \<longleftrightarrow>
         authorise_download demo_world ?db (demo_session bob 66) (JStr (file_id row)) (Val JNull) = (?db, [], Inr (Granted row))"
    unfolding u by blast
  have "rows = [demo_row (lit ''pending'')]"
    using r(1) by (simp add: list_pending_for_def bind_text_def bind_str_def wf_str_def [symmetric] demo_stored_def
        demo_row_def demo_world_def)
  moreover have "file_id (demo_row (lit ''pending'')) = demo_file" by (simp add: demo_row_def)
  ultimately show ?thesis using r(2) by (metis list.set_intros(1))
qed



section \<open>Certificates and signed statements\<close>

text \<open>
  C31. A certificate that the CA issues verifies under the CA's public key for exactly its
  subject and exactly from its first second through its last.
\<close>

theorem issued_certificate_verifies:
  assumes "issue_certificate C now serial salt subject pem ca_priv pw days = Inr cert"
    and "pss_correct C" "load_pem_private_key C ca_priv pw = RsaKey k" "load_pem_public_key C ca_pub = RsaKey k"
  shows "verify_certificate C t (JObj cert) ca_pub (Some (JStr s)) =
    Inr (now \<le> t \<and> t \<le> now + days * 86400 \<and> s = subject)"
  using assms by (rule verify_issued)

theorem issued_certificate_witness:
  "verify_certificate plain_crypto 31536000 (JObj (demo_cert alice 65)) [b8 67] (Some (JStr alice)) = Inr True
   \<and> verify_certificate plain_crypto 31536001 (JObj (demo_cert alice 65)) [b8 67] (Some (JStr alice)) = Inr False"
proof -
  have i: "issue_certificate plain_crypto 0 (lit ''serial'') [] alice [b8 65] [b8 67] [] 365 = Inr (demo_cert alice 65)"
    by (rule demo_cert_issued) simp_all
  have k: "load_pem_private_key plain_crypto [b8 67] [] = RsaKey 67" "load_pem_public_key plain_crypto [b8 67] = RsaKey 67"
    by (simp_all add: load_plain)
  show ?thesis
    using issued_certificate_verifies [OF i plain_crypto_correct(1) k] by simp
qed

text \<open>
  C32. A verified certificate carries the CA's own words: if the CA's key signs nothing but
  certificate bodies it has issued, a certificate that verifies, whoever presents it, has
  the subject, the public key and the validity of an issued one.
\<close>

theorem certificate_authentic:
  assumes "verify_certificate C t (JObj cert) ca_pub expected = Inr True"
    and "load_pem_public_key C ca_pub = RsaKey k"
    and "\<And>sig m. pss_verify C k sig m \<Longrightarrow>
      \<exists>(subject, pem, now, days, serial) \<in> issued. wf_json (JObj (unsigned_cert subject pem now days serial))
        \<and> canonical_json (JObj (unsigned_cert subject pem now days serial)) = Inr m"
    and "wf_json (JObj (strip_signature cert))"
  shows "\<exists>(subject, pem, now, days, serial) \<in> issued. jget cert (lit ''subject'') = JStr subject
    \<and> jget cert (lit ''public_key_pem'') = JStr pem \<and> now \<le> t \<and> t \<le> now + days * 86400"
proof -
  have v: "ca_signed C ca_pub cert" "in_validity cert t = Inr True"
    using assms(1) by (simp_all add: verify_certificate_iff)
  obtain sig body where b: "canonical_json (JObj (strip_signature cert)) = Inr body" "pss_verify C k sig body"
    using v(1) assms(2) by (auto simp: ca_signed_def)
  obtain subject pem now days serial where i: "(subject, pem, now, days, serial) \<in> issued"
      "wf_json (JObj (unsigned_cert subject pem now days serial))"
      "canonical_json (JObj (unsigned_cert subject pem now days serial)) = Inr body"
    using assms(3) [OF b(2)] by blast
  note same = unsigned_same [OF b(1) i(3) assms(4) i(2)]
  have "now \<le> t" "t \<le> now + days * 86400"
    using v(2) unfolding in_validity_True same by simp_all
  with i(1) same show ?thesis by (intro bexI [of _ "(subject, pem, now, days, serial)"]) simp_all
qed

theorem certificate_authentic_witness:
  "\<exists>(subject, pem, now, days, serial) \<in> {(alice, [65], 0, 365, lit ''serial'')}.
     jget (demo_cert alice 65) (lit ''subject'') = JStr subject"
proof -
  let ?body = "JObj (unsigned_cert alice [65] 0 365 (lit ''serial''))"
  let ?C = "plain_crypto\<lparr>pss_verify := \<lambda>k s m. s = b8 k # m \<and> m = bytes_of ?body\<rparr>"
  have w: "wf_json ?body" by (rule wf_unsigned) simp_all
  have c: "canonical_json ?body = Inr (bytes_of ?body)" using w by (rule canonical_bytes_of)
  have st: "strip_signature (demo_cert alice 65) = unsigned_cert alice [65] 0 365 (lit ''serial'')"
    by (simp add: demo_cert_def unsigned_cert_def strip_signature_def)
  have k: "load_pem_public_key ?C [b8 67] = RsaKey 67" by (simp add: load_plain)
  have "ca_signed ?C [b8 67] (demo_cert alice 65)"
    using c k unfolding ca_signed_def st
    by (intro exI [of _ "b8 67 # bytes_of ?body"] exI [of _ "bytes_of ?body"] exI [of _ 67])
      (simp add: demo_cert_def unsigned_cert_def jget_def b64_field_def del: b64encode.simps)
  moreover have "verify_certificate plain_crypto 1000 (JObj (demo_cert alice 65)) [b8 67] (Some (JStr alice)) = Inr True"
    by (rule demo_cert_verifies) simp_all
  ultimately have "verify_certificate ?C 1000 (JObj (demo_cert alice 65)) [b8 67] (Some (JStr alice)) = Inr True"
    by (simp add: verify_certificate_iff)
  from certificate_authentic [OF this k, of "{(alice, [65], 0, 365, lit ''serial'')}"] w c
  show ?thesis by (auto simp: st)
qed

text \<open>
  C33. A signature says what its signer said: if a key signs nothing but the statements of
  a set (origins of files, revocations, receipts), then whatever struct the verifier
  accepts under that key is the struct of a statement of the set, of the same kind and with
  the same fields.  So a receipt never passes for a revocation, and no routing field, time
  or digest can be exchanged.
\<close>

theorem accepted_statement_was_signed:
  assumes "verify_struct C cert sig (struct_of st) = Inr True" "wf_json (struct_of st)"
    and "cert_value_pem cert = Inr pem" "load_pem_public_key C pem = RsaKey k"
    and "\<And>s m. pss_verify C k s m \<Longrightarrow>
      \<exists>x \<in> said. wf_json (struct_of x) \<and> canonical_json (struct_of x) = Inr m"
  shows "st \<in> said"
proof -
  obtain bs where b: "canonical_json (struct_of st) = Inr bs" "pss_verify C k sig bs"
    using assms(1,3,4) by (auto simp: verify_struct_True signed_by_def)
  obtain x where x: "x \<in> said" "wf_json (struct_of x)" "canonical_json (struct_of x) = Inr bs"
    using assms(5) [OF b(2)] by blast
  from struct_of_inject [OF b(1) x(3) assms(2) x(2)] x(1) show ?thesis by simp
qed

theorem accepted_statement_witness:
  "\<exists>C sig x. verify_struct C (JObj (demo_cert alice 65)) sig (struct_of x) = Inr True
     \<and> x \<in> {Revocation alice demo_file 995, Received demo_file 990}"
proof -
  let ?x = "Revocation alice demo_file 995"
  let ?C = "plain_crypto\<lparr>pss_verify := \<lambda>k s m. s = b8 k # m \<and> m = bytes_of (struct_of ?x)\<rparr>"
  have w: "wf_json (struct_of ?x)" by (simp add: wf_revoke_struct)
  note c = canonical_bytes_of [OF w]
  have p: "cert_value_pem (JObj (demo_cert alice 65)) = Inr [b8 65]"
    by (simp add: cert_value_pem_def demo_cert_pem)
  have k: "load_pem_public_key ?C [b8 65] = RsaKey 65" by (simp add: load_plain)
  have v: "verify_struct ?C (JObj (demo_cert alice 65)) (demo_sig 65 (struct_of ?x)) (struct_of ?x) = Inr True"
    using c p k by (simp add: verify_struct_True signed_by_def demo_sig_def del: struct_of.simps)
  have "?x \<in> {?x, Received demo_file 990}"
  proof (rule accepted_statement_was_signed [OF v w p k])
    fix s m assume "pss_verify ?C 65 s m"
    then have "m = bytes_of (struct_of ?x)" by simp
    then show "\<exists>x \<in> {?x, Received demo_file 990}. wf_json (struct_of x) \<and> canonical_json (struct_of x) = Inr m"
      using w c by (intro bexI [of _ ?x]) (simp_all del: struct_of.simps)
  qed
  with v show ?thesis by blast
qed

section \<open>The wire\<close>

text \<open>
  C34. What is sent is received, whole or not at all: the envelope that \<open>make_envelope\<close> makes
  and \<open>pack_message\<close> packs is received and validated as it was made, whatever segments TCP
  cuts it into, and the rest of the stream is untouched; a stream that ends early, at any
  byte of the header or the body, is refused with \<open>ProtocolError\<close>.
\<close>

theorem message_roundtrip:
  assumes "make_envelope st t p = Inr d" "pack_message (JObj d) = Inr bs"
    and "wf_json (JObj p)" "wf_int (st_time st)" "wf_str (st_uuid st)" "length (st_nonce st) = 16"
  shows "(\<forall>s rest. clean s \<and> stream s = bs @ rest \<longrightarrow>
      (\<exists>s'. recv_envelope s = Inr (\<lparr>e_type = t, e_nonce = JStr (b64encode (st_nonce st)),
          e_timestamp = JInt (st_time st), e_request_id = JStr (st_uuid st), e_payload = p\<rparr>, s')
        \<and> clean s' \<and> stream s' = rest))
    \<and> (\<forall>s n. clean s \<and> n < length bs \<and> stream s = take n bs \<longrightarrow> recv_message s = Inl ProtocolError)"
proof (intro conjI allI impI)
  fix s rest
  assume s: "clean s \<and> stream s = bs @ rest"
  have "wf_json (JObj d)" using make_envelope_wf [OF assms(1,3-5)] .
  then obtain s' where "recv_message s = Inr (d, s')" "clean s'" "stream s' = rest"
    using recv_packed assms(2) s by blast
  with validate_made [OF assms(1,6)]
  show "\<exists>s'. recv_envelope s = Inr (\<lparr>e_type = t, e_nonce = JStr (b64encode (st_nonce st)),
      e_timestamp = JInt (st_time st), e_request_id = JStr (st_uuid st), e_payload = p\<rparr>, s')
    \<and> clean s' \<and> stream s' = rest"
    by (simp add: recv_envelope_def)
next
  fix s n
  assume "clean s \<and> n < length bs \<and> stream s = take n bs"
  then show "recv_message s = Inl ProtocolError" using recv_truncated assms(2) by blast
qed

theorem message_roundtrip_witness:
  "\<exists>s e s' bs. recv_envelope s = Inr (e, s') \<and> e_type e = lit ''LIST_PENDING'' \<and> e_payload e = [] \<and> stream s' = [1, 2]
    \<and> wire demo_stamp (lit ''LIST_PENDING'') [] = Inr bs \<and> recv_message (arriving [take 3 bs]) = Inl ProtocolError"
proof -
  have st: "stamp_ok demo_stamp" by simp
  have "\<exists>bs. wire demo_stamp (lit ''LIST_PENDING'') [] = Inr bs"
    by (rule wire_small) (simp_all add: MESSAGE_TYPES_def)
  then obtain d bs where w: "wire demo_stamp (lit ''LIST_PENDING'') [] = Inr bs"
    and d: "make_envelope demo_stamp (lit ''LIST_PENDING'') [] = Inr d" "pack_message (JObj d) = Inr bs"
    by (auto simp: wire_def rbind_Inr_iff)
  have rt: "\<forall>s rest. clean s \<and> stream s = bs @ rest \<longrightarrow>
        (\<exists>s'. recv_envelope s = Inr (\<lparr>e_type = lit ''LIST_PENDING'', e_nonce = JStr (b64encode (st_nonce demo_stamp)),
            e_timestamp = JInt (st_time demo_stamp), e_request_id = JStr (st_uuid demo_stamp), e_payload = []\<rparr>, s')
          \<and> clean s' \<and> stream s' = rest)"
      "\<forall>s n. clean s \<and> n < length bs \<and> stream s = take n bs \<longrightarrow> recv_message s = Inl ProtocolError"
    using message_roundtrip [OF d] st unfolding stamp_ok_def by auto
  have arr: "clean (arriving [take 3 bs, drop 3 bs @ [1, 2]])" "stream (arriving [take 3 bs, drop 3 bs @ [1, 2]]) = bs @ [1, 2]"
    "clean (arriving [take 3 bs])" "stream (arriving [take 3 bs]) = take 3 bs"
    by simp_all
  obtain s' where ok: "recv_envelope (arriving [take 3 bs, drop 3 bs @ [1, 2]]) =
      Inr (\<lparr>e_type = lit ''LIST_PENDING'', e_nonce = JStr (b64encode (st_nonce demo_stamp)),
        e_timestamp = JInt (st_time demo_stamp), e_request_id = JStr (st_uuid demo_stamp), e_payload = []\<rparr>, s')"
      "stream s' = [1, 2]"
    using rt(1) arr(1,2) by blast
  have "3 < length bs" using d(2) by (elim pack_message_Inr) simp
  then have "recv_message (arriving [take 3 bs]) = Inl ProtocolError" using rt(2) arr(3,4) by blast
  with ok w show ?thesis by (intro exI conjI) (assumption | simp)+
qed

section \<open>Encrypted files\<close>

text \<open>
  C35. The recipient gets the plaintext back: what \<open>encrypt_file_blob\<close> encrypts and
  \<open>wrap_aes_key_for\<close> wraps for a certificate, the holder of the certified key unwraps
  and decrypts under the same routing.  No other routing fits: for a file id and a recipient
  that the handlers accept, whatever the senders' names contain, another routing has other
  associated data.
\<close>

theorem file_package_roundtrip:
  assumes "gcm_correct C" "oaep_correct C" "length nonce = AES_NONCE_BYTES"
    and "encrypt_file_blob C key nonce plaintext f sender recipient = Inr (n, ct, key')"
    and "wrap_aes_key_for C seed cert key' = Inr wrapped"
    and "cert_pem cert = Inr pem" "load_pem_public_key C pem = RsaKey k" "load_pem_private_key C priv pw = RsaKey k"
    and "check_file_id (JStr f) = Inr f" "valid_username (JStr recipient)"
  shows "rbind (unwrap_aes_key C priv pw wrapped)
      (\<lambda>aes_key. decrypt_file_blob C aes_key n ct f sender recipient) = Inr plaintext
    \<and> (\<forall>g s r. check_file_id (JStr g) = Inr g \<and> valid_username (JStr r)
        \<and> file_aad g s r = file_aad f sender recipient \<longrightarrow> g = f \<and> s = sender \<and> r = recipient)"
proof (intro conjI allI impI)
  show "rbind (unwrap_aes_key C priv pw wrapped)
      (\<lambda>aes_key. decrypt_file_blob C aes_key n ct f sender recipient) = Inr plaintext"
    using unwrap_wrapped [OF assms(2,5-8)] decrypt_encrypted_blob [OF assms(1,3,4)] by simp
  fix g s r
  assume o: "check_file_id (JStr g) = Inr g \<and> valid_username (JStr r) \<and> file_aad g s r = file_aad f sender recipient"
  obtain aad where "file_aad f sender recipient = Inr aad"
    using assms(4) by (auto simp: encrypt_file_blob_def rbind_Inr_iff)
  moreover have "bar_free h" if "check_file_id (JStr h) = Inr h" for h
    using uuid_chars_safe [OF that] by (auto simp: bar_free_def is_digit_def)
  moreover have "bar_free u" if "valid_username (JStr u)" for u
    using that by (auto simp: bar_free_def valid_username_iff list_all_set username_char_def)
  ultimately have "g = f \<and> s = sender \<and> r = recipient" using file_aad_inject_ends assms(9,10) o by metis
  then show "g = f" "s = sender" "r = recipient" by blast+
qed

theorem file_package_witness:
  "\<exists>n ct wrapped. rbind (unwrap_aes_key plain_crypto [b8 66] [] wrapped)
      (\<lambda>aes_key. decrypt_file_blob plain_crypto aes_key n ct demo_file alice bob) = Inr [1, 2, 3]
    \<and> file_aad demo_file (alice @ lit ''|'' @ bob) bob \<noteq> file_aad demo_file alice bob"
proof -
  obtain aad where aad: "file_aad demo_file alice bob = Inr aad"
    using file_aad_wf [of demo_file alice bob] by auto
  let ?key = "replicate 32 7" and ?nonce = "replicate 12 8"
  have e: "encrypt_file_blob plain_crypto ?key ?nonce [1, 2, 3] demo_file alice bob =
      Inr (?nonce, gcm_encrypt plain_crypto ?key ?nonce [1, 2, 3] aad, ?key)"
    using aad by (simp add: encrypt_file_blob_def aes_gcm_encrypt_def AES_KEY_BYTES_def)
  have c: "cert_pem (demo_cert bob 66) = Inr [b8 66]" by (rule demo_cert_pem) simp
  have w: "wrap_aes_key_for plain_crypto [] (demo_cert bob 66) ?key = Inr (b8 66 # ?key)"
    using c by (simp add: wrap_aes_key_for_def rsa_oaep_encrypt_def load_public_def rsa_key_of_def load_plain plain_simps
        AES_KEY_BYTES_def)
  have k: "load_pem_public_key plain_crypto [b8 66] = RsaKey 66" "load_pem_private_key plain_crypto [b8 66] [] = RsaKey 66"
    by (simp_all add: load_plain)
  have b: "valid_username (JStr bob)"
    by (simp add: valid_username_iff bob_def lit_def username_char_def)
  have n: "length ?nonce = AES_NONCE_BYTES" by (simp add: AES_NONCE_BYTES_def)
  note p = file_package_roundtrip [OF plain_crypto_correct(3,2) n e w c k demo_file_ok b]
  have "alice @ lit ''|'' @ bob \<noteq> alice" by simp
  then have "file_aad demo_file (alice @ lit ''|'' @ bob) bob \<noteq> file_aad demo_file alice bob"
    using p [THEN conjunct2] demo_file_ok b by blast
  with p [THEN conjunct1] show ?thesis by blast
qed

text \<open>
  C36. Two runs of the handshake have the same transcript hash only if they agree on both
  nonces and on the encrypted pre-master, or the two inputs are a SHA-256 collision.
\<close>

theorem transcript_binds_run:
  assumes "build_transcript_hash c s ct = Inr t" "build_transcript_hash c' s' ct' = Inr t"
  shows "c = c' \<and> s = s' \<and> ct = ct'
    \<or> c @ s @ ct \<noteq> c' @ s' @ ct' \<and> sha256 (c @ s @ ct) = sha256 (c' @ s' @ ct')"
proof -
  have l: "length c = 16" "length c' = 16" "length s = 16" "length s' = 16"
    and e: "sha256 (c @ s @ ct) = sha256 (c' @ s' @ ct')"
    using assms by (auto simp: build_transcript_hash_Inr)
  show ?thesis using transcript_inputs_unique [OF l] e by blast
qed

theorem transcript_binds_run_witness:
  "\<exists>t. build_transcript_hash (replicate 16 1) (replicate 16 2) [3] = Inr t"
proof -
  have b: "build_transcript_hash (replicate 16 1) (replicate 16 2) [3] =
      Inr (sha256 (replicate 16 1 @ replicate 16 2 @ [3]))"
    by (simp add: build_transcript_hash_Inr)
  from transcript_binds_run [OF b b] b show ?thesis by blast
qed

section \<open>The file system\<close>

text \<open>
  C37. Peers do not choose paths.  An upload, accepted or not, writes inside the files
  directory only: a path whose contents it changes is a child of that directory named after
  a canonical UUID, with the suffix \<open>.bin\<close> or \<open>.bin.tmp\<close>.  Whatever JSON value a peer asks
  a certificate of, a path is built only for a short name over letters, digits, \<open>_\<close> and
  \<open>-\<close>, and it is a child of the public-key directory.
\<close>

theorem upload_writes_inside_files_dir:
  assumes "handle_upload_request w s sess e = (s', acts, ex)" "sfs s' p \<noteq> sfs s p"
  shows "(\<exists>n < 2 ^ 128. path_parent p = files_dir (cfg w)
      \<and> path_name p \<in> {uuid_str n @ lit ''.bin'', uuid_str n @ lit ''.bin.tmp''})
    \<and> (\<forall>v q. pubkey_path_for (cfg w) v = Some q \<longrightarrow>
        (\<exists>u. v = JStr u \<and> 1 \<le> length u \<and> length u \<le> 32 \<and> list_all username_char u
          \<and> path_parent q = pubkeys_dir (cfg w) \<and> path_name q = u @ lit ''.json''))"
proof (intro conjI allI impI)
  show "\<exists>n < 2 ^ 128. path_parent p = files_dir (cfg w)
      \<and> path_name p \<in> {uuid_str n @ lit ''.bin'', uuid_str n @ lit ''.bin.tmp''}"
    using assms
  proof (rule handle_upload_fs)
    fix s1 u
    assume a: "upload_authorised w s1 sess e u"
      and p: "p \<in> {file_blob_path_for (cfg w) (u_file_id u), tmp_path_for (file_blob_path_for (cfg w) (u_file_id u))}"
    have c: "check_file_id (JStr (u_file_id u)) = Inr (u_file_id u)"
      using a parse_upload_Inr by (auto simp: upload_authorised_def)
    then obtain n where n: "n < 2 ^ 128" "u_file_id u = uuid_str n" by (auto simp: check_file_id_iff)
    have slash: "47 \<notin> set (uuid_str n)" using uuid_no_slash [OF c] n(2) by simp
    have "lit ''.bin.tmp'' = lit ''.bin'' @ lit ''.tmp''" by (simp add: lit_def)
    then have "p \<in> {Path (root_of (files_dir (cfg w))) (parts_of (files_dir (cfg w)) @ [uuid_str n @ lit ''.bin'']),
        Path (root_of (files_dir (cfg w))) (parts_of (files_dir (cfg w)) @ [uuid_str n @ lit ''.bin.tmp''])}"
      using p unfolding n(2) tmp_path_of_blob [OF slash] unfolding file_blob_path_name [OF slash] by simp
    then show ?thesis using n(1) by (intro exI [of _ n]) auto
  qed
next
  fix v q
  assume q: "pubkey_path_for (cfg w) v = Some q"
  obtain u where u: "v = JStr u" "list_all username_char u"
      "q = Path (root_of (pubkeys_dir (cfg w))) (parts_of (pubkeys_dir (cfg w)) @ [u @ lit ''.json''])"
    using q by (rule pubkey_path_for_Some)
  have "valid_username v" using q by (auto simp: pubkey_path_for_def split: if_split_asm)
  with u show "\<exists>u. v = JStr u \<and> 1 \<le> length u \<and> length u \<le> 32 \<and> list_all username_char u
      \<and> path_parent q = pubkeys_dir (cfg w) \<and> path_name q = u @ lit ''.json''"
    by (simp add: valid_username_iff)
qed

theorem upload_writes_witness:
  "\<exists>s' acts p n. handle_upload_request demo_world demo_start (demo_session alice 65) demo_upload = (s', acts, None)
     \<and> path_parent p = files_dir demo_layout \<and> path_name p = uuid_str n @ lit ''.bin''"
proof -
  obtain s' acts where h: "handle_upload_request demo_world demo_start (demo_session alice 65) demo_upload = (s', acts, None)"
      "upload_done demo_world (demo_session alice 65) demo_fields (gated demo_start) s'"
    using demo_upload_sends by blast
  let ?p = "file_blob_path_for demo_layout demo_file"
  have slash: "47 \<notin> set demo_file" using demo_file_ok by (rule uuid_no_slash)
  have "sfs s' ?p = Some [1, 2, 3]" using h(2) by (auto simp: upload_done_def demo_fields_def)
  moreover have "sfs demo_start ?p = None"
    using demo_path_differs by (simp add: demo_start_def demo_fs_def bob_path_def)
  ultimately have "sfs s' ?p \<noteq> sfs demo_start ?p" by simp
  from upload_writes_inside_files_dir [OF h(1) this, THEN conjunct1] obtain n where
      "path_parent ?p = files_dir demo_layout"
      "path_name ?p \<in> {uuid_str n @ lit ''.bin'', uuid_str n @ lit ''.bin.tmp''}" by auto
  moreover have "path_name ?p = uuid_str 1 @ lit ''.bin''"
    unfolding file_blob_path_name [OF slash] by (simp add: demo_file_def)
  ultimately show ?thesis using h(1) by blast
qed

section \<open>The audit trail\<close>

text \<open>
  C38. An audit line reads back as it was meant: split at the blanks and each word at its
  first \<open>=\<close>, it gives the event and every field in order, with the escaped value, and no
  value, whatever a peer put into it, adds or hides a field.  Secrets stay out of it: a call
  that differs only in the values of forbidden fields writes the same line.
\<close>

theorem audit_line_reads_back:
  assumes "\<forall>c \<in> set event. key_char c" "\<forall>kv \<in> set fs. \<forall>c \<in> set (fst kv). key_char c"
  shows "parse_line (audit_line repr event fs) =
      (lit ''event'', event) # map (\<lambda>(k, v). (k, if lower k \<in> set FORBIDDEN_FIELDS then lit ''<redacted>''
          else safe_value repr v)) fs
    \<and> (\<forall>gs. list_all2 (\<lambda>(k, v) (k', v'). k = k' \<and> (lower k \<notin> set FORBIDDEN_FIELDS \<longrightarrow> v = v')) fs gs \<longrightarrow>
        audit_line repr event fs = audit_line repr event gs)"
proof (intro conjI allI impI)
  have "shown repr = (\<lambda>(k, v). (k, if lower k \<in> set FORBIDDEN_FIELDS then lit ''<redacted>'' else safe_value repr v))"
    by (simp add: shown_def fun_eq_iff)
  then show "parse_line (audit_line repr event fs) =
      (lit ''event'', event) # map (\<lambda>(k, v). (k, if lower k \<in> set FORBIDDEN_FIELDS then lit ''<redacted>''
          else safe_value repr v)) fs"
    using parse_audit_line [OF assms] by simp
next
  fix gs
  assume "list_all2 (\<lambda>(k, v) (k', v'). k = k' \<and> (lower k \<notin> set FORBIDDEN_FIELDS \<longrightarrow> v = v')) fs gs"
  then have "map (audit_part repr) fs = map (audit_part repr) gs"
    by (induction rule: list_all2_induct) (auto simp: audit_part_def split_def)
  then show "audit_line repr event fs = audit_line repr event gs" by (simp only: audit_line_def)
qed

theorem audit_line_witness:
  "length (parse_line (audit_line (\<lambda>_. []) (lit ''login'') [(lit ''sender'', ltext ''a b=c''), (lit ''Password'', ltext ''x'')])) = 3
    \<and> audit_line (\<lambda>_. []) (lit ''login'') [(lit ''sender'', ltext ''a b=c''), (lit ''Password'', ltext ''x'')] =
      audit_line (\<lambda>_. []) (lit ''login'') [(lit ''sender'', ltext ''a b=c''), (lit ''Password'', Val JNull)]"
proof -
  let ?fs = "[(lit ''sender'', ltext ''a b=c''), (lit ''Password'', ltext ''x'')]"
  let ?gs = "[(lit ''sender'', ltext ''a b=c''), (lit ''Password'', Val JNull)]"
  have k: "\<forall>c \<in> set (lit ''login''). key_char c" "\<forall>c \<in> set (lit ''sender''). key_char c"
    "\<forall>c \<in> set (lit ''Password''). key_char c"
    by (simp_all add: lit_def key_char_def word_char_def)
  then have ks: "\<forall>kv \<in> set ?fs. \<forall>c \<in> set (fst kv). key_char c" by simp
  note rb = audit_line_reads_back [OF k(1) ks, of "\<lambda>_. []"]
  have "lower (lit ''Password'') = lit ''password''" by (simp add: lower_def lit_def)
  then have "list_all2 (\<lambda>(k, v) (k', v'). k = k' \<and> (lower k \<notin> set FORBIDDEN_FIELDS \<longrightarrow> v = v')) ?fs ?gs"
    by (simp add: FORBIDDEN_FIELDS_def)
  with rb [THEN conjunct2] have "audit_line (\<lambda>_. []) (lit ''login'') ?fs = audit_line (\<lambda>_. []) (lit ''login'') ?gs" by blast
  moreover have "length (parse_line (audit_line (\<lambda>_. []) (lit ''login'') ?fs)) = 3"
    unfolding rb [THEN conjunct1] by simp
  ultimately show ?thesis by simp
qed

section \<open>The prototype\<close>

text \<open>
  C39. The prototype's three scripts fit together: after \<open>ca_x509.py\<close> has run on an empty
  directory, the server and the client that load their files from it complete the handshake
  over a faultless connection with the same two session keys, each sending exactly its part.
  The client's certificate must be within its validity; the server's need not be, and need
  not name a server: the client looks at neither.
\<close>

theorem legacy_deployment_agrees:
  assumes "legacy_ca_main W ds fs = (fs', Inr ())" "\<forall>n\<in>set script_files. fs (certs_path n) = None"
    and "workshop_correct W" "pss_correct (x_crypto (w_lib W))" "oaep_correct (x_crypto (w_lib W))"
    and "legacy_load_party W fs' (lit ''server'') p = Inr h" "legacy_load_party W fs' (lit ''client1'') q = Inr c"
    and "d_from (ds 2) \<le> lp_now h" "lp_now h \<le> d_until (ds 2) + day_seconds 365"
    and "oaep_encrypt (x_crypto (w_lib W)) (lp_key h) (lp_seed c) (lp_secret c) = Some enc"
    and "pss_sign (x_crypto (w_lib W)) (lp_key h) (lp_salt h) (lp_nonce c @ lp_nonce h) = Some sigh"
    and "pss_sign (x_crypto (w_lib W)) (lp_key c) (lp_salt c) (lp_nonce c @ lp_nonce h @ lp_secret c) = Some sigc"
    and "legacy_send (lp_send_fault c 0) (client_hello_msg c) = Inr m1"
    and "legacy_send (lp_send_fault h 0) (server_hello_msg h sigh) = Inr m2"
    and "legacy_send (lp_send_fault c 1) (client_key_exchange_msg enc sigc) = Inr m3"
    and "clean ss" "stream ss = m1 @ m3 @ rest" "clean cs" "stream cs = m2 @ rest'"
  shows "legacy_server (w_lib W) h ss = ([m2], legacy_keys (w_lib W) (lp_nonce c) (lp_nonce h) (lp_secret c))
    \<and> legacy_client (w_lib W) c cs = ([m1, m3], legacy_keys (w_lib W) (lp_nonce c) (lp_nonce h) (lp_secret c))"
proof -
  obtain ca sc cc c2 where e: "fs' (certs_path ca_cert_name) = Some (w_cert_pem W ca)"
      "load_x509 (w_lib W) (w_cert_pem W ca) = Inr ca" "equipped W fs' ca (lit ''server'') (ds 1) sc"
      "equipped W fs' ca (lit ''client1'') (ds 2) cc"
    using legacy_ca_main_equips [OF assms(1,3,2)] by blast
  have h: "h = p\<lparr>lp_key := d_key (ds 1), lp_cert_pem := w_cert_pem W sc, lp_ca := ca\<rparr>"
    by (rule legacy_load_party_equipped [OF e(3,1,2) assms(3,6)])
  have c: "c = q\<lparr>lp_key := d_key (ds 2), lp_cert_pem := w_cert_pem W cc, lp_ca := ca\<rparr>"
    by (rule legacy_load_party_equipped [OF e(4,1,2) assms(3,7)])
  have "load_x509 (w_lib W) (lp_cert_pem h) = Inr sc" "signed_by_ca (w_lib W) sc (lp_ca c)" "x_key sc = Some (lp_key h)"
    "load_x509 (w_lib W) (lp_cert_pem c) = Inr cc" "server_verify_chain (w_lib W) (lp_now h) cc (lp_ca h)"
    "x_key cc = Some (lp_key c)"
    using e(3,4) assms(8,9) by (simp_all add: h c equipped_def server_verify_chain_def)
  then show ?thesis by (rule legacy_runs_agree [OF assms(4,5) _ _ _ _ _ _ assms(10-19)])
qed

text \<open>An instance in which the server's certificate has long expired.\<close>

theorem legacy_deployment_witness:
  "\<exists>c h ss cs sent_c sent_h k k'.
     legacy_load_party demo_workshop demo_certs (lit ''server'') (demo_prototype 7) = Inr h
     \<and> legacy_load_party demo_workshop demo_certs (lit ''client1'') (demo_prototype 8) = Inr c
     \<and> lp_cert_pem h = x_sig (demo_year 0 365 1 66) \<and> x_not_after (demo_year 0 365 1 66) < lp_now c
     \<and> legacy_server demo_x509_lib h ss = (sent_h, Keys k k') \<and> legacy_client demo_x509_lib c cs = (sent_c, Keys k k')"
proof -
  define h where "h = demo_side 66 (demo_year 0 365 1 66) 7"
  define c where "c = demo_side 67 (demo_year 864000000 365 2 67) 8"
  obtain m1 m2 m3 where m: "legacy_frame (client_hello_msg c) = Inr m1"
      "legacy_frame (server_hello_msg h (b8 66 # replicate 16 (b8 8) @ replicate 16 (b8 7))) = Inr m2"
      "legacy_frame (client_key_exchange_msg (b8 66 # replicate 32 (b8 8))
        (b8 67 # replicate 16 (b8 8) @ replicate 16 (b8 7) @ replicate 32 (b8 8))) = Inr m3"
    using demo_frames unfolding h_def c_def by blast
  have p: "lp_key h = 66" "lp_nonce h = replicate 16 (b8 7)" "lp_salt h = []" "lp_now h = 864000500"
      "lp_send_fault h = (\<lambda>_. None)" "lp_cert_pem h = x_sig (demo_year 0 365 1 66)"
    "lp_key c = 67" "lp_nonce c = replicate 16 (b8 8)" "lp_secret c = replicate 32 (b8 8)" "lp_seed c = []" "lp_salt c = []"
      "lp_now c = 864000500" "lp_send_fault c = (\<lambda>_. None)"
    by (simp_all add: h_def c_def demo_side_def demo_prototype_def)
  have w: "x_crypto demo_x509_lib = plain_crypto" "w_lib demo_workshop = demo_x509_lib"
    by (simp_all add: demo_workshop_def demo_x509_lib_def)
  have lib: "\<And>k salt m. pss_sign plain_crypto k salt m = Some (b8 k # m)"
    "\<And>k seed m. length m \<le> 190 \<Longrightarrow> oaep_encrypt plain_crypto k seed m = Some (b8 k # m)"
    by (simp_all add: plain_crypto_def)
  have "legacy_server (w_lib demo_workshop) h [Data (m1 @ m3)] = ([m2], legacy_keys (w_lib demo_workshop) (lp_nonce c) (lp_nonce h) (lp_secret c))
      \<and> legacy_client (w_lib demo_workshop) c [Data m2] = ([m1, m3], legacy_keys (w_lib demo_workshop) (lp_nonce c) (lp_nonce h) (lp_secret c))"
  proof (rule legacy_deployment_agrees [OF demo_certs_made _ demo_workshop_correct _ _
        demo_sides(1) [folded h_def] demo_sides(2) [folded c_def]])
    show "clean [Data (m1 @ m3)]" "clean [Data m2]" using m [THEN legacy_frame_nonempty] by (auto simp: clean_def)
  qed (use m plain_crypto_correct in \<open>simp_all add: w p legacy_send_Inr demo_draws_def day_seconds_def lib\<close>)
  moreover have "x_not_after (demo_year 0 365 1 66) < lp_now c"
    using demo_year_fields(4) [of 1 66 0 365] demo_dates by (simp add: p day_seconds_def)
  ultimately show ?thesis
    using demo_sides [folded h_def c_def] p(6) unfolding w legacy_keys_def Let_def by blast
qed

section \<open>The import checker\<close>



end
